theory Spec2Isabelle
  imports Main "HOL-Library.Word" "HOL-Library.Monad_Syntax"
begin

section \<open>Quantifier module (bzlaslvquant.c)\<close>

subsection \<open>Data\<close>

datatype BzlaSolverResult = BZLA_RESULT_SAT | BZLA_RESULT_UNSAT | BZLA_RESULT_UNKNOWN

text \<open>
  Every \<^verbatim>\<open>assert\<close> of the source is a branch of the model: a violated assertion ends the
  run with \<open>AssertionFailure\<close>, reading through a null pointer with
  \<open>NullDereference\<close> and indexing past the end of a tuple with \<open>OutOfBounds\<close>.
\<close>

datatype failure = AssertionFailure | NullDereference | OutOfBounds

datatype BzlaBitVector = BzlaBitVector (bzla_bv_width: nat) (bzla_bv_bits: nat)

text \<open>
  A \<^verbatim>\<open>BzlaBitVectorTuple\<close> has \<^verbatim>\<open>arity\<close> slots; a slot that was never written is the null
  pointer (\<open>None\<close>).
\<close>

type_synonym BzlaBitVectorTuple = "BzlaBitVector option list"

datatype BzlaNodeKind =
  BZLA_PARAM_EXISTS | BZLA_PARAM_FORALL | BZLA_ARGS | BZLA_UF | BZLA_BV_CONST | BZLA_OTHER

datatype BzlaNode =
  BzlaNode (node_id: nat) (node_kind: BzlaNodeKind) (node_width: nat)
    (node_e: "BzlaNode list") (node_inverted: bool)

definition bzla_node_param_is_exists_var :: "BzlaNode \<Rightarrow> bool" where
  "bzla_node_param_is_exists_var n = (node_kind n = BZLA_PARAM_EXISTS)"

definition bzla_node_param_is_forall_var :: "BzlaNode \<Rightarrow> bool" where
  "bzla_node_param_is_forall_var n = (node_kind n = BZLA_PARAM_FORALL)"

definition bzla_node_is_uf :: "BzlaNode \<Rightarrow> bool" where
  "bzla_node_is_uf n = (node_kind n = BZLA_UF)"

definition bzla_node_invert :: "BzlaNode \<Rightarrow> BzlaNode" where
  "bzla_node_invert n =
     BzlaNode (node_id n) (node_kind n) (node_width n) (node_e n) (\<not> node_inverted n)"

text \<open>
  A ground solver instance. The lists record what was handed to \<^verbatim>\<open>bzla_assert_exp\<close> and
  \<^verbatim>\<open>bzla_assume_exp\<close>; \<open>solver_internal\<close> stands for the rest of the instance (SAT
  solver, termination callback state), which only the solver itself reads.
\<close>

record Bzla =
  bzla_assertions :: "BzlaNode list"
  bzla_assumptions :: "BzlaNode list"
  last_sat_result :: BzlaSolverResult
  solver_internal :: nat

definition bzla_assert_exp :: "Bzla \<Rightarrow> BzlaNode \<Rightarrow> Bzla" where
  "bzla_assert_exp bzla e = bzla\<lparr>bzla_assertions := bzla_assertions bzla @ [e]\<rparr>"

definition bzla_assume_exp :: "Bzla \<Rightarrow> BzlaNode \<Rightarrow> Bzla" where
  "bzla_assume_exp bzla e = bzla\<lparr>bzla_assumptions := bzla_assumptions bzla @ [e]\<rparr>"

text \<open>
  \<^verbatim>\<open>SynthResult\<close> and the synthesized model (a hash table from existential variables to
  synthesis results, in insertion order).
\<close>

record SynthResult =
  sr_partial :: bool
  sr_limit :: "32 word"
  sr_value :: "BzlaNode option"

type_synonym synth_model = "(BzlaNode \<times> SynthResult) list"

type_synonym BzlaNodeMap = "(BzlaNode \<times> BzlaNode) list"

record BzlaGroundSolvers =
  forall :: Bzla
  forall_formula :: BzlaNode
  forall_evars :: BzlaNodeMap
  forall_uvars :: BzlaNodeMap
  forall_evar_deps :: BzlaNodeMap
  forall_uvar_deps :: BzlaNodeMap
  forall_synth_model :: "synth_model option"
  forall_ces :: "(BzlaBitVectorTuple \<times> BzlaBitVectorTuple option) list"
  forall_last_ce :: "BzlaBitVectorTuple option"
  forall_skolem :: BzlaNodeMap
  exists :: Bzla
  exists_evars :: BzlaNodeMap
  exists_ufs :: BzlaNodeMap
  exists_cur_qi :: BzlaNodeMap
  result :: BzlaSolverResult
  refinements :: "32 word"

record FlatModel =
  model :: "(BzlaBitVectorTuple \<times> BzlaBitVectorTuple) list"
  uvar_index_map :: "nat \<rightharpoonup> nat"
  evar_index_map :: "nat \<rightharpoonup> nat"

text \<open>
  What the file takes from the rest of the solver (bzlacore, bzlamodel, bzlaexp, bzlabv
  are not part of the sources at hand) and the long synthesis routines of the file whose
  only effect on the bundle is written out in \<open>find_model\<close>: they are parameters.
  \<^item> \<open>check_sat\<close>: \<^verbatim>\<open>bzla_check_sat(bzla, -1, -1)\<close>, result and solver afterwards;
  \<^item> \<open>terminate\<close>: \<^verbatim>\<open>bzla_terminate\<close>, the termination callback;
  \<^item> \<open>model_get_bv\<close>, \<open>model_get_fun\<close>: the model of a solver after \<^verbatim>\<open>generate_model\<close>;
  \<^item> \<open>simplify_exp\<close>, \<open>node_is_proxy\<close>: \<^verbatim>\<open>bzla_simplify_exp\<close>, \<^verbatim>\<open>bzla_node_is_proxy\<close>;
  \<^item> \<open>exp_bv_const\<close>, \<open>exp_apply\<close>, \<open>exp_args\<close>: node constructors of the E-solver;
  \<^item> \<open>true_exp\<close>: \<^verbatim>\<open>e_solver->true_exp\<close>;
  \<^item> \<open>build_refinement\<close>, \<open>synthesize_model\<close>, \<open>instantiate_formula\<close>,
    \<open>synthesize_quant_inst\<close>: the routines of the same name; \<open>instantiate_formula\<close>
    returns the candidate \<open>g\<close> and the filled \<open>evar_map\<close>, \<open>synthesize_quant_inst\<close> the
    E-solver and \<open>exists_cur_qi\<close> it leaves behind (it writes nothing else of the
    bundle);
  \<^item> \<open>opt_quant_synth_qi\<close>: the option \<^verbatim>\<open>BZLA_OPT_QUANT_SYNTH_QI\<close>.
\<close>

record quant_env =
  check_sat :: "Bzla \<Rightarrow> BzlaSolverResult \<times> Bzla"
  terminate :: "Bzla \<Rightarrow> bool"
  model_get_bv :: "Bzla \<Rightarrow> BzlaNode \<Rightarrow> BzlaBitVector"
  model_get_fun :: "Bzla \<Rightarrow> BzlaNode \<Rightarrow> (BzlaBitVectorTuple \<times> BzlaBitVector) list option"
  simplify_exp :: "Bzla \<Rightarrow> BzlaNode \<Rightarrow> BzlaNode"
  node_is_proxy :: "Bzla \<Rightarrow> BzlaNode \<Rightarrow> bool"
  exp_bv_const :: "BzlaBitVector \<Rightarrow> BzlaNode"
  exp_apply :: "BzlaNode \<Rightarrow> BzlaNode \<Rightarrow> BzlaNode"
  exp_args :: "BzlaNode list \<Rightarrow> BzlaNode"
  true_exp :: BzlaNode
  build_refinement :: "Bzla \<Rightarrow> BzlaNode \<Rightarrow> BzlaNodeMap \<Rightarrow> BzlaNode"
  synthesize_model :: "BzlaGroundSolvers \<Rightarrow> FlatModel \<Rightarrow> synth_model"
  instantiate_formula :: "BzlaGroundSolvers \<Rightarrow> synth_model option \<Rightarrow> BzlaNode \<times> BzlaNodeMap"
  synthesize_quant_inst :: "BzlaGroundSolvers \<Rightarrow> Bzla \<times> BzlaNodeMap"
  opt_quant_synth_qi :: "32 word"

text \<open>
  \<^verbatim>\<open>bzla_check_sat\<close> stores its answer in \<^verbatim>\<open>bzla->last_sat_result\<close>, which the assertions of
  \<open>flat_model_generate\<close> and \<open>refine_exists_solver\<close> read back.
\<close>

definition bzla_check_sat :: "quant_env \<Rightarrow> Bzla \<Rightarrow> BzlaSolverResult \<times> Bzla" where
  "bzla_check_sat env bzla =
     (let (r, bzla') = check_sat env bzla in (r, bzla'\<lparr>last_sat_result := r\<rparr>))"

subsection \<open>Bit-vector tuples, node maps, hash tables\<close>

definition bzla_bv_new :: "nat \<Rightarrow> BzlaBitVector" where
  "bzla_bv_new w = BzlaBitVector w 0"

definition bzla_bv_new_tuple :: "nat \<Rightarrow> BzlaBitVectorTuple" where
  "bzla_bv_new_tuple arity = replicate arity None"

definition bzla_bv_add_to_tuple ::
  "BzlaBitVectorTuple \<Rightarrow> BzlaBitVector \<Rightarrow> nat \<Rightarrow> failure + BzlaBitVectorTuple" where
  "bzla_bv_add_to_tuple t bv pos =
     (if pos < length t then Inr (t[pos := Some bv]) else Inl AssertionFailure)"

text \<open>\<^verbatim>\<open>t->bv[i]\<close>: reading past the arity is out of bounds, an unwritten slot is null.\<close>

definition tuple_bv :: "BzlaBitVectorTuple \<Rightarrow> nat \<Rightarrow> failure + BzlaBitVector" where
  "tuple_bv t i =
     (if i < length t then (case t ! i of None \<Rightarrow> Inl NullDereference | Some bv \<Rightarrow> Inr bv)
      else Inl OutOfBounds)"

definition bzla_nodemap_mapped :: "BzlaNodeMap \<Rightarrow> BzlaNode \<Rightarrow> BzlaNode option" where
  "bzla_nodemap_mapped m n = map_of m n"

text \<open>\<^verbatim>\<open>bzla_nodemap_map\<close>: a key already present keeps its place, a new one goes last.\<close>

definition bzla_nodemap_map :: "BzlaNodeMap \<Rightarrow> BzlaNode \<Rightarrow> BzlaNode \<Rightarrow> BzlaNodeMap" where
  "bzla_nodemap_map m k v =
     (if k \<in> fst ` set m then map (\<lambda>(k', v'). if k' = k then (k', v) else (k', v')) m
      else m @ [(k, v)])"

text \<open>The index maps of the flat model: the i-th key of a node map gets index i.\<close>

fun index_map_from :: "nat \<Rightarrow> BzlaNode list \<Rightarrow> (nat \<rightharpoonup> nat) \<Rightarrow> (nat \<rightharpoonup> nat)" where
  "index_map_from i [] m = m"
| "index_map_from i (cur # rest) m = index_map_from (Suc i) rest (m(node_id cur \<mapsto> i))"

subsection \<open>flat_model_get_value, flat_model_generate\<close>

text \<open>The debug loop of \<open>flat_model_get_value\<close>: every row holds \<open>res\<close> at index \<open>i\<close>.\<close>

fun rows_agree :: "BzlaBitVector \<Rightarrow> nat \<Rightarrow> BzlaBitVectorTuple list \<Rightarrow> failure + unit" where
  "rows_agree res i [] = Inr ()"
| "rows_agree res i (tup # rest) =
     (case tuple_bv tup i of
        Inl f \<Rightarrow> Inl f
      | Inr bv \<Rightarrow> if res = bv then rows_agree res i rest else Inl AssertionFailure)"

definition flat_model_get_value ::
  "FlatModel \<Rightarrow> BzlaNode \<Rightarrow> BzlaBitVectorTuple option \<Rightarrow> failure + BzlaBitVector" where
  "flat_model_get_value flat_model var ce =
     (if bzla_node_param_is_exists_var var then
        (case evar_index_map flat_model (node_id var) of
           None \<Rightarrow> Inl NullDereference
         | Some i \<Rightarrow>
             (case ce of
                Some c \<Rightarrow>
                  (case map_of (model flat_model) c of
                     None \<Rightarrow> Inl AssertionFailure
                   | Some t \<Rightarrow> tuple_bv t i)
              | None \<Rightarrow>
                  (case model flat_model of
                     [] \<Rightarrow> Inl AssertionFailure
                   | (c, t) # rest \<Rightarrow>
                       (case tuple_bv t i of
                          Inl f \<Rightarrow> Inl f
                        | Inr res \<Rightarrow>
                            (case rows_agree res i (map snd (model flat_model)) of
                               Inl f \<Rightarrow> Inl f
                             | Inr u \<Rightarrow> Inr res)))))
      else
        (case ce of
           None \<Rightarrow> Inl AssertionFailure
         | Some c \<Rightarrow>
             if \<not> bzla_node_param_is_forall_var var then Inl AssertionFailure
             else (case uvar_index_map flat_model (node_id var) of
                     None \<Rightarrow> Inl NullDereference
                   | Some i \<Rightarrow> tuple_bv c i)))"

text \<open>
  The inner-most loop of \<open>flat_model_generate\<close>: the tuple \<open>mtup\<close> of the values that the
  counter-example \<open>ce\<close> gives to the universal variables an existential variable
  depends on.
\<close>

fun fill_mtup ::
  "(nat \<rightharpoonup> nat) \<Rightarrow> BzlaBitVectorTuple \<Rightarrow> BzlaNode list \<Rightarrow> nat \<Rightarrow> BzlaBitVectorTuple
     \<Rightarrow> failure + BzlaBitVectorTuple" where
  "fill_mtup uim ce [] j mtup = Inr mtup"
| "fill_mtup uim ce (cur # rest) j mtup =
     (case uim (node_id cur) of
        None \<Rightarrow> Inl NullDereference
      | Some i \<Rightarrow>
          (case tuple_bv ce i of
             Inl f \<Rightarrow> Inl f
           | Inr bv \<Rightarrow>
               (case bzla_bv_add_to_tuple mtup bv j of
                  Inl f \<Rightarrow> Inl f
                | Inr mtup' \<Rightarrow> fill_mtup uim ce rest (Suc j) mtup')))"

text \<open>The value one existential variable gets in the row of \<open>ce\<close>.\<close>

definition evar_value ::
  "quant_env \<Rightarrow> BzlaGroundSolvers \<Rightarrow> (nat \<rightharpoonup> nat) \<Rightarrow> BzlaBitVectorTuple
     \<Rightarrow> BzlaNode \<Rightarrow> BzlaNode \<Rightarrow> failure + BzlaBitVector" where
  "evar_value env gslv uim ce f_evar e_evar =
     (case bzla_nodemap_mapped (forall_evar_deps gslv) f_evar of
        Some args \<Rightarrow>
          (case model_get_fun env (exists gslv) e_evar of
             Some m \<Rightarrow>
               (case fill_mtup uim ce (node_e args) 0 (bzla_bv_new_tuple (length (node_e args))) of
                  Inl f \<Rightarrow> Inl f
                | Inr mtup \<Rightarrow>
                    (case map_of m mtup of
                       Some bv \<Rightarrow> Inr bv
                     | None \<Rightarrow> Inr (bzla_bv_new (node_width f_evar))))
           | None \<Rightarrow> Inr (bzla_bv_new (node_width f_evar)))
      | None \<Rightarrow>
          if \<not> bzla_node_param_is_exists_var f_evar then Inl AssertionFailure
          else Inr (model_get_bv env (exists gslv) (simplify_exp env (exists gslv) e_evar)))"

text \<open>The loop over \<open>forall_evars\<close> that fills \<open>evar_values\<close> from position \<open>pos\<close> on.\<close>

fun fill_evar_values ::
  "quant_env \<Rightarrow> BzlaGroundSolvers \<Rightarrow> (nat \<rightharpoonup> nat) \<Rightarrow> BzlaBitVectorTuple
     \<Rightarrow> BzlaNodeMap \<Rightarrow> nat \<Rightarrow> BzlaBitVectorTuple \<Rightarrow> failure + BzlaBitVectorTuple" where
  "fill_evar_values env gslv uim ce [] pos evar_values = Inr evar_values"
| "fill_evar_values env gslv uim ce ((f_evar, e_evar) # rest) pos evar_values =
     (case evar_value env gslv uim ce f_evar e_evar of
        Inl f \<Rightarrow> Inl f
      | Inr bv \<Rightarrow>
          (case bzla_bv_add_to_tuple evar_values bv pos of
             Inl f \<Rightarrow> Inl f
           | Inr evar_values' \<Rightarrow> fill_evar_values env gslv uim ce rest (Suc pos) evar_values'))"

text \<open>The loop over \<open>forall_ces\<close>: one row per counter-example, in the table's order.\<close>

fun generate_rows ::
  "quant_env \<Rightarrow> BzlaGroundSolvers \<Rightarrow> (nat \<rightharpoonup> nat) \<Rightarrow> nat \<Rightarrow> BzlaBitVectorTuple list
     \<Rightarrow> (BzlaBitVectorTuple \<times> BzlaBitVectorTuple) list
     \<Rightarrow> failure + (BzlaBitVectorTuple \<times> BzlaBitVectorTuple) list" where
  "generate_rows env gslv uim nevars [] rows = Inr rows"
| "generate_rows env gslv uim nevars (ce # rest) rows =
     (case fill_evar_values env gslv uim ce (forall_evars gslv) 0 (bzla_bv_new_tuple nevars) of
        Inl f \<Rightarrow> Inl f
      | Inr evar_values \<Rightarrow> generate_rows env gslv uim nevars rest (rows @ [(ce, evar_values)]))"

definition flat_model_generate :: "quant_env \<Rightarrow> BzlaGroundSolvers \<Rightarrow> failure + FlatModel" where
  "flat_model_generate env gslv =
     (let nevars = length (exists_evars gslv);
          uim = index_map_from 0 (map fst (forall_uvars gslv)) Map.empty;
          eim = index_map_from 0 (map fst (forall_evars gslv)) Map.empty
      in if last_sat_result (exists gslv) \<noteq> BZLA_RESULT_SAT then Inl AssertionFailure
         else (case generate_rows env gslv uim nevars (map fst (forall_ces gslv)) [] of
                 Inl f \<Rightarrow> Inl f
               | Inr rows \<Rightarrow>
                   Inr \<lparr>model = rows, uvar_index_map = uim, evar_index_map = eim\<rparr>))"

subsection \<open>refine_exists_solver\<close>

text \<open>
  First loop: the counter-example \<open>ce\<close> (the F-solver's values of the constants that
  stand for the universal variables) and the map from each universal variable to that
  value as a constant of the E-solver.
\<close>

fun refine_uvars ::
  "quant_env \<Rightarrow> Bzla \<Rightarrow> BzlaNodeMap \<Rightarrow> nat \<Rightarrow> BzlaNodeMap \<Rightarrow> BzlaBitVectorTuple
     \<Rightarrow> failure + (BzlaNodeMap \<times> BzlaBitVectorTuple)" where
  "refine_uvars env f_solver [] i nmap ce = Inr (nmap, ce)"
| "refine_uvars env f_solver ((uvar, var_fs) # rest) i nmap ce =
     (let bv = model_get_bv env f_solver (simplify_exp env f_solver var_fs);
          c = exp_bv_const env bv;
          nmap' = bzla_nodemap_map nmap uvar c
      in case bzla_bv_add_to_tuple ce bv i of
           Inl f \<Rightarrow> Inl f
         | Inr ce' \<Rightarrow> refine_uvars env f_solver rest (Suc i) nmap' ce')"

text \<open>Second loop: the values the F-solver gives to the instantiated existentials.\<close>

fun refine_evar_tup ::
  "quant_env \<Rightarrow> Bzla \<Rightarrow> BzlaNodeMap \<Rightarrow> BzlaNode list \<Rightarrow> nat \<Rightarrow> BzlaBitVectorTuple
     \<Rightarrow> failure + BzlaBitVectorTuple" where
  "refine_evar_tup env f_solver evar_map [] i evar_tup = Inr evar_tup"
| "refine_evar_tup env f_solver evar_map (evar # rest) i evar_tup =
     (case bzla_nodemap_mapped evar_map evar of
        None \<Rightarrow> Inl AssertionFailure
      | Some var_fs \<Rightarrow>
          (let bv = model_get_bv env f_solver (simplify_exp env f_solver var_fs)
           in case bzla_bv_add_to_tuple evar_tup bv i of
                Inl f \<Rightarrow> Inl f
              | Inr evar_tup' \<Rightarrow> refine_evar_tup env f_solver evar_map rest (Suc i) evar_tup'))"

fun instantiate_args_loop ::
  "BzlaNodeMap \<Rightarrow> BzlaNode list \<Rightarrow> BzlaNode list \<Rightarrow> failure + BzlaNode list" where
  "instantiate_args_loop nmap [] stack = Inr stack"
| "instantiate_args_loop nmap (arg # rest) stack =
     (if \<not> bzla_node_param_is_forall_var arg then Inl AssertionFailure
      else (case bzla_nodemap_mapped nmap arg of
              None \<Rightarrow> Inl AssertionFailure
            | Some mapped \<Rightarrow> instantiate_args_loop nmap rest (stack @ [mapped])))"

definition instantiate_args :: "quant_env \<Rightarrow> BzlaNode \<Rightarrow> BzlaNodeMap \<Rightarrow> failure + BzlaNode" where
  "instantiate_args env args nmap =
     (if node_kind args \<noteq> BZLA_ARGS then Inl AssertionFailure
      else (case instantiate_args_loop nmap (node_e args) [] of
              Inl f \<Rightarrow> Inl f
            | Inr stack \<Rightarrow> Inr (exp_args env stack)))"

text \<open>Third loop: existential variables are mapped to their Skolem constants or UFs.\<close>

fun refine_skolem ::
  "quant_env \<Rightarrow> BzlaGroundSolvers \<Rightarrow> BzlaNodeMap \<Rightarrow> BzlaNodeMap \<Rightarrow> failure + BzlaNodeMap" where
  "refine_skolem env gslv [] nmap = Inr nmap"
| "refine_skolem env gslv ((var_fs, var_es) # rest) nmap =
     (case bzla_nodemap_mapped (forall_evar_deps gslv) var_fs of
        Some a \<Rightarrow>
          (if \<not> bzla_node_is_uf var_es then Inl AssertionFailure
           else (case instantiate_args env a nmap of
                   Inl f \<Rightarrow> Inl f
                 | Inr a' \<Rightarrow>
                     refine_skolem env gslv rest
                       (bzla_nodemap_map nmap var_fs (exp_apply env var_es a'))))
      | None \<Rightarrow> refine_skolem env gslv rest (bzla_nodemap_map nmap var_fs var_es))"

text \<open>Fourth loop: the UFs of the formula.\<close>

fun refine_ufs :: "BzlaNodeMap \<Rightarrow> BzlaNodeMap \<Rightarrow> BzlaNodeMap" where
  "refine_ufs [] nmap = nmap"
| "refine_ufs ((var_es, var_fs) # rest) nmap = refine_ufs rest (bzla_nodemap_map nmap var_fs var_es)"

definition refine_exists_solver ::
  "quant_env \<Rightarrow> BzlaGroundSolvers \<Rightarrow> BzlaNodeMap \<Rightarrow> failure + BzlaGroundSolvers" where
  "refine_exists_solver env gslv evar_map =
     (if \<not> length (forall_uvars gslv) > 0 then Inl AssertionFailure
      else
        let f_solver = forall gslv; e_solver = exists gslv
        in if last_sat_result f_solver \<noteq> BZLA_RESULT_SAT then Inl AssertionFailure
           else
             (case refine_uvars env f_solver (forall_uvars gslv) 0 []
                     (bzla_bv_new_tuple (length (forall_uvars gslv))) of
                Inl f \<Rightarrow> Inl f
              | Inr (nmap1, ce) \<Rightarrow>
                  (case (if length (forall_evars gslv) \<noteq> 0
                         then (case refine_evar_tup env f_solver evar_map
                                      (map fst (forall_evars gslv)) 0
                                      (bzla_bv_new_tuple (length (forall_evars gslv))) of
                                 Inl f \<Rightarrow> Inl f
                               | Inr t \<Rightarrow> Inr (Some t))
                         else Inr None) of
                     Inl f \<Rightarrow> Inl f
                   | Inr evar_tup \<Rightarrow>
                       (case refine_skolem env gslv (forall_evars gslv) nmap1 of
                          Inl f \<Rightarrow> Inl f
                        | Inr nmap2 \<Rightarrow>
                            (let nmap3 = refine_ufs (exists_ufs gslv) nmap2;
                                 res = build_refinement env e_solver (forall_formula gslv) nmap3
                             in if res = true_exp env then Inl AssertionFailure
                                else if map_of (forall_ces gslv) ce \<noteq> None
                                then Inl AssertionFailure
                                else Inr (gslv
                                       \<lparr>refinements := refinements gslv + 1,
                                        forall_ces := forall_ces gslv @ [(ce, evar_tup)],
                                        forall_last_ce := Some ce,
                                        exists := bzla_assert_exp e_solver res\<rparr>))))))"

subsection \<open>find_model\<close>

definition delete_model :: "BzlaGroundSolvers \<Rightarrow> BzlaGroundSolvers" where
  "delete_model gslv = gslv\<lparr>forall_synth_model := None\<rparr>"

definition update_formula :: "quant_env \<Rightarrow> BzlaGroundSolvers \<Rightarrow> BzlaGroundSolvers" where
  "update_formula env gslv =
     (let f = forall_formula gslv
      in if node_is_proxy env (forall gslv) f
         then gslv\<lparr>forall_formula := simplify_exp env (forall gslv) f\<rparr>
         else gslv)"

text \<open>
  The second half of \<open>find_model\<close>, from the instantiation of the formula with the
  synthesized model to the label \<^verbatim>\<open>DONE\<close>. The local \<open>res\<close> still holds its initial
  value \<open>BZLA_RESULT_UNKNOWN\<close> when the refinement is reached.
\<close>

definition find_model_check ::
  "quant_env \<Rightarrow> BzlaGroundSolvers \<Rightarrow> bool \<Rightarrow> synth_model option
     \<Rightarrow> failure + (BzlaSolverResult \<times> BzlaGroundSolvers)" where
  "find_model_check env gslv skip_exists synth_model =
     (let opt_synth_qi = (opt_quant_synth_qi env = 1);
          (g, evar_map) = instantiate_formula env gslv synth_model
      in if length (forall_uvars gslv) = 0 then
           (if \<not> skip_exists then Inl AssertionFailure
            else let (res, f') = bzla_check_sat env (bzla_assert_exp (forall gslv) g)
                 in Inr (res, gslv\<lparr>forall := f'\<rparr>))
         else
           let (r, f') = bzla_check_sat env (bzla_assume_exp (forall gslv) (bzla_node_invert g));
               gslv1 = update_formula env (gslv\<lparr>forall := f'\<rparr>)
           in if node_is_proxy env (forall gslv1) (forall_formula gslv1)
              then Inl AssertionFailure
              else if r = BZLA_RESULT_UNSAT then Inr (BZLA_RESULT_SAT, gslv1)
              else if r = BZLA_RESULT_UNKNOWN then
                (if terminate env (forall gslv1) then Inr (BZLA_RESULT_UNKNOWN, gslv1)
                 else Inl AssertionFailure)
              else
                (case refine_exists_solver env gslv1 evar_map of
                   Inl f \<Rightarrow> Inl f
                 | Inr gslv2 \<Rightarrow>
                     Inr (BZLA_RESULT_UNKNOWN,
                          if opt_synth_qi
                          then (let (e', qi') = synthesize_quant_inst env gslv2
                                in gslv2\<lparr>exists := e', exists_cur_qi := qi'\<rparr>)
                          else gslv2)))"

text \<open>
  The first half of \<open>find_model\<close>, the block under \<^verbatim>\<open>if (!skip_exists)\<close>: it either
  jumps to the label \<^verbatim>\<open>DONE\<close> with a result, or falls through to the instantiation with
  the model it synthesized (none when the E-solver was skipped).
\<close>

datatype exists_step =
  Goto_DONE BzlaSolverResult BzlaGroundSolvers
| Fall_through "synth_model option" BzlaGroundSolvers

definition find_model_exists ::
  "quant_env \<Rightarrow> BzlaGroundSolvers \<Rightarrow> bool \<Rightarrow> failure + exists_step" where
  "find_model_exists env gslv skip_exists =
     (if \<not> skip_exists then
        (let (r, e') = bzla_check_sat env (exists gslv);
             gslv1 = gslv\<lparr>exists := e'\<rparr>
         in if r = BZLA_RESULT_UNSAT then Inr (Goto_DONE BZLA_RESULT_UNSAT gslv1)
            else if r = BZLA_RESULT_UNKNOWN then
              (if terminate env (exists gslv1) then Inr (Goto_DONE BZLA_RESULT_UNKNOWN gslv1)
               else Inl AssertionFailure)
            else
              (case flat_model_generate env gslv1 of
                 Inl f \<Rightarrow> Inl f
               | Inr flat_model \<Rightarrow>
                   (let synth_model = synthesize_model env gslv1 flat_model;
                        gslv2 = (delete_model gslv1)\<lparr>forall_synth_model := Some synth_model\<rparr>
                    in Inr (Fall_through (Some synth_model) gslv2))))
      else Inr (Fall_through None gslv))"

definition find_model ::
  "quant_env \<Rightarrow> BzlaGroundSolvers \<Rightarrow> bool
     \<Rightarrow> failure + (BzlaSolverResult \<times> BzlaGroundSolvers)" where
  "find_model env gslv skip_exists =
     (case find_model_exists env gslv skip_exists of
        Inl f \<Rightarrow> Inl f
      | Inr (Goto_DONE res gslv') \<Rightarrow> Inr (res, gslv')
      | Inr (Fall_through synth_model gslv') \<Rightarrow>
          find_model_check env gslv' skip_exists synth_model)"

subsection \<open>The loop around find_model, and the choice of run_parallel\<close>

text \<open>
  The loop of \<open>sat_quant_solver\<close> without the dual solver. It runs until \<open>find_model\<close>
  answers something else than \<open>BZLA_RESULT_UNKNOWN\<close>, which may never happen: not
  returning is the value \<open>None\<close>.
\<close>

partial_function (option) sat_quant_solver_loop ::
  "quant_env \<Rightarrow> BzlaGroundSolvers \<Rightarrow> bool
     \<Rightarrow> (failure + (BzlaSolverResult \<times> BzlaGroundSolvers)) option" where
  "sat_quant_solver_loop env gslv skip_exists =
     (case find_model env gslv skip_exists of
        Inl f \<Rightarrow> Some (Inl f)
      | Inr (res, gslv') \<Rightarrow>
          if res \<noteq> BZLA_RESULT_UNKNOWN then Some (Inr (res, gslv'\<lparr>result := res\<rparr>))
          else sat_quant_solver_loop env gslv' False)"

text \<open>
  \<open>run_parallel\<close>: the two worker threads are the parameter \<open>threads\<close>, which gives the
  two bundles as they are once both \<^verbatim>\<open>pthread_join\<close> have returned; what follows the
  joins is sequential code.
\<close>

definition run_parallel ::
  "(BzlaGroundSolvers \<times> BzlaGroundSolvers \<Rightarrow> BzlaGroundSolvers \<times> BzlaGroundSolvers)
     \<Rightarrow> BzlaGroundSolvers \<Rightarrow> BzlaGroundSolvers \<Rightarrow> failure + BzlaSolverResult" where
  "run_parallel threads gslv0 dgslv0 =
     (let (gslv, dgslv) = threads (gslv0, dgslv0)
      in if result gslv \<noteq> BZLA_RESULT_UNKNOWN then Inr (result gslv)
         else if \<not> result dgslv \<noteq> BZLA_RESULT_UNKNOWN then Inl AssertionFailure
         else if result dgslv = BZLA_RESULT_SAT then Inr BZLA_RESULT_UNSAT
         else if \<not> result dgslv = BZLA_RESULT_UNSAT then Inl AssertionFailure
         else Inr BZLA_RESULT_SAT)"

subsection \<open>A concrete bundle\<close>

text \<open>
  The bundle of the formula \<open>\<exists>x. \<forall>y. x + y = y\<close> over 8 bits: one existential variable
  without universal dependencies, one universal variable. The environment scripts the
  ground solvers: a solver whose \<open>solver_internal\<close> is 0 answers Sat, 1 Unsat, anything
  else Unknown, and every model gives each node the value 0 of its width.
\<close>

definition s5_x :: BzlaNode where "s5_x = BzlaNode 2 BZLA_PARAM_EXISTS 8 [] False"
definition s5_x_exists :: BzlaNode where "s5_x_exists = BzlaNode 3 BZLA_OTHER 8 [] False"
definition s5_y :: BzlaNode where "s5_y = BzlaNode 4 BZLA_PARAM_FORALL 8 [] False"
definition s5_y_const :: BzlaNode where "s5_y_const = BzlaNode 5 BZLA_OTHER 8 [] False"
definition s5_formula :: BzlaNode where "s5_formula = BzlaNode 6 BZLA_OTHER 1 [] False"

definition s5_env :: quant_env where
  "s5_env =
     \<lparr>check_sat = (\<lambda>b. (if solver_internal b = 0 then BZLA_RESULT_SAT
                          else if solver_internal b = 1 then BZLA_RESULT_UNSAT
                          else BZLA_RESULT_UNKNOWN, b)),
      terminate = (\<lambda>b. True),
      model_get_bv = (\<lambda>b n. bzla_bv_new (node_width n)),
      model_get_fun = (\<lambda>b n. None),
      simplify_exp = (\<lambda>b n. n),
      node_is_proxy = (\<lambda>b n. False),
      exp_bv_const = (\<lambda>bv. BzlaNode 7 BZLA_BV_CONST (bzla_bv_width bv) [] False),
      exp_apply = (\<lambda>f a. BzlaNode 8 BZLA_OTHER (node_width f) [f, a] False),
      exp_args = (\<lambda>xs. BzlaNode 9 BZLA_ARGS 0 xs False),
      true_exp = BzlaNode 1 BZLA_OTHER 1 [] False,
      build_refinement = (\<lambda>b root m. BzlaNode 10 BZLA_OTHER 1 (map snd m) False),
      synthesize_model = (\<lambda>g fm. []),
      instantiate_formula = (\<lambda>g sm. (forall_formula g, map (\<lambda>(f, e). (f, f)) (forall_evars g))),
      synthesize_quant_inst = (\<lambda>g. (exists g, [])),
      opt_quant_synth_qi = 0\<rparr>"

definition s5_solver :: "nat \<Rightarrow> Bzla" where
  "s5_solver script =
     \<lparr>bzla_assertions = [], bzla_assumptions = [],
      last_sat_result = BZLA_RESULT_SAT, solver_internal = script\<rparr>"

definition s5_bundle ::
  "nat \<Rightarrow> nat \<Rightarrow> BzlaNodeMap
     \<Rightarrow> (BzlaBitVectorTuple \<times> BzlaBitVectorTuple option) list \<Rightarrow> BzlaGroundSolvers" where
  "s5_bundle e_script f_script uvars ces =
     \<lparr>forall = s5_solver f_script, forall_formula = s5_formula,
      forall_evars = [(s5_x, s5_x_exists)], forall_uvars = uvars,
      forall_evar_deps = [], forall_uvar_deps = [],
      forall_synth_model = None, forall_ces = ces, forall_last_ce = None,
      forall_skolem = [], exists = s5_solver e_script,
      exists_evars = [(s5_x_exists, s5_x)], exists_ufs = [], exists_cur_qi = [],
      result = BZLA_RESULT_UNKNOWN, refinements = 0\<rparr>"

text \<open>
  Two bundles of that formula after one round: the table of counter-examples holds
  the tuple of the value 1, or the tuple of the value 0, which is the value every
  model of the scripted F-solver gives.
\<close>

definition s5_fresh :: BzlaGroundSolvers where
  "s5_fresh =
     s5_bundle 0 0 [(s5_y, s5_y_const)]
       [([Some (BzlaBitVector 8 1)], Some [Some (BzlaBitVector 8 0)])]"

definition s5_stale :: BzlaGroundSolvers where
  "s5_stale =
     s5_bundle 0 0 [(s5_y, s5_y_const)]
       [([Some (BzlaBitVector 8 0)], Some [Some (BzlaBitVector 8 0)])]"
section \<open>Normalization pass (preprocess/pass/normalize.cpp)\<close>

subsection \<open>Bit-vector values\<close>

text \<open>
  Modelled from the spec: the class \<^verbatim>\<open>BitVector\<close> is not part of the sources at hand. A
  value is a width and an unsigned number below \<open>2 ^ width\<close>; arithmetic is modular.
\<close>

datatype BitVector = BitVector (bv_size: nat) (bv_uint: nat)

definition mk_zero :: "nat \<Rightarrow> BitVector" where
  "mk_zero n = BitVector n 0"

definition mk_one :: "nat \<Rightarrow> BitVector" where
  "mk_one n = BitVector n (1 mod 2 ^ n)"

definition is_zero :: "BitVector \<Rightarrow> bool" where
  "is_zero b = (bv_uint b = 0)"

definition is_one :: "BitVector \<Rightarrow> bool" where
  "is_one b = (bv_uint b = 1)"

definition is_ones :: "BitVector \<Rightarrow> bool" where
  "is_ones b = (bv_uint b = 2 ^ bv_size b - 1)"

definition ibvadd :: "BitVector \<Rightarrow> BitVector \<Rightarrow> BitVector" where
  "ibvadd a b = BitVector (bv_size a) ((bv_uint a + bv_uint b) mod 2 ^ bv_size a)"

definition bvneg :: "BitVector \<Rightarrow> BitVector" where
  "bvneg a = BitVector (bv_size a) ((2 ^ bv_size a - bv_uint a mod 2 ^ bv_size a) mod 2 ^ bv_size a)"

definition ibvsub :: "BitVector \<Rightarrow> BitVector \<Rightarrow> BitVector" where
  "ibvsub a b = ibvadd a (bvneg b)"

definition bvmul :: "BitVector \<Rightarrow> BitVector \<Rightarrow> BitVector" where
  "bvmul a b = BitVector (bv_size a) ((bv_uint a * bv_uint b) mod 2 ^ bv_size a)"

definition ibvinc :: "BitVector \<Rightarrow> BitVector" where
  "ibvinc a = ibvadd a (mk_one (bv_size a))"

definition ibvdec :: "BitVector \<Rightarrow> BitVector" where
  "ibvdec a = ibvsub a (mk_one (bv_size a))"

text \<open>\<^verbatim>\<open>a.compare(b)\<close>: unsigned comparison, negative, zero or positive.\<close>

definition compare :: "BitVector \<Rightarrow> BitVector \<Rightarrow> int" where
  "compare a b = (if bv_uint a < bv_uint b then - 1 else if bv_uint a = bv_uint b then 0 else 1)"

text \<open>\<^verbatim>\<open>to_uint64(true)\<close>: the low 64 bits.\<close>

definition to_uint64 :: "BitVector \<Rightarrow> nat" where
  "to_uint64 a = bv_uint a mod 2 ^ 64"

subsection \<open>Nodes\<close>

text \<open>
  Modelled from the spec: node/node.h and node/node_manager.h are not part of the
  sources at hand. Terms are hash-consed (two terms with the same kind, sort, children,
  indices and symbol are the same term), so a term is its structure and \<^verbatim>\<open>==\<close> on nodes
  is equality of terms. \<open>Node_null\<close> is the default-constructed \<^verbatim>\<open>Node()\<close>. The kinds are
  those the pass names, and the core and bit-vector kinds around them.
\<close>

datatype Kind =
  NULL_NODE | CONSTANT | VALUE | VARIABLE
| AND | OR | NOT | XOR | IMPLIES | DISTINCT | EQUAL | ITE | APPLY
| BV_ADD | BV_AND | BV_ASHR | BV_COMP | BV_CONCAT | BV_EXTRACT | BV_MUL | BV_NEG | BV_NOT
| BV_OR | BV_SHL | BV_SHR | BV_SLT | BV_SUB | BV_UDIV | BV_UGT | BV_ULT | BV_UREM | BV_XOR

datatype Type = Bool_type | Bv_type nat

datatype Node =
  Node_null
| Node_value BitVector
| Node_bool bool
| Node_const nat Type
| Node Kind "Node list" "nat list"

fun kind :: "Node \<Rightarrow> Kind" where
  "kind Node_null = NULL_NODE"
| "kind (Node_value b) = VALUE"
| "kind (Node_bool b) = VALUE"
| "kind (Node_const s t) = CONSTANT"
| "kind (Node k cs idx) = k"

fun node_children :: "Node \<Rightarrow> Node list" where
  "node_children (Node k cs idx) = cs"
| "node_children n = []"

text \<open>
  \<^verbatim>\<open>node[i]\<close>. The source reads children only of kinds whose arity covers the index; on a
  term built against the arity of its kind the model gives the null node.
\<close>

definition child :: "Node \<Rightarrow> nat \<Rightarrow> Node" where
  "child n i = (if i < length (node_children n) then node_children n ! i else Node_null)"

definition is_null :: "Node \<Rightarrow> bool" where
  "is_null n = (n = Node_null)"

definition is_value :: "Node \<Rightarrow> bool" where
  "is_value n = (kind n = VALUE)"

definition is_inverted :: "Node \<Rightarrow> bool" where
  "is_inverted n = (kind n = NOT \<or> kind n = BV_NOT)"

text \<open>\<^verbatim>\<open>node.value<BitVector>()\<close>; on anything but a bit-vector value the model gives width 0.\<close>

fun value_bv :: "Node \<Rightarrow> BitVector" where
  "value_bv (Node_value b) = b"
| "value_bv n = BitVector 0 0"

fun node_type :: "Node \<Rightarrow> Type" where
  "node_type Node_null = Bool_type"
| "node_type (Node_value b) = Bv_type (bv_size b)"
| "node_type (Node_bool b) = Bool_type"
| "node_type (Node_const s t) = t"
| "node_type (Node k cs idx) =
     (if k \<in> {AND, OR, NOT, XOR, IMPLIES, DISTINCT, EQUAL, BV_SLT, BV_UGT, BV_ULT} then Bool_type
      else if k = BV_COMP then Bv_type 1
      else if k = BV_EXTRACT then
        (case idx of [u, l] \<Rightarrow> Bv_type (u - l + 1) | _ \<Rightarrow> Bool_type)
      else if k = BV_CONCAT then
        (case cs of
           [a, b] \<Rightarrow>
             (case (node_type a, node_type b) of
                (Bv_type m, Bv_type n) \<Rightarrow> Bv_type (m + n)
              | _ \<Rightarrow> Bool_type)
         | _ \<Rightarrow> Bool_type)
      else if k = ITE then (case cs of [c, a, b] \<Rightarrow> node_type a | _ \<Rightarrow> Bool_type)
      else (case cs of a # rest \<Rightarrow> node_type a | [] \<Rightarrow> Bool_type))"

text \<open>\<^verbatim>\<open>node.type().bv_size()\<close>.\<close>

definition type_bv_size :: "Node \<Rightarrow> nat" where
  "type_bv_size n = (case node_type n of Bv_type w \<Rightarrow> w | Bool_type \<Rightarrow> 0)"

definition mk_node :: "Kind \<Rightarrow> Node list \<Rightarrow> Node" where
  "mk_node k cs = Node k cs []"

definition mk_value :: "BitVector \<Rightarrow> Node" where
  "mk_value b = Node_value b"

definition mk_value_bool :: "bool \<Rightarrow> Node" where
  "mk_value_bool b = Node_bool b"

text \<open>\<^verbatim>\<open>node::utils::rebuild_node\<close>: the same kind and indices over new children.\<close>

fun rebuild_node :: "Node \<Rightarrow> Node list \<Rightarrow> Node" where
  "rebuild_node (Node k cs idx) children = Node k children idx"
| "rebuild_node n children = n"

text \<open>\<^verbatim>\<open>node::utils::mk_nary\<close>: a left-leaning chain over a non-empty list of terms.\<close>

fun mk_nary :: "Kind \<Rightarrow> Node list \<Rightarrow> Node" where
  "mk_nary k [] = Node_null"
| "mk_nary k (t # ts) = foldl (\<lambda>res x. mk_node k [res, x]) t ts"

subsection \<open>rewrite_term, distrib_mul\<close>

definition rewrite_term :: "Node \<Rightarrow> Node list \<Rightarrow> Node" where
  "rewrite_term cur children =
     (let k = kind cur; c0 = children ! 0; c1 = children ! 1
      in if k = EQUAL then
           (let (mul, val) =
                  (if kind c0 = BV_MUL then (c0, c1)
                   else if kind c1 = BV_MUL then (c1, c0)
                   else (Node_null, Node_null))
            in if \<not> is_null val \<and> is_value val \<and> is_zero (value_bv val) then
                 (let (udiv, t) =
                        (if kind (child mul 0) = BV_UDIV then (child mul 0, child mul 1)
                         else if kind (child mul 1) = BV_UDIV then (child mul 1, child mul 0)
                         else (Node_null, Node_null))
                  in if \<not> is_null udiv \<and> child udiv 1 = t then
                       mk_node OR [mk_node EQUAL [t, val], mk_node BV_UGT [t, child udiv 0]]
                     else Node_null)
               else Node_null)
         else Node_null)"

text \<open>
  The depth is a \<^verbatim>\<open>uint8_t\<close>. \<^verbatim>\<open>depth && ...\<close> tests it against zero, and \<^verbatim>\<open>depth - 1\<close> is only
  computed when it is not zero.
\<close>

function distrib_mul :: "Node \<Rightarrow> Node \<Rightarrow> 8 word \<Rightarrow> Node" where
  "distrib_mul left right depth =
     (if depth \<noteq> 0 \<and> kind left = BV_SHL then
        mk_node BV_SHL [distrib_mul (child left 0) right (depth - 1), child left 1]
      else if depth \<noteq> 0 \<and> kind right = BV_SHL then
        mk_node BV_SHL [distrib_mul (child right 0) left (depth - 1), child right 1]
      else if depth \<noteq> 0 \<and> kind left = BV_ADD then
        mk_node BV_ADD [distrib_mul (child left 0) right (depth - 1),
                        distrib_mul (child left 1) right (depth - 1)]
      else if depth \<noteq> 0 \<and> kind right = BV_ADD then
        mk_node BV_ADD [distrib_mul (child right 0) left (depth - 1),
                        distrib_mul (child right 1) left (depth - 1)]
      else mk_node BV_MUL [left, right])"
  by pat_completeness auto
termination
  by (relation "measure (\<lambda>(left, right, depth). unat depth)") (auto simp: measure_unat)

text \<open>
  The same recursion with a bound on how deep the calls may nest, to state how deep
  the calls of \<open>distrib_mul\<close> nest: \<open>fuel\<close> is the number of nested recursive calls
  that are still allowed, and a call that needs one more has no result. The recursion
  is on \<open>fuel\<close>, not on the depth.
\<close>

fun distrib_mul_fuel :: "nat \<Rightarrow> Node \<Rightarrow> Node \<Rightarrow> 8 word \<Rightarrow> Node option" where
  "distrib_mul_fuel 0 left right depth =
     (if depth \<noteq> 0 \<and> kind left = BV_SHL then None
      else if depth \<noteq> 0 \<and> kind right = BV_SHL then None
      else if depth \<noteq> 0 \<and> kind left = BV_ADD then None
      else if depth \<noteq> 0 \<and> kind right = BV_ADD then None
      else Some (mk_node BV_MUL [left, right]))"
| "distrib_mul_fuel (Suc fuel) left right depth =
     (if depth \<noteq> 0 \<and> kind left = BV_SHL then
        (case distrib_mul_fuel fuel (child left 0) right (depth - 1) of
           None \<Rightarrow> None
         | Some t \<Rightarrow> Some (mk_node BV_SHL [t, child left 1]))
      else if depth \<noteq> 0 \<and> kind right = BV_SHL then
        (case distrib_mul_fuel fuel (child right 0) left (depth - 1) of
           None \<Rightarrow> None
         | Some t \<Rightarrow> Some (mk_node BV_SHL [t, child right 1]))
      else if depth \<noteq> 0 \<and> kind left = BV_ADD then
        (case distrib_mul_fuel fuel (child left 0) right (depth - 1) of
           None \<Rightarrow> None
         | Some t0 \<Rightarrow>
             (case distrib_mul_fuel fuel (child left 1) right (depth - 1) of
                None \<Rightarrow> None
              | Some t1 \<Rightarrow> Some (mk_node BV_ADD [t0, t1])))
      else if depth \<noteq> 0 \<and> kind right = BV_ADD then
        (case distrib_mul_fuel fuel (child right 0) left (depth - 1) of
           None \<Rightarrow> None
         | Some t0 \<Rightarrow>
             (case distrib_mul_fuel fuel (child right 1) left (depth - 1) of
                None \<Rightarrow> None
              | Some t1 \<Rightarrow> Some (mk_node BV_ADD [t0, t1])))
      else Some (mk_node BV_MUL [left, right]))"

declare distrib_mul.simps [simp del]
declare distrib_mul_fuel.simps [simp del]

subsection \<open>The pass object and what it takes from outside\<close>

type_synonym ParentsMap = "Node \<rightharpoonup> nat"

text \<open>
  \<^verbatim>\<open>CoefficientsMap\<close> is an ordered map from nodes to bit-vectors; nodes are ordered by
  their id. It is a list of entries in ascending id order, without two entries for one
  node.
\<close>

type_synonym CoefficientsMap = "(Node \<times> BitVector) list"

text \<open>
  The state of a \<^verbatim>\<open>PassNormalize\<close> object, and what it takes from classes that are not part
  of the sources at hand:
  \<^item> \<open>node_id\<close>: the id the node manager has given to a term (ids are unique, and a term
    made later has a larger id);
  \<^item> \<open>rewrite\<close>: \<^verbatim>\<open>d_rewriter.rewrite\<close>;
  \<^item> \<open>count_aig_ands\<close>: \<^verbatim>\<open>AigBitblaster::count_aig_ands\<close> with its cache of seen AIG nodes;
  \<^item> \<open>base_count_parents\<close>: \<^verbatim>\<open>PreprocessingPass::count_parents\<close>;
  \<^item> \<open>base_processed\<close>, \<open>base_cache_assertion\<close>: the cache of processed assertions of
    \<^verbatim>\<open>PreprocessingPass\<close>;
  \<^item> \<open>adders_results\<close>: the table \<open>results\<close> that \<open>normalize_adders\<close> computes from the
    chains that \<open>collect_adders\<close> gives it, which iterates over unordered maps, and
    \<open>substitute\<close>: \<^verbatim>\<open>PreprocessingPass::substitute\<close>.
\<close>

record norm_env =
  node_id_of :: "Node \<Rightarrow> nat"
  rewrite :: "Node \<Rightarrow> Node"
  count_aig_ands :: "Node \<Rightarrow> nat set \<Rightarrow> 64 word \<times> nat set"
  base_count_parents :: "Node \<Rightarrow> ParentsMap \<times> Node list \<Rightarrow> ParentsMap \<times> Node list"
  base_processed :: "Node list \<Rightarrow> Node \<Rightarrow> bool"
  base_cache_assertion :: "Node list \<Rightarrow> Node \<Rightarrow> Node list"
  adders_results :: "(Node \<times> (Node \<times> BitVector) list) list \<Rightarrow> (Node \<times> Node) list"
  substitute :: "Node \<Rightarrow> (Node \<times> Node) list \<Rightarrow> Node"

record PassNormalize =
  d_share_aware :: bool
  d_parents :: ParentsMap
  d_parents_cache :: "Node list"
  d_cache :: "Node \<rightharpoonup> Node"
  d_processed_assertions :: "Node list"
  num_normalizations :: "64 word"

subsection \<open>Parent counts\<close>

text \<open>\<^verbatim>\<open>parents[n] += 1\<close>, where a missing entry starts at 0.\<close>

definition parents_inc :: "Node \<Rightarrow> ParentsMap \<Rightarrow> ParentsMap" where
  "parents_inc n parents = parents(n \<mapsto> (case parents n of None \<Rightarrow> 1 | Some c \<Rightarrow> c + 1))"

text \<open>The weight that makes the traversals below terminate: a term weighs more than
  all its children together.\<close>

definition node_weight :: "Node \<Rightarrow> nat" where
  "node_weight n = Suc (size n)"

text \<open>
  The \<^verbatim>\<open>do ... while\<close> loop of \<open>_count_parents\<close>. The head of \<open>visit\<close> is \<^verbatim>\<open>visit.back()\<close>;
  appending the children to the vector puts the last child on top.
\<close>

function count_parents_visit ::
  "Kind \<Rightarrow> Node list \<Rightarrow> Node list \<Rightarrow> ParentsMap \<Rightarrow> Node list \<times> ParentsMap" where
  "count_parents_visit k [] cache parents = (cache, parents)"
| "count_parents_visit k (cur # visit) cache parents =
     (if cur \<notin> set cache
         \<and> (kind cur = k \<or> (k = BV_ADD \<and> is_inverted cur \<and> kind (child cur 0) = k))
      then count_parents_visit k (rev (node_children cur) @ visit) (cur # cache)
             (fold parents_inc (node_children cur) parents)
      else count_parents_visit k visit (List.insert cur cache) parents)"
  by pat_completeness auto

termination
proof (relation "measure (\<lambda>(k, visit, cache, parents). sum_list (map node_weight visit))")
  have w: "sum_list (map node_weight xs) = sum_list (map size xs) + length xs" for xs
    by (induction xs) (simp_all add: node_weight_def)
  have c: "sum_list (map node_weight (node_children n)) < node_weight n" for n
    unfolding w by (cases n) (simp_all add: node_weight_def size_list_conv_sum_list)
  show "wf (measure (\<lambda>(k, visit, cache, parents). sum_list (map node_weight visit)))"
    by simp
  show "((k, rev (node_children cur) @ visit, cur # cache,
          fold parents_inc (node_children cur) parents),
         k, cur # visit, cache, parents)
        \<in> measure (\<lambda>(k, visit, cache, parents). sum_list (map node_weight visit))"
    for k cur visit cache parents
    using c [of cur] by (simp add: rev_map [symmetric])
  show "((k, visit, List.insert cur cache, parents), k, cur # visit, cache, parents)
        \<in> measure (\<lambda>(k, visit, cache, parents). sum_list (map node_weight visit))"
    for k cur visit cache parents
    by (simp add: node_weight_def)
qed

declare count_parents_visit.simps [simp del]

text \<open>\<open>_count_parents\<close>: one cache of visited nodes is shared by all start nodes.\<close>

definition count_parents_chain :: "Node list \<Rightarrow> Kind \<Rightarrow> ParentsMap \<Rightarrow> ParentsMap" where
  "count_parents_chain nodes k parents =
     snd (fold (\<lambda>n (cache, ps). count_parents_visit k [n] cache (parents_inc n ps))
            nodes ([], parents))"

definition is_leaf :: "Kind \<Rightarrow> Node \<Rightarrow> ParentsMap \<Rightarrow> ParentsMap \<Rightarrow> bool" where
  "is_leaf k node parents parents_in_chain =
     (if kind node \<noteq> k then True
      else (case parents node of
              None \<Rightarrow> False
            | Some p \<Rightarrow>
                (case parents_in_chain node of
                   None \<Rightarrow> False
                 | Some pp \<Rightarrow> pp < p)))"

subsection \<open>Coefficient maps\<close>

text \<open>\<^verbatim>\<open>coeffs.emplace(k, v)\<close>: nothing happens when the key is there already.\<close>

definition cm_emplace :: "norm_env \<Rightarrow> CoefficientsMap \<Rightarrow> Node \<Rightarrow> BitVector \<Rightarrow> CoefficientsMap" where
  "cm_emplace env coeffs k v =
     (if map_of coeffs k \<noteq> None then coeffs
      else insort_key (\<lambda>e. node_id_of env (fst e)) (k, v) coeffs)"

text \<open>Assignment through an iterator or a reference to the entry of \<open>k\<close>.\<close>

definition cm_assign :: "CoefficientsMap \<Rightarrow> Node \<Rightarrow> BitVector \<Rightarrow> CoefficientsMap" where
  "cm_assign coeffs k v = map (\<lambda>(k', v'). if k' = k then (k', v) else (k', v')) coeffs"

text \<open>
  The recurring pattern \<^verbatim>\<open>auto [it, inserted] = coeffs.emplace(k, v); if (!inserted)
  it->second.ibvadd(v);\<close>
\<close>

definition cm_add :: "norm_env \<Rightarrow> CoefficientsMap \<Rightarrow> Node \<Rightarrow> BitVector \<Rightarrow> CoefficientsMap" where
  "cm_add env coeffs k v =
     (case map_of coeffs k of
        None \<Rightarrow> cm_emplace env coeffs k v
      | Some old \<Rightarrow> cm_assign coeffs k (ibvadd old v))"

text \<open>
  The recurring pattern that adds the value node \<open>val\<close> with coefficient one, or
  increments its coefficient when it is there.
\<close>

definition cm_add_one :: "norm_env \<Rightarrow> CoefficientsMap \<Rightarrow> Node \<Rightarrow> nat \<Rightarrow> CoefficientsMap" where
  "cm_add_one env coeffs val w =
     (case map_of coeffs val of
        None \<Rightarrow> cm_emplace env coeffs val (mk_one w)
      | Some old \<Rightarrow> cm_assign coeffs val (ibvinc old))"

subsection \<open>compute_coefficients\<close>

text \<open>
  No result (\<open>None\<close>) stands, here and below, for a run that stops in a violated
  assertion of the source.

  First loop of \<open>compute_coefficients\<close>: the nodes reached from the top of the chain, in
  the order they are met (the keys of \<open>cfs\<close>), and those among them that are
  intermediate nodes.
\<close>

function cc_visit ::
  "PassNormalize \<Rightarrow> Kind \<Rightarrow> ParentsMap \<Rightarrow> Node list \<Rightarrow> Node list \<Rightarrow> Node list
     \<Rightarrow> (Node list \<times> Node list) option" where
  "cc_visit this k parents [] nodes intermediate = Some (nodes, intermediate)"
| "cc_visit this k parents (cur # visit) nodes intermediate =
     (if cur \<in> set nodes then cc_visit this k parents visit nodes intermediate
      else if kind cur = k then
        (if d_share_aware this \<and> parents cur = None then None
         else if d_share_aware this \<and> is_leaf k cur (d_parents this) parents then
           cc_visit this k parents visit (nodes @ [cur]) intermediate
         else cc_visit this k parents (rev (node_children cur) @ visit) (nodes @ [cur])
                (cur # intermediate))
      else cc_visit this k parents visit (nodes @ [cur]) intermediate)"
  by pat_completeness auto
termination
proof (relation "measure (\<lambda>(this, k, parents, visit, nodes, intermediate).
                            sum_list (map node_weight visit))")
  have w: "sum_list (map node_weight xs) = sum_list (map size xs) + length xs" for xs
    by (induction xs) (simp_all add: node_weight_def)
  have c: "sum_list (map node_weight (node_children n)) < node_weight n" for n
    unfolding w by (cases n) (simp_all add: node_weight_def size_list_conv_sum_list)
  show "wf (measure (\<lambda>(this, k, parents, visit, nodes, intermediate).
                       sum_list (map node_weight visit)))"
    by simp
  show "((this, k, parents, rev (node_children cur) @ visit, nodes @ [cur],
          cur # intermediate),
         this, k, parents, cur # visit, nodes, intermediate)
        \<in> measure (\<lambda>(this, k, parents, visit, nodes, intermediate).
                      sum_list (map node_weight visit))"
    for this k parents cur visit nodes intermediate
    using c [of cur] by (simp add: rev_map [symmetric])
qed (simp_all add: node_weight_def)

declare cc_visit.simps [simp del]

text \<open>
  Second loop: the nodes from the highest id down; an intermediate node pushes its
  coefficient to its children, a leaf adds its coefficient to \<open>coeffs\<close>.
\<close>

fun cc_push ::
  "norm_env \<Rightarrow> Node list \<Rightarrow> Node list \<Rightarrow> (Node \<Rightarrow> BitVector) \<Rightarrow> CoefficientsMap
     \<Rightarrow> CoefficientsMap" where
  "cc_push env intermediate [] cfs coeffs = coeffs"
| "cc_push env intermediate (cur # rest) cfs coeffs =
     (if cur \<in> set intermediate then
        cc_push env intermediate rest
          (fold (\<lambda>ch c. c(ch := ibvadd (c ch) (cfs cur))) (node_children cur) cfs) coeffs
      else cc_push env intermediate rest cfs (cm_add env coeffs cur (cfs cur)))"

definition compute_coefficients ::
  "norm_env \<Rightarrow> PassNormalize \<Rightarrow> Node \<Rightarrow> Kind \<Rightarrow> ParentsMap \<Rightarrow> CoefficientsMap
     \<Rightarrow> CoefficientsMap option" where
  "compute_coefficients env this node k parents coeffs =
     (let zero = mk_zero (type_bv_size node)
      in case cc_visit this k parents [node] [] [] of
           None \<Rightarrow> None
         | Some (nodes, intermediate) \<Rightarrow>
             (let sorted = sort_key (node_id_of env) nodes
              in if last sorted \<noteq> node then None
                 else Some (cc_push env intermediate (rev sorted)
                              ((\<lambda>n. zero)(node := ibvinc zero)) coeffs)))"

subsection \<open>compute_common_coefficients, mk_node, remove_zero_coeffs\<close>

text \<open>
  The loop over the entries of \<open>lhs\<close>. It gives back \<open>lhs\<close> and \<open>rhs\<close> after the
  subtraction, and the common coefficients.
\<close>

fun compute_common_coefficients ::
  "CoefficientsMap \<Rightarrow> CoefficientsMap
     \<Rightarrow> CoefficientsMap \<times> CoefficientsMap \<times> CoefficientsMap" where
  "compute_common_coefficients [] rhs = ([], rhs, [])"
| "compute_common_coefficients ((n, c0) # lhs) rhs =
     (case map_of rhs n of
        None \<Rightarrow>
          (let (lhs', rhs', common) = compute_common_coefficients lhs rhs
           in ((n, c0) # lhs', rhs', common))
      | Some c1 \<Rightarrow>
          (let occs = (if compare c0 c1 \<le> 0 then c0 else c1)
           in if is_zero occs then
                (let (lhs', rhs', common) = compute_common_coefficients lhs rhs
                 in ((n, c0) # lhs', rhs', common))
              else
                (let (lhs', rhs', common) =
                       compute_common_coefficients lhs (cm_assign rhs n (ibvsub c1 occs))
                 in ((n, ibvsub c0 occs) # lhs', rhs', (n, occs) # common))))"

text \<open>\<open>mk_node\<close>, the sum of a coefficient map: \<open>coeff * node\<close>, or \<open>node\<close> for coefficient one.\<close>

definition mk_summand :: "Node \<Rightarrow> BitVector \<Rightarrow> Node" where
  "mk_summand node coeff =
     (if is_one coeff then node else mk_node BV_MUL [mk_value coeff, node])"

text \<open>
  \<open>mk_node\<close>, the product of a coefficient map. The \<^verbatim>\<open>for\<close> loop inside the \<^verbatim>\<open>while\<close>: the
  entry at \<open>i - 1\<close> is \<open>(p, c)\<close>, with its node already updated, the rest starts at \<open>i\<close>.
\<close>

fun mk_node_mul_pass ::
  "Node \<times> BitVector \<Rightarrow> (Node \<times> BitVector) list \<Rightarrow> (Node \<times> BitVector) list option" where
  "mk_node_mul_pass (p, c) [] = Some [(p, c)]"
| "mk_node_mul_pass (p, c) ((q, occs) # rest) =
     (if \<not> compare c occs \<ge> 0 then None
      else (case mk_node_mul_pass (mk_node BV_MUL [p, q], occs) rest of
              None \<Rightarrow> None
            | Some rest' \<Rightarrow> Some ((p, ibvsub c occs) # rest')))"

text \<open>\<^verbatim>\<open>while (coeffs_vec.back().second.is_zero()) coeffs_vec.pop_back();\<close> on the reversed
  vector. Reading the back of an empty vector has no result.\<close>

fun pop_zero_coeffs :: "(Node \<times> BitVector) list \<Rightarrow> (Node \<times> BitVector) list option" where
  "pop_zero_coeffs [] = None"
| "pop_zero_coeffs ((n, c) # rest) =
     (if is_zero c then pop_zero_coeffs rest else Some ((n, c) # rest))"

text \<open>
  The \<^verbatim>\<open>while\<close> loop. \<^verbatim>\<open>std::sort\<close> by descending coefficient leaves the order of entries
  with equal coefficients open; the model keeps their order. A loop that does not end
  has no result either.
\<close>

partial_function (option) mk_node_mul_loop ::
  "(Node \<times> BitVector) list \<Rightarrow> (Node \<times> BitVector) list option" where
  "mk_node_mul_loop coeffs_vec =
     (if length coeffs_vec > 1 then
        (case pop_zero_coeffs (rev (sort_key (\<lambda>e. - int (bv_uint (snd e))) coeffs_vec)) of
           None \<Rightarrow> None
         | Some popped \<Rightarrow>
             (case rev popped of
                [] \<Rightarrow> None
              | e # rest \<Rightarrow>
                  (case mk_node_mul_pass e rest of
                     None \<Rightarrow> None
                   | Some vec' \<Rightarrow> mk_node_mul_loop vec')))
      else Some coeffs_vec)"

definition mk_node_coeffs :: "norm_env \<Rightarrow> Kind \<Rightarrow> CoefficientsMap \<Rightarrow> Node option" where
  "mk_node_coeffs env k coeffs =
     (if \<not> (k = BV_ADD \<or> k = BV_MUL) then None
      else if coeffs = [] then Some Node_null
      else
        (let coeffs_vec = sort_key (\<lambda>e. node_id_of env (fst e)) coeffs
         in if k = BV_ADD then
              (case coeffs_vec of
                 [] \<Rightarrow> None
               | (node, coeff) # rest \<Rightarrow>
                   if is_zero coeff then None
                   else Some (foldl (\<lambda>res (node, coeff). mk_node BV_ADD [res, mk_summand node coeff])
                                (mk_summand node coeff) rest))
            else
              (case mk_node_mul_loop coeffs_vec of
                 None \<Rightarrow> None
               | Some vec \<Rightarrow>
                   (case rev vec of
                      [] \<Rightarrow> None
                    | (node, cf) # rest \<Rightarrow>
                        if \<not> bv_uint cf < 2 ^ 64 then None
                        else Some (((\<lambda>res. mk_node k [res, node]) ^^ (to_uint64 cf - 1)) node)))))"

definition remove_zero_coeffs :: "CoefficientsMap \<Rightarrow> CoefficientsMap" where
  "remove_zero_coeffs coeffs = filter (\<lambda>(n, c). \<not> is_zero c) coeffs"

subsection \<open>normalize_mul, normalize_add\<close>

text \<open>The loop of \<open>normalize_mul\<close> over the entries: values are folded into \<open>value\<close>.\<close>

fun normalize_mul_loop ::
  "BitVector \<Rightarrow> CoefficientsMap \<Rightarrow> BitVector \<Rightarrow> (CoefficientsMap \<times> BitVector) option" where
  "normalize_mul_loop bvzero [] val = Some ([], val)"
| "normalize_mul_loop bvzero ((cur, c) # rest) val =
     (if is_value cur then
        (if \<not> bv_uint c < 2 ^ 64 then None
         else (case normalize_mul_loop bvzero rest
                      (((\<lambda>v. bvmul v (value_bv cur)) ^^ to_uint64 c) val) of
                 None \<Rightarrow> None
               | Some (rest', val') \<Rightarrow> Some ((cur, bvzero) # rest', val')))
      else (case normalize_mul_loop bvzero rest val of
              None \<Rightarrow> None
            | Some (rest', val') \<Rightarrow> Some ((cur, c) # rest', val')))"

definition normalize_mul ::
  "norm_env \<Rightarrow> Node \<Rightarrow> CoefficientsMap \<Rightarrow> bool \<Rightarrow> (BitVector \<times> CoefficientsMap) option" where
  "normalize_mul env node coeffs keep_value =
     (if kind node \<noteq> BV_MUL then None
      else
        (let w = type_bv_size node
         in case normalize_mul_loop (mk_zero w) coeffs (mk_one w) of
              None \<Rightarrow> None
            | Some (coeffs', val) \<Rightarrow>
                if keep_value \<and> \<not> is_one val
                then Some (val, cm_add_one env coeffs' (mk_value val) (bv_size val))
                else Some (val, coeffs')))"

text \<open>
  One run of the \<^verbatim>\<open>for\<close> loop of \<open>normalize_add\<close>, from the highest id down, over the keys
  that the map has when the loop starts (an entry is only added right before the
  \<^verbatim>\<open>break\<close>). The state is the map, \<open>value\<close>, the debug \<open>cache\<close> and \<open>parents\<close>, which
  \<^verbatim>\<open>parents[cur[0]]\<close> extends by a zero entry when the node has none. The result says
  whether the loop was left with \<open>progress\<close> set.
\<close>

type_synonym normalize_add_state = "CoefficientsMap \<times> BitVector \<times> Node list \<times> ParentsMap"

fun normalize_add_pass ::
  "norm_env \<Rightarrow> PassNormalize \<Rightarrow> bool \<Rightarrow> BitVector \<Rightarrow> Node list \<Rightarrow> normalize_add_state
     \<Rightarrow> (bool \<times> normalize_add_state) option" where
  "normalize_add_pass env this push_neg bvzero [] st = Some (False, st)"
| "normalize_add_pass env this push_neg bvzero (cur # rest) (coeffs, val, cache, parents) =
     (case map_of coeffs cur of
        None \<Rightarrow> None
      | Some cur_coeff \<Rightarrow>
          if is_zero cur_coeff then
            normalize_add_pass env this push_neg bvzero rest (coeffs, val, cache, parents)
          else if is_value cur then
            normalize_add_pass env this push_neg bvzero rest
              (cm_assign coeffs cur bvzero, ibvadd val (bvmul (value_bv cur) cur_coeff),
               cache, parents)
          else
            (let asked = (push_neg \<and> is_inverted cur \<and> kind (child cur 0) = BV_ADD);
                 parents' = (if asked \<and> parents (child cur 0) = None
                             then parents(child cur 0 \<mapsto> 0) else parents)
             in if asked \<and> (case parents' (child cur 0) of Some p \<Rightarrow> p \<le> 1 | None \<Rightarrow> False)
                then
                  (if cur \<in> set cache then None
                   else
                     (let coeff = bvneg cur_coeff
                      in case compute_coefficients env this (child cur 0) (kind (child cur 0))
                                parents' [] of
                           None \<Rightarrow> None
                         | Some cfs \<Rightarrow>
                             (let (coeffs', val') =
                                    fold (\<lambda>(c, cf) (cs, v).
                                            let cf' = bvmul cf coeff
                                            in if is_value c
                                               then (cs, ibvadd v (bvmul (value_bv c) cf'))
                                               else (cm_add env cs c cf', v))
                                      cfs (cm_assign coeffs cur bvzero, val)
                              in Some (True, (coeffs', ibvadd val' coeff, cur # cache, parents')))))
                else if is_inverted cur then
                  (case map_of coeffs (child cur 0) of
                     Some c0 \<Rightarrow>
                       normalize_add_pass env this push_neg bvzero rest
                         (cm_assign (cm_assign coeffs (child cur 0) (ibvsub c0 cur_coeff))
                            cur bvzero,
                          ibvadd val (bvneg cur_coeff), cache, parents')
                   | None \<Rightarrow>
                       normalize_add_pass env this push_neg bvzero rest
                         (coeffs, val, cache, parents'))
                else normalize_add_pass env this push_neg bvzero rest
                       (coeffs, val, cache, parents')))"

text \<open>The \<^verbatim>\<open>do ... while (progress)\<close> loop; a loop that does not end has no result.\<close>

partial_function (option) normalize_add_loop ::
  "norm_env \<Rightarrow> PassNormalize \<Rightarrow> bool \<Rightarrow> BitVector \<Rightarrow> normalize_add_state
     \<Rightarrow> normalize_add_state option" where
  "normalize_add_loop env this push_neg bvzero st =
     (case normalize_add_pass env this push_neg bvzero (rev (map fst (fst st))) st of
        None \<Rightarrow> None
      | Some (progress, st') \<Rightarrow>
          if progress then normalize_add_loop env this push_neg bvzero st' else Some st')"

definition normalize_add ::
  "norm_env \<Rightarrow> PassNormalize \<Rightarrow> Node \<Rightarrow> CoefficientsMap \<Rightarrow> ParentsMap \<Rightarrow> bool \<Rightarrow> bool
     \<Rightarrow> (BitVector \<times> CoefficientsMap \<times> ParentsMap) option" where
  "normalize_add env this node coeffs parents keep_value push_neg =
     (if kind node \<noteq> BV_ADD then None
      else
        (let bvzero = mk_zero (type_bv_size node)
         in case normalize_add_loop env this push_neg bvzero (coeffs, bvzero, [], parents) of
              None \<Rightarrow> None
            | Some (coeffs', val, cache, parents') \<Rightarrow>
                if keep_value \<and> \<not> is_zero val
                then Some (val, cm_add_one env coeffs' (mk_value val) (bv_size val), parents')
                else Some (val, coeffs', parents')))"

subsection \<open>Equalities over two chains of one kind\<close>

text \<open>
  The loop of \<open>normalize_coefficients_eq_add\<close> over the entries of \<open>coeffs0\<close>; it gives
  back \<open>coeffs0\<close>, \<open>coeffs1\<close> and \<open>value\<close>.
\<close>

fun normalize_coefficients_eq_add ::
  "norm_env \<Rightarrow> Node \<Rightarrow> BitVector \<Rightarrow> CoefficientsMap \<Rightarrow> CoefficientsMap \<Rightarrow> BitVector
     \<Rightarrow> (CoefficientsMap \<times> CoefficientsMap \<times> BitVector) option" where
  "normalize_coefficients_eq_add env one bvzero [] coeffs1 val = Some ([], coeffs1, val)"
| "normalize_coefficients_eq_add env one bvzero ((cur, coeff) # rest) coeffs1 val =
     (if \<not> (\<not> is_value cur \<or> is_zero coeff) then None
      else if is_zero coeff \<or> \<not> is_inverted cur then
        (case normalize_coefficients_eq_add env one bvzero rest coeffs1 val of
           None \<Rightarrow> None
         | Some (rest', coeffs1', val') \<Rightarrow> Some ((cur, coeff) # rest', coeffs1', val'))
      else
        (let (neg, val1, second) =
               (if kind (child cur 0) = BV_ADD then
                  (if child (child cur 0) 0 = one then
                     (child (child cur 0) 1, ibvsub val coeff, bvzero)
                   else if child (child cur 0) 1 = one then
                     (child (child cur 0) 0, ibvsub val coeff, bvzero)
                   else (Node_null, val, coeff))
                else (child cur 0, val, bvzero));
             (coeffs1', val2) =
               (if \<not> is_null neg then
                  (if is_value neg
                   then (coeffs1, ibvsub (ibvsub val1 (bvmul (value_bv neg) coeff)) coeff)
                   else (cm_add env coeffs1 neg coeff, ibvsub val1 coeff))
                else (coeffs1, val1))
         in case normalize_coefficients_eq_add env one bvzero rest coeffs1' val2 of
              None \<Rightarrow> None
            | Some (rest', coeffs1'', val') \<Rightarrow> Some ((cur, second) # rest', coeffs1'', val')))"

text \<open>
  \<^verbatim>\<open>coeffs.emplace(val, one)\<close>, or, for an entry that is there, the assertion that its
  coefficient is zero and \<^verbatim>\<open>ibvinc\<close>.
\<close>

definition cm_add_value :: "norm_env \<Rightarrow> CoefficientsMap \<Rightarrow> BitVector \<Rightarrow> CoefficientsMap option" where
  "cm_add_value env coeffs val =
     (case map_of coeffs (mk_value val) of
        None \<Rightarrow> Some (cm_emplace env coeffs (mk_value val) (mk_one (bv_size val)))
      | Some old \<Rightarrow>
          if \<not> is_zero old then None else Some (cm_assign coeffs (mk_value val) (ibvinc old)))"

text \<open>
  \<open>normalize_coefficients_eq\<close>. It calls \<open>normalize_add\<close> and \<open>normalize_mul\<close> without
  \<open>keep_value\<close> and \<open>push_neg\<close>: the header gives both the default \<^verbatim>\<open>false\<close>, as the code
  after the calls, which adds the value itself, needs.
\<close>

definition normalize_coefficients_eq ::
  "norm_env \<Rightarrow> PassNormalize \<Rightarrow> Node \<Rightarrow> Node \<Rightarrow> (CoefficientsMap \<times> CoefficientsMap) option" where
  "normalize_coefficients_eq env this node0 node1 =
     (if kind node0 \<noteq> kind node1 \<or> \<not> (kind node0 = BV_ADD \<or> kind node0 = BV_MUL) then None
      else do {
        let k = kind node0;
        let parents = (if d_share_aware this then count_parents_chain [node0, node1] k Map.empty
                       else Map.empty);
        coeffs0 \<leftarrow> compute_coefficients env this node0 (kind node0) parents [];
        coeffs1 \<leftarrow> compute_coefficients env this node1 (kind node1) parents [];
        (coeffs0, coeffs1) \<leftarrow>
          (if k = BV_ADD then do {
             (value0, coeffs0, parents) \<leftarrow> normalize_add env this node0 coeffs0 parents False False;
             (value1, coeffs1, parents) \<leftarrow> normalize_add env this node1 coeffs1 parents False False;
             let one = mk_value (mk_one (bv_size value0));
             (coeffs0, coeffs1, value0) \<leftarrow>
               normalize_coefficients_eq_add env one (mk_zero (bv_size value0))
                 coeffs0 coeffs1 value0;
             let one = mk_value (mk_one (bv_size value1));
             (coeffs1, coeffs0, value1) \<leftarrow>
               normalize_coefficients_eq_add env one (mk_zero (bv_size value1))
                 coeffs1 coeffs0 value1;
             let value0 = ibvsub value0 value1;
             coeffs0 \<leftarrow> (if \<not> is_zero value0 then cm_add_value env coeffs0 value0
                          else Some coeffs0);
             Some (coeffs0, coeffs1)
           } else do {
             (value0, coeffs0) \<leftarrow> normalize_mul env node0 coeffs0 False;
             (value1, coeffs1) \<leftarrow> normalize_mul env node1 coeffs1 False;
             coeffs0 \<leftarrow> (if \<not> is_one value0 then cm_add_value env coeffs0 value0
                          else Some coeffs0);
             coeffs1 \<leftarrow> (if \<not> is_one value1 then cm_add_value env coeffs1 value1
                          else Some coeffs1);
             Some (coeffs0, coeffs1)
           });
        let (coeffs0, coeffs1, common_coeffs) = compute_common_coefficients coeffs0 coeffs1;
        common \<leftarrow> mk_node_coeffs env k common_coeffs;
        if k = BV_MUL \<and> \<not> is_null common then
          Some (cm_add_one env coeffs0 common (type_bv_size node0),
                cm_add_one env coeffs1 common (type_bv_size node0))
        else Some (coeffs0, coeffs1)
      })"

text \<open>\<open>_normalize_eq_mul\<close>: each node as often as its coefficient says, sorted by id, and
  multiplied from the right.\<close>

fun expand_mul :: "CoefficientsMap \<Rightarrow> Node list option" where
  "expand_mul [] = Some []"
| "expand_mul ((n, c) # rest) =
     (if is_zero c then expand_mul rest
      else if \<not> bv_uint c < 2 ^ 64 then None
      else (case expand_mul rest of
              None \<Rightarrow> None
            | Some ns \<Rightarrow> Some (replicate (to_uint64 c) n @ ns)))"

text \<open>The chain \<open>lhs[0] * (lhs[1] * (... * lhs[n - 1]))\<close> of a non-empty vector.\<close>

definition mul_chain :: "Node list \<Rightarrow> Node" where
  "mul_chain ns = foldr (\<lambda>n acc. mk_node BV_MUL [n, acc]) (butlast ns) (last ns)"

definition normalize_eq_mul' ::
  "norm_env \<Rightarrow> CoefficientsMap \<Rightarrow> CoefficientsMap \<Rightarrow> (Node \<times> Node) option" where
  "normalize_eq_mul' env coeffs0 coeffs1 =
     (if coeffs0 = [] \<or> coeffs1 = [] then None
      else do {
        lhs \<leftarrow> expand_mul coeffs0;
        rhs \<leftarrow> expand_mul coeffs1;
        let lhs = (if lhs = [] then [mk_value (mk_one (type_bv_size (fst (hd coeffs0))))]
                   else lhs);
        let rhs = (if rhs = [] then [mk_value (mk_one (type_bv_size (fst (hd coeffs1))))]
                   else rhs);
        let lhs = sort_key (node_id_of env) lhs;
        let rhs = sort_key (node_id_of env) rhs;
        Some (mul_chain lhs, mul_chain rhs)
      })"

definition get_factorized_add :: "Node \<Rightarrow> BitVector \<Rightarrow> Node option" where
  "get_factorized_add node coeff =
     (if is_null node \<or> is_zero coeff then None
      else if is_one coeff then Some node
      else if is_ones coeff then Some (mk_node BV_NEG [node])
      else Some (mk_node BV_MUL [mk_value coeff, node]))"

text \<open>The two loops of \<open>_normalize_eq_add\<close>.\<close>

fun eq_add_lhs :: "CoefficientsMap \<Rightarrow> BitVector \<Rightarrow> (Node list \<times> BitVector) option" where
  "eq_add_lhs [] lvalue = Some ([], lvalue)"
| "eq_add_lhs ((cur, coeff) # rest) lvalue =
     (if is_zero coeff then eq_add_lhs rest lvalue
      else if is_value cur then
        (if \<not> is_one coeff then None else eq_add_lhs rest (ibvadd lvalue (value_bv cur)))
      else (case get_factorized_add cur coeff of
              None \<Rightarrow> None
            | Some t \<Rightarrow>
                (case eq_add_lhs rest lvalue of
                   None \<Rightarrow> None
                 | Some (ts, lvalue') \<Rightarrow> Some (t # ts, lvalue'))))"

fun eq_add_rhs :: "CoefficientsMap \<Rightarrow> Node list option" where
  "eq_add_rhs [] = Some []"
| "eq_add_rhs ((cur, coeff) # rest) =
     (if is_zero coeff then eq_add_rhs rest
      else if is_value cur then None
      else (case get_factorized_add cur coeff of
              None \<Rightarrow> None
            | Some t \<Rightarrow> (case eq_add_rhs rest of None \<Rightarrow> None | Some ts \<Rightarrow> Some (t # ts))))"

definition normalize_eq_add' ::
  "norm_env \<Rightarrow> CoefficientsMap \<Rightarrow> CoefficientsMap \<Rightarrow> nat \<Rightarrow> (Node \<times> Node) option" where
  "normalize_eq_add' env coeffs0 coeffs1 w =
     do {
       let rvalue = mk_zero w;
       (lhs, lvalue) \<leftarrow> eq_add_lhs coeffs0 (mk_zero w);
       rhs \<leftarrow> eq_add_rhs coeffs1;
       let (lhs, rhs) =
             (if \<not> is_zero lvalue then
                (let lvalue = ibvsub lvalue rvalue
                 in if \<not> is_zero lvalue then (lhs @ [mk_value lvalue], rhs) else (lhs, rhs))
              else if \<not> is_zero rvalue then (lhs, rhs @ [mk_value rvalue])
              else (lhs, rhs));
       let lhs = sort_key (node_id_of env) lhs;
       let rhs = sort_key (node_id_of env) rhs;
       let left = (if lhs = [] then mk_value (mk_zero w) else mk_nary BV_ADD lhs);
       let right = (if rhs = [] then mk_value (mk_zero w) else mk_nary BV_ADD rhs);
       Some (left, right)
     }"

definition normalize_eq_add_mul ::
  "norm_env \<Rightarrow> PassNormalize \<Rightarrow> Node \<Rightarrow> Node \<Rightarrow> (Node \<times> bool) option" where
  "normalize_eq_add_mul env this node0 node1 =
     (if kind node0 \<noteq> kind node1 \<or> \<not> (kind node0 = BV_MUL \<or> kind node0 = BV_ADD) then None
      else do {
        (coeffs0, coeffs1) \<leftarrow> normalize_coefficients_eq env this node0 node1;
        (left, right) \<leftarrow>
          (if coeffs0 = [] \<or> coeffs1 = [] then None
           else if kind node0 = BV_ADD
           then normalize_eq_add' env coeffs0 coeffs1 (type_bv_size node0)
           else normalize_eq_mul' env coeffs0 coeffs1);
        if left = right then Some (mk_value_bool True, True)
        else if left = node0 \<and> right = node1 then Some (mk_node EQUAL [node0, node1], False)
        else Some (mk_node EQUAL [left, right], True)
      })"

subsection \<open>Equalities and comparisons over chains: normalize_common, normalize_comm_assoc\<close>

text \<open>\<open>normalize_common\<close> gives back the two sides and the two maps, which it changes.\<close>

definition normalize_common ::
  "norm_env \<Rightarrow> Kind \<Rightarrow> CoefficientsMap \<Rightarrow> CoefficientsMap
     \<Rightarrow> ((Node \<times> Node) \<times> CoefficientsMap \<times> CoefficientsMap) option" where
  "normalize_common env k lhs rhs =
     (if lhs = [] \<or> rhs = [] then None
      else do {
        let lhs_size = type_bv_size (fst (hd lhs));
        let rhs_size = type_bv_size (fst (hd rhs));
        let (lhs, rhs, common_coeffs) = compute_common_coefficients lhs rhs;
        common \<leftarrow> mk_node_coeffs env k common_coeffs;
        let (lhs, rhs) =
              (if \<not> is_null common
               then (cm_add_one env lhs common lhs_size, cm_add_one env rhs common rhs_size)
               else (lhs, rhs));
        let lhs = remove_zero_coeffs lhs;
        let rhs = remove_zero_coeffs rhs;
        left \<leftarrow> (if lhs \<noteq> [] then mk_node_coeffs env k lhs
                  else Some (mk_value (mk_zero lhs_size)));
        right \<leftarrow> (if rhs \<noteq> [] then mk_node_coeffs env k rhs
                   else Some (mk_value (mk_zero rhs_size)));
        Some ((left, right), lhs, rhs)
      })"

function get_top :: "Node \<Rightarrow> Node" where
  "get_top cur =
     (let k = kind cur
      in if k = BV_NOT \<or> k = BV_SHL \<or> k = BV_SHR \<or> k = BV_EXTRACT then get_top (child cur 0)
         else if k = BV_CONCAT \<and> is_value (child cur 0) then get_top (child cur 1)
         else if k = BV_CONCAT \<and> is_value (child cur 1) then get_top (child cur 0)
         else cur)"
  by pat_completeness auto
termination
proof (relation "measure size")
  have c: "size (child cur i) < size cur"
    if "kind cur = k" "k \<notin> {NULL_NODE, VALUE, CONSTANT}" for cur k i
    using that
  proof (cases cur)
    case (Node k' cs idx)
    have "size (cs ! i) \<le> size_list size cs" if "i < length cs"
      by (rule size_list_estimation' [OF nth_mem [OF that]]) simp
    then show ?thesis by (auto simp: Node child_def less_Suc_eq_le)
  qed simp_all
  show "wf (measure size)" by simp
  show "k = kind cur \<Longrightarrow> k = BV_NOT \<or> k = BV_SHL \<or> k = BV_SHR \<or> k = BV_EXTRACT \<Longrightarrow>
        (child cur 0, cur) \<in> measure size" for k cur
    using c [of cur k 0] by auto
  show "k = kind cur \<Longrightarrow> \<not> (k = BV_NOT \<or> k = BV_SHL \<or> k = BV_SHR \<or> k = BV_EXTRACT) \<Longrightarrow>
        k = BV_CONCAT \<and> is_value (child cur 0) \<Longrightarrow> (child cur 1, cur) \<in> measure size" for k cur
    using c [of cur k 1] by auto
  show "k = kind cur \<Longrightarrow> \<not> (k = BV_NOT \<or> k = BV_SHL \<or> k = BV_SHR \<or> k = BV_EXTRACT) \<Longrightarrow>
        \<not> (k = BV_CONCAT \<and> is_value (child cur 0)) \<Longrightarrow>
        k = BV_CONCAT \<and> is_value (child cur 1) \<Longrightarrow> (child cur 0, cur) \<in> measure size" for k cur
    using c [of cur k 0] by auto
qed

declare get_top.simps [simp del]

text \<open>
  \<open>rebuild_top\<close> walks from \<open>node\<close> down to the top of the chain with a stack and a
  cache; an entry with the null node marks a node that is being rebuilt.
  \<^verbatim>\<open>cache.emplace(n, n)\<close> keeps an entry that is there. \<^verbatim>\<open>utils::rebuild_node\<close> with a cache
  reads the new children from it, and needs them there and not null.
\<close>

definition cache_emplace :: "(Node \<rightharpoonup> Node) \<Rightarrow> Node \<Rightarrow> Node \<Rightarrow> (Node \<rightharpoonup> Node)" where
  "cache_emplace cache k v = (if cache k = None then cache(k \<mapsto> v) else cache)"

fun cached_children :: "(Node \<rightharpoonup> Node) \<Rightarrow> Node list \<Rightarrow> Node list option" where
  "cached_children cache [] = Some []"
| "cached_children cache (c # cs) =
     (case cache c of
        None \<Rightarrow> None
      | Some c' \<Rightarrow>
          if is_null c' then None
          else (case cached_children cache cs of None \<Rightarrow> None | Some cs' \<Rightarrow> Some (c' # cs')))"

definition rebuild_node_cache :: "Node \<Rightarrow> (Node \<rightharpoonup> Node) \<Rightarrow> Node option" where
  "rebuild_node_cache node cache =
     (case cached_children cache (node_children node) of
        None \<Rightarrow> None
      | Some children \<Rightarrow> Some (rebuild_node node children))"

function rebuild_top_loop ::
  "Node \<Rightarrow> Node \<Rightarrow> Node list \<Rightarrow> (Node \<rightharpoonup> Node) \<Rightarrow> (Node \<rightharpoonup> Node) option" where
  "rebuild_top_loop top_node normalized [] cache = Some cache"
| "rebuild_top_loop top_node normalized (cur # visit) cache =
     (case cache cur of
        None \<Rightarrow>
          (let k = kind cur; cache' = cache(cur \<mapsto> Node_null)
           in if k = BV_NOT \<or> k = BV_SHL \<or> k = BV_SHR \<or> k = BV_EXTRACT then
                rebuild_top_loop top_node normalized (child cur 0 # cur # visit)
                  (fold (\<lambda>c m. cache_emplace m c c) (drop 1 (node_children cur)) cache')
              else if k = BV_CONCAT \<and> is_value (child cur 0) then
                rebuild_top_loop top_node normalized (child cur 1 # cur # visit)
                  (cache_emplace cache' (child cur 0) (child cur 0))
              else if k = BV_CONCAT \<and> is_value (child cur 1) then
                rebuild_top_loop top_node normalized (child cur 0 # cur # visit)
                  (cache_emplace cache' (child cur 1) (child cur 1))
              else if cur \<noteq> top_node \<or> node_type normalized \<noteq> node_type cur then None
              else rebuild_top_loop top_node normalized visit (cache(cur \<mapsto> normalized)))
      | Some res \<Rightarrow>
          if is_null res then
            (case rebuild_node_cache cur cache of
               None \<Rightarrow> None
             | Some res' \<Rightarrow>
                 if node_type res' \<noteq> node_type cur then None
                 else rebuild_top_loop top_node normalized visit (cache(cur \<mapsto> res')))
          else rebuild_top_loop top_node normalized visit cache)"
  by pat_completeness auto
termination
proof (relation "measure (\<lambda>(top_node, normalized, visit, cache).
         sum_list (map (\<lambda>n. if cache n = None then 2 * node_weight n else 0) visit)
         + length visit)")
  let ?m = "\<lambda>cache visit. sum_list (map (\<lambda>n. if cache n = None then 2 * node_weight n else 0) visit)"
  have mono: "?m cache' visit \<le> ?m cache visit"
    if "\<And>n. cache n \<noteq> None \<Longrightarrow> cache' n \<noteq> None" for cache cache' :: "Node \<rightharpoonup> Node" and visit
  proof (rule sum_list_mono)
    fix n
    show "(if cache' n = None then 2 * node_weight n else 0)
          \<le> (if cache n = None then 2 * node_weight n else 0)"
      using that [of n] by auto
  qed
  have emp: "cache n \<noteq> None \<Longrightarrow> fold (\<lambda>c m. cache_emplace m c c) cs cache n \<noteq> None"
    for cache :: "Node \<rightharpoonup> Node" and cs n
    by (induction cs arbitrary: cache) (auto simp: cache_emplace_def)
  have ch: "node_weight (child cur i) < node_weight cur"
    if "kind cur \<notin> {NULL_NODE, VALUE, CONSTANT}" for cur i
  proof (cases cur)
    case (Node k' cs idx)
    have "size (cs ! i) \<le> size_list size cs" if "i < length cs"
      by (rule size_list_estimation' [OF nth_mem [OF that]]) simp
    then show ?thesis by (auto simp: Node child_def node_weight_def less_Suc_eq_le)
  qed (use that in simp_all)
  show "wf (measure (\<lambda>(top_node, normalized, visit, cache).
         sum_list (map (\<lambda>n. if cache n = None then 2 * node_weight n else 0) visit)
         + length visit))"
    by simp
  show "((top_node, normalized, child cur 0 # cur # visit,
          fold (\<lambda>c m. cache_emplace m c c) (drop 1 (node_children cur)) cache'),
         top_node, normalized, cur # visit, cache)
        \<in> measure (\<lambda>(top_node, normalized, visit, cache).
             sum_list (map (\<lambda>n. if cache n = None then 2 * node_weight n else 0) visit)
             + length visit)"
    if "cache cur = None" "cache' = cache(cur \<mapsto> Node_null)" "k = kind cur"
      "k = BV_NOT \<or> k = BV_SHL \<or> k = BV_SHR \<or> k = BV_EXTRACT"
    for top_node normalized :: Node and cur visit and cache cache' :: "Node \<rightharpoonup> Node" and k
  proof -
    have "node_weight (child cur 0) < node_weight cur"
      by (rule ch) (use that in auto)
    moreover have "?m (fold (\<lambda>c m. cache_emplace m c c) (drop 1 (node_children cur)) cache') visit \<le> ?m cache visit"
      by (rule mono) (use that(2) emp in auto)
    moreover have "(fold (\<lambda>c m. cache_emplace m c c) (drop 1 (node_children cur)) cache') cur \<noteq> None"
      using that(2) emp by simp
    ultimately show ?thesis
      using that(1) by (simp del: not_None_eq)
  qed
  show "((top_node, normalized, child cur 1 # cur # visit,
          cache_emplace cache' (child cur 0) (child cur 0)),
         top_node, normalized, cur # visit, cache)
        \<in> measure (\<lambda>(top_node, normalized, visit, cache).
             sum_list (map (\<lambda>n. if cache n = None then 2 * node_weight n else 0) visit)
             + length visit)"
    if "cache cur = None" "cache' = cache(cur \<mapsto> Node_null)" "k = kind cur"
      "k = BV_CONCAT \<and> is_value (child cur 0)"
    for top_node normalized :: Node and cur visit and cache cache' :: "Node \<rightharpoonup> Node" and k
  proof -
    have "node_weight (child cur 1) < node_weight cur"
      by (rule ch) (use that in auto)
    moreover have "?m (cache_emplace cache' (child cur 0) (child cur 0)) visit \<le> ?m cache visit"
      by (rule mono) (use that(2) in \<open>auto simp: cache_emplace_def\<close>)
    moreover have "(cache_emplace cache' (child cur 0) (child cur 0)) cur \<noteq> None"
      using that(2) by (simp add: cache_emplace_def)
    ultimately show ?thesis
      using that(1) by (simp del: not_None_eq)
  qed
  show "((top_node, normalized, child cur 0 # cur # visit,
          cache_emplace cache' (child cur 1) (child cur 1)),
         top_node, normalized, cur # visit, cache)
        \<in> measure (\<lambda>(top_node, normalized, visit, cache).
             sum_list (map (\<lambda>n. if cache n = None then 2 * node_weight n else 0) visit)
             + length visit)"
    if "cache cur = None" "cache' = cache(cur \<mapsto> Node_null)" "k = kind cur"
      "k = BV_CONCAT \<and> is_value (child cur 1)"
    for top_node normalized :: Node and cur visit and cache cache' :: "Node \<rightharpoonup> Node" and k
  proof -
    have "node_weight (child cur 0) < node_weight cur"
      by (rule ch) (use that in auto)
    moreover have "?m (cache_emplace cache' (child cur 1) (child cur 1)) visit \<le> ?m cache visit"
      by (rule mono) (use that(2) in \<open>auto simp: cache_emplace_def\<close>)
    moreover have "(cache_emplace cache' (child cur 1) (child cur 1)) cur \<noteq> None"
      using that(2) by (simp add: cache_emplace_def)
    ultimately show ?thesis
      using that(1) by (simp del: not_None_eq)
  qed
  have upd: "((top_node, normalized, visit, cache(cur \<mapsto> v)), top_node, normalized, cur # visit, cache)
        \<in> measure (\<lambda>(top_node, normalized, visit, cache).
             sum_list (map (\<lambda>n. if cache n = None then 2 * node_weight n else 0) visit)
             + length visit)"
    for top_node normalized :: Node and cur visit and cache :: "Node \<rightharpoonup> Node" and v
    using mono [of cache "cache(cur \<mapsto> v)" visit] by (simp add: le_imp_less_Suc trans_le_add2)
  show "((top_node, normalized, visit, cache), top_node, normalized, cur # visit, cache)
        \<in> measure (\<lambda>(top_node, normalized, visit, cache).
             sum_list (map (\<lambda>n. if cache n = None then 2 * node_weight n else 0) visit)
             + length visit)"
    for top_node normalized :: Node and cur visit and cache :: "Node \<rightharpoonup> Node"
    by simp
  show "((top_node, normalized, visit, cache(cur \<mapsto> v)), top_node, normalized, cur # visit, cache)
        \<in> measure (\<lambda>(top_node, normalized, visit, cache).
             sum_list (map (\<lambda>n. if cache n = None then 2 * node_weight n else 0) visit)
             + length visit)"
    for top_node normalized :: Node and cur visit and cache :: "Node \<rightharpoonup> Node" and v
    by (rule upd)
  show "((top_node, normalized, visit, cache(cur \<mapsto> v)), top_node, normalized, cur # visit, cache)
        \<in> measure (\<lambda>(top_node, normalized, visit, cache).
             sum_list (map (\<lambda>n. if cache n = None then 2 * node_weight n else 0) visit)
             + length visit)"
    for top_node normalized :: Node and cur visit and cache :: "Node \<rightharpoonup> Node" and v
    by (rule upd)
qed

declare rebuild_top_loop.simps [simp del]

definition rebuild_top :: "Node \<Rightarrow> Node \<Rightarrow> Node \<Rightarrow> Node option" where
  "rebuild_top node top_node normalized =
     (if node_type top_node \<noteq> node_type normalized then None
      else (case rebuild_top_loop top_node normalized [node] Map.empty of
              None \<Rightarrow> None
            | Some cache \<Rightarrow> cache node))"

text \<open>
  The body of \<open>normalize_comm_assoc\<close> from the coefficient maps to the call of
  \<open>normalize_common\<close>, for the tops \<open>top_lhs\<close>, \<open>top_rhs\<close> and the chain kind \<open>k\<close>. It
  gives what the rest of the function reads: the sizes \<open>lhs_coeff_size\<close> and
  \<open>rhs_coeff_size\<close>, taken before the values are folded, the two sides \<open>left\<close> and
  \<open>right\<close>, and the maps \<open>lhs\<close> and \<open>rhs\<close> as \<open>normalize_common\<close> leaves them.
\<close>

definition comm_assoc_balance ::
  "norm_env \<Rightarrow> PassNormalize \<Rightarrow> Node \<Rightarrow> Node \<Rightarrow> Kind
     \<Rightarrow> (nat \<times> nat \<times> (Node \<times> Node) \<times> CoefficientsMap \<times> CoefficientsMap) option" where
  "comm_assoc_balance env this top_lhs top_rhs k =
     do {
       let parents = (if d_share_aware this
                      then count_parents_chain [top_lhs, top_rhs] k Map.empty
                      else Map.empty);
       lhs \<leftarrow> compute_coefficients env this top_lhs k parents [];
       rhs \<leftarrow> compute_coefficients env this top_rhs k parents [];
       let lhs_coeff_size = length lhs;
       let rhs_coeff_size = length rhs;
       (lhs, parents) \<leftarrow>
         (if kind top_lhs = BV_ADD then do {
            (val, lhs, parents) \<leftarrow> normalize_add env this top_lhs lhs parents True True;
            Some (lhs, parents)
          } else if kind top_lhs = BV_MUL then do {
            (val, lhs) \<leftarrow> normalize_mul env top_lhs lhs True;
            Some (lhs, parents)
          } else Some (lhs, parents));
       (rhs, parents) \<leftarrow>
         (if kind top_rhs = BV_ADD then do {
            (val, rhs, parents) \<leftarrow> normalize_add env this top_rhs rhs parents True True;
            Some (rhs, parents)
          } else if kind top_rhs = BV_MUL then do {
            (val, rhs) \<leftarrow> normalize_mul env top_rhs rhs True;
            Some (rhs, parents)
          } else Some (rhs, parents));
       ((left, right), lhs, rhs) \<leftarrow> normalize_common env k lhs rhs;
       Some (lhs_coeff_size, rhs_coeff_size, (left, right), lhs, rhs)
     }"

text \<open>
  \<open>normalize_comm_assoc\<close> for an equality or a comparison of kind \<open>parent_kind\<close> over
  \<open>node0\<close> and \<open>node1\<close>. The guard compares the sizes of the coefficient maps before
  the normalization with the sizes of the maps that \<open>normalize_common\<close> leaves.
\<close>

definition normalize_comm_assoc ::
  "norm_env \<Rightarrow> PassNormalize \<Rightarrow> Kind \<Rightarrow> Node \<Rightarrow> Node \<Rightarrow> (Node \<times> bool) option" where
  "normalize_comm_assoc env this parent_kind node0 node1 =
     (let top_lhs = get_top node0;
          top_rhs = get_top node1;
          k = (if kind top_lhs \<noteq> BV_ADD \<and> kind top_lhs \<noteq> BV_MUL then kind top_rhs
               else kind top_lhs)
      in if k \<noteq> BV_ADD \<and> k \<noteq> BV_MUL then Some (mk_node parent_kind [node0, node1], False)
         else do {
           (lhs_coeff_size, rhs_coeff_size, (left, right), lhs, rhs) \<leftarrow>
             comm_assoc_balance env this top_lhs top_rhs k;
           if lhs_coeff_size \<le> length lhs \<and> rhs_coeff_size \<le> length rhs
           then Some (mk_node parent_kind [node0, node1], False)
           else do {
             rebuilt_left \<leftarrow> rebuild_top node0 top_lhs left;
             rebuilt_right \<leftarrow> rebuild_top node1 top_rhs right;
             Some (mk_node parent_kind [rebuilt_left, rebuilt_right],
                   rebuilt_left \<noteq> node0 \<or> rebuilt_right \<noteq> node1)
           }
         })"

subsection \<open>process\<close>

text \<open>
  What \<open>process\<close> does with a node \<open>cur\<close> whose children have their results in
  \<open>d_cache\<close>: the result for \<open>cur\<close>, whether the outer loop has to run again
  (\<open>normalized\<close>), and the statistics. In the branches for \<^verbatim>\<open>EQUAL\<close> that is not over two
  chains of one kind and for \<^verbatim>\<open>BV_ULT\<close>, \<^verbatim>\<open>BV_SLT\<close>, the source declares a new local
  \<open>normalized\<close>: the flag of the outer loop is not set there.
\<close>

definition process_node ::
  "norm_env \<Rightarrow> PassNormalize \<Rightarrow> Node \<Rightarrow> Node list \<Rightarrow> bool
     \<Rightarrow> (Node \<times> bool \<times> PassNormalize) option" where
  "process_node env this cur children normalized =
     (let k = kind cur
      in if k = EQUAL \<and> kind (children ! 0) = kind (children ! 1)
            \<and> (kind (children ! 0) = BV_ADD \<or> kind (children ! 0) = BV_MUL) then
           (case normalize_eq_add_mul env this (children ! 0) (children ! 1) of
              None \<Rightarrow> None
            | Some (res, norm) \<Rightarrow>
                if norm
                then Some (res, True, this\<lparr>num_normalizations := num_normalizations this + 1\<rparr>)
                else Some (res, normalized, this))
         else if k = EQUAL then
           (let rw = rewrite_term cur children
            in if is_null rw then
                 (case normalize_comm_assoc env this k (children ! 0) (children ! 1) of
                    None \<Rightarrow> None
                  | Some (res, normalized') \<Rightarrow>
                      Some (res, normalized,
                            if normalized'
                            then this\<lparr>num_normalizations := num_normalizations this + 1\<rparr>
                            else this))
               else Some (rw, normalized, this))
         else if k = BV_ULT \<or> k = BV_SLT then
           (case normalize_comm_assoc env this k (children ! 0) (children ! 1) of
              None \<Rightarrow> None
            | Some (res, normalized') \<Rightarrow>
                Some (res, normalized,
                      if normalized'
                      then this\<lparr>num_normalizations := num_normalizations this + 1\<rparr>
                      else this))
         else if k = BV_MUL then
           Some (rewrite env (distrib_mul (children ! 0) (children ! 1) 5), normalized, this)
         else Some (rebuild_node cur children, normalized, this))"

text \<open>
  The number of rounds the inner loop of \<open>process\<close> spends on a term that is not in the
  cache: one to push its children, one to pop it, and the rounds of the children. It
  only serves as the termination measure of the loop.
\<close>

fun process_rounds :: "Node \<Rightarrow> nat" where
  "process_rounds (Node k cs idx) = 2 + sum_list (map process_rounds cs)"
| "process_rounds n = 2"

text \<open>
  \<^verbatim>\<open>d_parents[it->second] = d_parents[cur]\<close>: reading the count of \<open>cur\<close> makes an entry 0
  when there is none.
\<close>

definition update_parents :: "PassNormalize \<Rightarrow> Node \<Rightarrow> Node \<Rightarrow> PassNormalize" where
  "update_parents this cur res =
     (let c = (case d_parents this cur of None \<Rightarrow> 0 | Some c \<Rightarrow> c)
      in this\<lparr>d_parents := (d_parents this)(cur \<mapsto> c, res \<mapsto> c),
              d_parents_cache := List.insert res (d_parents_cache this)\<rparr>)"

text \<open>The inner \<^verbatim>\<open>do ... while (!visit.empty())\<close> loop of \<open>process\<close>.\<close>

function process_visit ::
  "norm_env \<Rightarrow> Node list \<Rightarrow> bool \<Rightarrow> PassNormalize \<Rightarrow> (bool \<times> PassNormalize) option" where
  "process_visit env [] normalized this = Some (normalized, this)"
| "process_visit env (cur # visit) normalized this =
     (case d_cache this cur of
        None \<Rightarrow>
          process_visit env (rev (node_children cur) @ cur # visit) normalized
            (this\<lparr>d_cache := (d_cache this)(cur \<mapsto> Node_null)\<rparr>)
      | Some res0 \<Rightarrow>
          if is_null res0 then
            (case cached_children (d_cache this) (node_children cur) of
               None \<Rightarrow> None
             | Some children \<Rightarrow>
                 (case process_node env this cur children normalized of
                    None \<Rightarrow> None
                  | Some (res, normalized', this') \<Rightarrow>
                      process_visit env visit normalized'
                        (let this'' = this'\<lparr>d_cache := (d_cache this)(cur \<mapsto> res)\<rparr>
                         in if d_share_aware this then update_parents this'' cur res
                            else this'')))
          else process_visit env visit normalized this)"
  by pat_completeness auto

termination
proof (relation "measure (\<lambda>(env, visit, normalized, this).
         sum_list (map (\<lambda>n. if d_cache this n = None then process_rounds n else 1) visit))")
  let ?m = "\<lambda>cache visit.
              sum_list (map (\<lambda>n. if cache n = None then process_rounds n else (1::nat)) visit)"
  have pos: "1 \<le> process_rounds n" for n
    by (cases n) simp_all
  have mono: "?m cache' visit \<le> ?m cache visit"
    if "\<And>n. cache n \<noteq> None \<Longrightarrow> cache' n \<noteq> None" for cache cache' :: "Node \<rightharpoonup> Node" and visit
  proof (rule sum_list_mono)
    fix n
    show "(if cache' n = None then process_rounds n else 1)
          \<le> (if cache n = None then process_rounds n else 1)"
      using that [of n] pos [of n] by auto
  qed
  have le: "?m cache visit \<le> sum_list (map process_rounds visit)"
    for cache :: "Node \<rightharpoonup> Node" and visit
    by (rule sum_list_mono) (use pos in auto)
  have ch: "sum_list (map process_rounds (node_children n)) + 2 \<le> process_rounds n" for n
    by (cases n) simp_all
  show "wf (measure (\<lambda>(env, visit, normalized, this).
         sum_list (map (\<lambda>n. if d_cache this n = None then process_rounds n else 1) visit)))"
    by simp
  show "((env, rev (node_children cur) @ cur # visit, normalized,
          this\<lparr>d_cache := (d_cache this)(cur \<mapsto> Node_null)\<rparr>),
         env, cur # visit, normalized, this)
        \<in> measure (\<lambda>(env, visit, normalized, this).
             sum_list (map (\<lambda>n. if d_cache this n = None then process_rounds n else 1) visit))"
    if "d_cache this cur = None" for env cur visit normalized this
  proof -
    let ?c = "(d_cache this)(cur \<mapsto> Node_null)"
    have "?m ?c (rev (node_children cur)) \<le> sum_list (map process_rounds (node_children cur))"
      using le [of ?c "rev (node_children cur)"] by (simp add: rev_map [symmetric])
    moreover have "?m ?c visit \<le> ?m (d_cache this) visit"
      by (rule mono) auto
    ultimately show ?thesis
      using ch [of cur] that by simp
  qed
  show "((env, visit, normalized',
          let this'' = this'\<lparr>d_cache := (d_cache this)(cur \<mapsto> res)\<rparr>
          in if d_share_aware this then update_parents this'' cur res else this''),
         env, cur # visit, normalized, this)
        \<in> measure (\<lambda>(env, visit, normalized, this).
             sum_list (map (\<lambda>n. if d_cache this n = None then process_rounds n else 1) visit))"
    if "d_cache this cur = Some res0"
    for env cur visit normalized normalized' this this' res res0
  proof -
    have "?m ((d_cache this)(cur \<mapsto> res)) visit \<le> ?m (d_cache this) visit"
      by (rule mono) auto
    then show ?thesis
      using that by (simp add: Let_def update_parents_def)
  qed
  show "((env, visit, normalized, this), env, cur # visit, normalized, this)
        \<in> measure (\<lambda>(env, visit, normalized, this).
             sum_list (map (\<lambda>n. if d_cache this n = None then process_rounds n else 1) visit))"
    if "d_cache this cur = Some res0" for env cur visit normalized this res0
    using that by simp
qed

declare process_visit.simps [simp del]

text \<open>
  The outer \<^verbatim>\<open>do ... while (normalized)\<close> loop, which may go on for ever, and \<open>process\<close>.
  \<^verbatim>\<open>d_cache.at\<close> of a node without entry throws.
\<close>

partial_function (option) process_loop ::
  "norm_env \<Rightarrow> Node \<Rightarrow> PassNormalize \<Rightarrow> (Node \<times> PassNormalize) option" where
  "process_loop env node' this =
     (case process_visit env [node'] False this of
        None \<Rightarrow> None
      | Some (normalized, this') \<Rightarrow>
          if normalized then
            (case d_cache this' node' of
               None \<Rightarrow> None
             | Some node'' \<Rightarrow> process_loop env node'' this')
          else Some (node', this'))"

definition process :: "norm_env \<Rightarrow> PassNormalize \<Rightarrow> Node \<Rightarrow> (Node \<times> PassNormalize) option" where
  "process env this node =
     (case process_loop env (rewrite env node) this of
        None \<Rightarrow> None
      | Some (node', this') \<Rightarrow>
          (case d_cache this' node' of
             None \<Rightarrow> None
           | Some res \<Rightarrow> Some (rewrite env res, this')))"

subsection \<open>normalize_adders, apply\<close>

text \<open>
  \<open>collect_adders\<close>: the \<^verbatim>\<open>do ... while\<close> loop over the stack \<open>visit\<close>, which starts as the
  assertions. A node of kind \<^verbatim>\<open>BV_ADD\<close> that is met for the first time becomes a chain
  with the coefficients that \<open>compute_coefficients\<close> gives it for an empty parents map,
  and the nodes of its map are pushed; of any other node the children are pushed.
  Reading the back of the empty stack in the first round (no assertion at all) has no
  result. With \<open>d_share_aware\<close>, \<open>compute_coefficients\<close> asserts that the chain has an
  entry in the empty parents map: the first chain then stops the run.
\<close>

partial_function (option) collect_adders_loop ::
  "norm_env \<Rightarrow> PassNormalize \<Rightarrow> Node list \<Rightarrow> Node list \<Rightarrow> (Node \<times> CoefficientsMap) list
     \<Rightarrow> (Node \<times> CoefficientsMap) list option" where
  "collect_adders_loop env this visit cache adders =
     (case visit of
        [] \<Rightarrow> None
      | cur # visit' \<Rightarrow>
          if cur \<notin> set cache then
            (if kind cur = BV_ADD then
               (if map_of adders cur \<noteq> None then None
                else
                  (case compute_coefficients env this cur (kind cur) Map.empty [] of
                     None \<Rightarrow> None
                   | Some cm \<Rightarrow>
                       if rev (map fst cm) @ visit' = [] then Some (adders @ [(cur, cm)])
                       else collect_adders_loop env this (rev (map fst cm) @ visit')
                              (cur # cache) (adders @ [(cur, cm)])))
             else if rev (node_children cur) @ visit' = [] then Some adders
             else collect_adders_loop env this (rev (node_children cur) @ visit')
                    (cur # cache) adders)
          else if visit' = [] then Some adders
          else collect_adders_loop env this visit' cache adders)"

definition collect_adders ::
  "norm_env \<Rightarrow> PassNormalize \<Rightarrow> Node list \<Rightarrow> (Node \<times> CoefficientsMap) list option" where
  "collect_adders env this assertions = collect_adders_loop env this (rev assertions) [] []"

text \<open>
  \<open>normalize_adders\<close>: the chains are collected, the table \<open>results\<close> is made from them,
  and the last loop substitutes it into each assertion, one result per assertion.
\<close>

definition normalize_adders ::
  "norm_env \<Rightarrow> PassNormalize \<Rightarrow> Node list \<Rightarrow> Node list option" where
  "normalize_adders env this assertions =
     (case collect_adders env this assertions of
        None \<Rightarrow> None
      | Some adders \<Rightarrow>
          Some (map (\<lambda>a. substitute env a (adders_results env adders)) assertions))"

text \<open>
  The first loop of \<open>apply\<close> over the assertions. The sizes are \<^verbatim>\<open>uint64_t\<close> sums of what
  \<open>count_aig_ands\<close> counts.
\<close>

record apply_state =
  size_before :: "64 word"
  cache_before :: "nat set"
  size_after1 :: "64 word"
  cache_after1 :: "nat set"
  new_assertions :: "Node list"
  pass :: PassNormalize

fun apply_first_pass :: "norm_env \<Rightarrow> Node list \<Rightarrow> apply_state \<Rightarrow> apply_state option" where
  "apply_first_pass env [] st = Some st"
| "apply_first_pass env (assertion # rest) st =
     (let (n, cb) = count_aig_ands env assertion (cache_before st);
          st = st\<lparr>size_before := size_before st + n, cache_before := cb\<rparr>
      in if \<not> base_processed env (d_processed_assertions (pass st)) assertion then
           (let this = (pass st)\<lparr>d_processed_assertions :=
                          base_cache_assertion env (d_processed_assertions (pass st)) assertion\<rparr>
            in case process env this assertion of
                 None \<Rightarrow> None
               | Some (processed, this') \<Rightarrow>
                   (let (n1, ca) = count_aig_ands env processed (cache_after1 st)
                    in apply_first_pass env rest
                         (st\<lparr>size_after1 := size_after1 st + n1, cache_after1 := ca,
                             new_assertions := new_assertions st @ [processed],
                             pass := this'\<rparr>)))
         else
           (let (n1, ca) = count_aig_ands env assertion (cache_after1 st)
            in apply_first_pass env rest
                 (st\<lparr>size_after1 := size_after1 st + n1, cache_after1 := ca,
                     new_assertions := new_assertions st @ [assertion]\<rparr>)))"

text \<open>The loop that counts the second pass, with its own cache.\<close>

fun count_all :: "norm_env \<Rightarrow> Node list \<Rightarrow> 64 word \<times> nat set \<Rightarrow> 64 word \<times> nat set" where
  "count_all env [] acc = acc"
| "count_all env (a # rest) (size_after, cache) =
     (let (n, cache') = count_aig_ands env a cache in count_all env rest (size_after + n, cache'))"

text \<open>
  The counted AIG size of a vector of assertions, as each of the three counting loops
  of \<open>apply\<close> computes it: the sum of what \<open>count_aig_ands\<close> counts for the assertions in
  turn, with a cache that is empty before the first.
\<close>

definition aig_size :: "norm_env \<Rightarrow> Node list \<Rightarrow> 64 word" where
  "aig_size env assertions = fst (count_all env assertions (0, {}))"

text \<open>
  The last loop: \<^verbatim>\<open>assertions.replace(i, processed_assertions[i])\<close> for every index whose
  assertion differs. Modelled from the spec: \<^verbatim>\<open>AssertionVector\<close> is not part of the
  sources at hand; \<^verbatim>\<open>replace(i, new)\<close> puts \<open>new\<close> at index \<open>i\<close>.
\<close>

fun replace_all :: "nat \<Rightarrow> nat \<Rightarrow> Node list \<Rightarrow> Node list \<Rightarrow> Node list" where
  "replace_all i 0 processed_assertions assertions = assertions"
| "replace_all i (Suc n) processed_assertions assertions =
     replace_all (Suc i) n processed_assertions
       (if assertions ! i \<noteq> processed_assertions ! i
        then assertions[i := processed_assertions ! i] else assertions)"

text \<open>
  The head of \<open>apply\<close>, up to the first loop: the cache is cleared, \<open>d_parents\<close> is
  asserted to be empty and, with \<open>d_share_aware\<close>, filled from the assertions.
\<close>

definition apply_init :: "norm_env \<Rightarrow> PassNormalize \<Rightarrow> Node list \<Rightarrow> apply_state option" where
  "apply_init env this0 assertions =
     (let this = this0\<lparr>d_cache := Map.empty\<rparr>
      in if d_parents this \<noteq> Map.empty then None
         else
           (let this = (if d_share_aware this
                        then (let (ps, pc) = fold (base_count_parents env) assertions
                                               (d_parents this, d_parents_cache this)
                              in this\<lparr>d_parents := ps, d_parents_cache := pc\<rparr>)
                        else this)
            in Some \<lparr>size_before = 0, cache_before = {}, size_after1 = 0, cache_after1 = {},
                      new_assertions = [], pass = this\<rparr>))"

definition apply_pass ::
  "norm_env \<Rightarrow> PassNormalize \<Rightarrow> Node list \<Rightarrow> (Node list \<times> PassNormalize) option" where
  "apply_pass env this0 assertions =
     do {
       st0 \<leftarrow> apply_init env this0 assertions;
       st \<leftarrow> apply_first_pass env assertions st0;
       norm_assertions \<leftarrow> normalize_adders env (pass st) (new_assertions st);
       let (size_after2, cache_after2) = count_all env norm_assertions (0, {});
       let processed_assertions =
             (if size_after2 < size_after1 st then norm_assertions else new_assertions st);
       let size_after = min size_after2 (size_after1 st);
       assertions' \<leftarrow>
         (if size_after < size_before st then
            (if length processed_assertions \<noteq> length assertions then None
             else Some (replace_all 0 (length assertions) processed_assertions assertions))
          else Some assertions);
       Some (assertions',
             (pass st)\<lparr>d_parents := Map.empty, d_parents_cache := [], d_cache := Map.empty\<rparr>)
     }"

subsection \<open>The number of nodes of a term\<close>

text \<open>
  Modelled from the spec: the total node count of a term. Terms are shared, so a
  subterm that occurs several times is one node: the count is the number of distinct
  subterms. \<open>tree_size\<close> counts every occurrence.
\<close>

fun subterms :: "Node \<Rightarrow> Node list" where
  "subterms (Node k cs idx) = Node k cs idx # concat (map subterms cs)"
| "subterms n = [n]"

definition node_count :: "Node \<Rightarrow> nat" where
  "node_count n = length (remdups (subterms n))"

definition tree_size :: "Node \<Rightarrow> nat" where
  "tree_size n = length (subterms n)"

subsection \<open>A concrete pass\<close>

text \<open>
  Terms over two bits and over eight bits for the examples below, with the ids that
  the node manager gives them when they are made in this order; a term that the pass
  makes later gets a larger id. The rewriter of the example folds \<open>x \<and> x\<close> to \<open>x\<close> and
  leaves every other term as it is; the AIG size of a term is the size of the term.
\<close>

definition ex_a :: Node where "ex_a = Node_const 1 (Bv_type 2)"
definition ex_b :: Node where "ex_b = Node_const 2 (Bv_type 2)"
definition ex_aa :: Node where "ex_aa = Node BV_MUL [ex_a, ex_a] []"
definition ex_a4 :: Node where "ex_a4 = Node BV_MUL [ex_aa, ex_aa] []"

definition ex_x :: Node where "ex_x = Node_const 3 (Bv_type 8)"
definition ex_y :: Node where "ex_y = Node_const 4 (Bv_type 8)"
definition ex_z :: Node where "ex_z = Node_const 5 (Bv_type 8)"
definition ex_xx :: Node where "ex_xx = Node BV_MUL [ex_x, ex_x] []"
definition ex_x4 :: Node where "ex_x4 = Node BV_MUL [ex_xx, ex_xx] []"
definition ex_yz :: Node where "ex_yz = Node BV_MUL [ex_y, ex_z] []"

definition ex_c :: Node where "ex_c = Node_const 6 (Bv_type 8)"
definition ex_d :: Node where "ex_d = Node_const 7 (Bv_type 8)"
definition ex_n :: Node where "ex_n = Node_const 8 (Bv_type 8)"
definition ex_t :: Node where "ex_t = Node BV_UDIV [ex_c, ex_d] []"
definition ex_zero :: Node where "ex_zero = Node_value (BitVector 8 0)"

definition ex_p :: Node where "ex_p = Node_const 9 Bool_type"

text \<open>
  The equality \<open>t * (n / t) = 0\<close> where \<open>t\<close> is itself a division; the equality
  \<open>~x + y = z + c\<close>; and the product \<open>x\<^sup>4 * (y * z)\<close>, which is compared with \<open>y * z\<close>.
\<close>

definition ex_udiv :: Node where "ex_udiv = Node BV_UDIV [ex_n, ex_t] []"
definition ex_mul :: Node where "ex_mul = Node BV_MUL [ex_t, ex_udiv] []"
definition ex_eq :: Node where "ex_eq = Node EQUAL [ex_mul, ex_zero] []"

definition ex_notx_y :: Node where "ex_notx_y = Node BV_ADD [Node BV_NOT [ex_x] [], ex_y] []"
definition ex_z_c :: Node where "ex_z_c = Node BV_ADD [ex_z, ex_c] []"

definition ex_x4yz :: Node where "ex_x4yz = Node BV_MUL [ex_x4, ex_yz] []"

text \<open>
  The sum \<open>(x + x) + (x + x)\<close> with the comparison \<open>(x + x) + (x + x) <\<^sub>u y\<close>, and the sum
  \<open>(z + c) + x\<close>.
\<close>

definition ex_2x :: Node where "ex_2x = Node BV_ADD [ex_x, ex_x] []"
definition ex_4x :: Node where "ex_4x = Node BV_ADD [ex_2x, ex_2x] []"
definition ex_ult :: Node where "ex_ult = Node BV_ULT [ex_4x, ex_y] []"
definition ex_zc_x :: Node where "ex_zc_x = Node BV_ADD [ex_z_c, ex_x] []"

definition ex_node_id :: "Node \<Rightarrow> nat" where
  "ex_node_id n =
     (case map_of
        [(ex_a, 1), (ex_b, 2), (ex_aa, 3), (ex_a4, 4), (ex_x, 5), (ex_y, 6), (ex_z, 7),
         (ex_xx, 8), (ex_x4, 9), (ex_yz, 10), (ex_c, 11), (ex_d, 12), (ex_n, 13), (ex_t, 14),
         (ex_zero, 15), (ex_p, 16)] n of
        Some i \<Rightarrow> i
      | None \<Rightarrow> 100 + size n)"

definition ex_rewrite :: "Node \<Rightarrow> Node" where
  "ex_rewrite n = (case n of Node AND [x, y] idx \<Rightarrow> if x = y then x else n | _ \<Rightarrow> n)"

text \<open>
  The table of the example for the chains it is given: each chain becomes the sum of
  its elements, from the lowest id up, each once, followed by what is left of the
  coefficients, as \<open>normalize_adders\<close> builds it for a single chain. The substitution of
  the example replaces the chains of the table inside a term.
\<close>

definition ex_shared_sum :: "CoefficientsMap \<Rightarrow> Node" where
  "ex_shared_sum cm =
     (let elements = remove_zero_coeffs cm;
          res = foldl (\<lambda>res e. mk_node BV_ADD [e, res]) (fst (hd elements))
                  (map fst (tl elements))
      in foldl (\<lambda>res (n, coeff).
                  let rem_coeff = ibvdec coeff
                  in if is_zero rem_coeff then res
                     else mk_node BV_ADD
                            [if is_one rem_coeff then n
                             else mk_node BV_MUL [mk_value rem_coeff, n], res])
           res elements)"

definition ex_adders_results :: "(Node \<times> CoefficientsMap) list \<Rightarrow> (Node \<times> Node) list" where
  "ex_adders_results adders =
     map (\<lambda>(chain, cm). (chain, ex_shared_sum cm))
       (filter (\<lambda>(chain, cm). remove_zero_coeffs cm \<noteq> []) adders)"

fun ex_substitute :: "Node \<Rightarrow> (Node \<times> Node) list \<Rightarrow> Node" where
  "ex_substitute (Node k cs idx) results =
     (case map_of results (Node k cs idx) of
        Some r \<Rightarrow> r
      | None \<Rightarrow> Node k (map (\<lambda>c. ex_substitute c results) cs) idx)"
| "ex_substitute n results = (case map_of results n of Some r \<Rightarrow> r | None \<Rightarrow> n)"

definition ex_norm_env :: norm_env where
  "ex_norm_env =
     \<lparr>node_id_of = ex_node_id,
      rewrite = ex_rewrite,
      count_aig_ands = (\<lambda>n cache. (of_nat (size n), cache)),
      base_count_parents = (\<lambda>n st. st),
      base_processed = (\<lambda>seen n. n \<in> set seen),
      base_cache_assertion = (\<lambda>seen n. n # seen),
      adders_results = ex_adders_results,
      substitute = ex_substitute\<rparr>"

definition ex_pass :: "bool \<Rightarrow> ParentsMap \<Rightarrow> PassNormalize" where
  "ex_pass share_aware parents =
     \<lparr>d_share_aware = share_aware, d_parents = parents, d_parents_cache = [],
      d_cache = Map.empty, d_processed_assertions = [], num_normalizations = 0\<rparr>"

section \<open>Properties of the quantifier module\<close>

text \<open>
  C2. Once both worker threads have joined, \<open>run_parallel\<close> answers as a function of
  the two results alone: the result of the primary bundle when it is Sat or Unsat, and
  otherwise the result of the dual bundle through the negation convention, dual Sat
  giving Unsat and dual Unsat giving Sat. (Both results unknown violates the
  assertion of the source.)
\<close>

theorem run_parallel_selects_result:
  "run_parallel threads gslv0 dgslv0 =
     (let primary = result (fst (threads (gslv0, dgslv0)));
          dual = result (snd (threads (gslv0, dgslv0)))
      in if primary \<noteq> BZLA_RESULT_UNKNOWN then Inr primary
         else if dual = BZLA_RESULT_SAT then Inr BZLA_RESULT_UNSAT
         else if dual = BZLA_RESULT_UNSAT then Inr BZLA_RESULT_SAT
         else Inl AssertionFailure)"
  by (cases "threads (gslv0, dgslv0)"; cases "result (snd (threads (gslv0, dgslv0)))")
     (simp_all add: run_parallel_def)

lemmas s5_defs = s5_env_def s5_bundle_def s5_solver_def s5_x_def s5_x_exists_def s5_y_def
  s5_y_const_def s5_formula_def s5_fresh_def s5_stale_def

subsection \<open>Helper lemmas: what the steps of find_model keep\<close>





lemma find_model_exists_keeps:
  "find_model_exists env gslv skip_exists = Inr (Fall_through sm gslv_i) \<Longrightarrow>
   forall_uvars gslv_i = forall_uvars gslv \<and> forall_ces gslv_i = forall_ces gslv
   \<and> (skip_exists \<or> fst (bzla_check_sat env (exists gslv)) = BZLA_RESULT_SAT)"
  by (cases "bzla_check_sat env (exists gslv)"; cases "fst (bzla_check_sat env (exists gslv))")
     (auto simp: find_model_exists_def delete_model_def Let_def
           split: if_splits sum.splits)






text \<open>
  C1. The answers of \<open>find_model\<close>. When the E-solver is asked and answers Unsat, the
  call returns Unsat; when it answers Unknown (cancellation: \<^verbatim>\<open>bzla_terminate\<close> holds, as
  the source asserts), the call returns Unknown. Past the E-step (the E-solver was
  skipped or answered Sat and the model was synthesized, the bundle then being \<open>gslv_i\<close>):
  without universal variables the candidate \<open>g\<close> is asserted to the F-solver and the
  answer of its \<^verbatim>\<open>check_sat\<close> is returned (the source asserts \<open>skip_exists\<close> on this path);
  otherwise the negation of \<open>g\<close> is assumed, and an F-solver answer Unsat makes the call
  return Sat, an answer Unknown (cancellation) makes it return Unknown.
\<close>

theorem find_model_results:
  "(\<not> skip_exists \<and> fst (bzla_check_sat env (exists gslv)) = BZLA_RESULT_UNSAT \<longrightarrow>
      find_model env gslv skip_exists =
        Inr (BZLA_RESULT_UNSAT, gslv\<lparr>exists := snd (bzla_check_sat env (exists gslv))\<rparr>))
   \<and> (\<not> skip_exists \<and> fst (bzla_check_sat env (exists gslv)) = BZLA_RESULT_UNKNOWN
        \<and> terminate env (snd (bzla_check_sat env (exists gslv))) \<longrightarrow>
      find_model env gslv skip_exists =
        Inr (BZLA_RESULT_UNKNOWN, gslv\<lparr>exists := snd (bzla_check_sat env (exists gslv))\<rparr>))
   \<and> (find_model_exists env gslv skip_exists = Inr (Fall_through sm gslv_i) \<longrightarrow>
        (let g = fst (instantiate_formula env gslv_i sm)
         in (forall_uvars gslv = [] \<and> skip_exists \<longrightarrow>
               (let (res, f') = bzla_check_sat env (bzla_assert_exp (forall gslv_i) g)
                in find_model env gslv skip_exists = Inr (res, gslv_i\<lparr>forall := f'\<rparr>)))
          \<and> (forall_uvars gslv \<noteq> [] \<longrightarrow>
               (let (r, f') = bzla_check_sat env
                                (bzla_assume_exp (forall gslv_i) (bzla_node_invert g));
                    gslv_u = update_formula env (gslv_i\<lparr>forall := f'\<rparr>)
                in \<not> node_is_proxy env (forall gslv_u) (forall_formula gslv_u) \<longrightarrow>
                     (r = BZLA_RESULT_UNSAT \<longrightarrow>
                        find_model env gslv skip_exists = Inr (BZLA_RESULT_SAT, gslv_u))
                   \<and> (r = BZLA_RESULT_UNKNOWN \<and> terminate env (forall gslv_u) \<longrightarrow>
                        find_model env gslv skip_exists = Inr (BZLA_RESULT_UNKNOWN, gslv_u))))))"
proof (intro conjI impI)
  assume "\<not> skip_exists \<and> fst (bzla_check_sat env (exists gslv)) = BZLA_RESULT_UNSAT"
  then show "find_model env gslv skip_exists =
        Inr (BZLA_RESULT_UNSAT, gslv\<lparr>exists := snd (bzla_check_sat env (exists gslv))\<rparr>)"
    by (cases "bzla_check_sat env (exists gslv)")
       (simp add: find_model_def find_model_exists_def Let_def)
next
  assume "\<not> skip_exists \<and> fst (bzla_check_sat env (exists gslv)) = BZLA_RESULT_UNKNOWN
        \<and> terminate env (snd (bzla_check_sat env (exists gslv)))"
  then show "find_model env gslv skip_exists =
        Inr (BZLA_RESULT_UNKNOWN, gslv\<lparr>exists := snd (bzla_check_sat env (exists gslv))\<rparr>)"
    by (cases "bzla_check_sat env (exists gslv)")
       (simp add: find_model_def find_model_exists_def Let_def)
next
  assume step: "find_model_exists env gslv skip_exists = Inr (Fall_through sm gslv_i)"
  have uv: "forall_uvars gslv_i = forall_uvars gslv"
    using find_model_exists_keeps [OF step] by simp
  have fm: "find_model env gslv skip_exists = find_model_check env gslv_i skip_exists sm"
    by (simp add: find_model_def step)
  show "let g = fst (instantiate_formula env gslv_i sm)
         in (forall_uvars gslv = [] \<and> skip_exists \<longrightarrow>
               (let (res, f') = bzla_check_sat env (bzla_assert_exp (forall gslv_i) g)
                in find_model env gslv skip_exists = Inr (res, gslv_i\<lparr>forall := f'\<rparr>)))
          \<and> (forall_uvars gslv \<noteq> [] \<longrightarrow>
               (let (r, f') = bzla_check_sat env
                                (bzla_assume_exp (forall gslv_i) (bzla_node_invert g));
                    gslv_u = update_formula env (gslv_i\<lparr>forall := f'\<rparr>)
                in \<not> node_is_proxy env (forall gslv_u) (forall_formula gslv_u) \<longrightarrow>
                     (r = BZLA_RESULT_UNSAT \<longrightarrow>
                        find_model env gslv skip_exists = Inr (BZLA_RESULT_SAT, gslv_u))
                   \<and> (r = BZLA_RESULT_UNKNOWN \<and> terminate env (forall gslv_u) \<longrightarrow>
                        find_model env gslv skip_exists = Inr (BZLA_RESULT_UNKNOWN, gslv_u))))"
    unfolding fm using uv
    by (auto simp: find_model_check_def Let_def split: prod.splits)
qed

theorem find_model_results_witness:
  "map_sum id fst (find_model s5_env (s5_bundle 1 0 [(s5_y, s5_y_const)] []) False)
     = Inr BZLA_RESULT_UNSAT
   \<and> map_sum id fst (find_model s5_env (s5_bundle 2 0 [(s5_y, s5_y_const)] []) False)
     = Inr BZLA_RESULT_UNKNOWN
   \<and> map_sum id fst (find_model s5_env (s5_bundle 0 1 [] []) True) = Inr BZLA_RESULT_UNSAT
   \<and> map_sum id fst (find_model s5_env (s5_bundle 0 1 [(s5_y, s5_y_const)] []) True)
     = Inr BZLA_RESULT_SAT
   \<and> map_sum id fst (find_model s5_env (s5_bundle 0 2 [(s5_y, s5_y_const)] []) True)
     = Inr BZLA_RESULT_UNKNOWN"
proof -
  let ?uv = "[(s5_y, s5_y_const)]"
  have a: "map_sum id fst (find_model s5_env (s5_bundle 1 0 ?uv []) False) = Inr BZLA_RESULT_UNSAT"
    using find_model_results [where env = s5_env and gslv = "s5_bundle 1 0 ?uv []"
        and skip_exists = False and sm = None and gslv_i = "s5_bundle 1 0 ?uv []",
        THEN conjunct1]
    by (simp add: bzla_check_sat_def s5_defs)
  have b: "map_sum id fst (find_model s5_env (s5_bundle 2 0 ?uv []) False) = Inr BZLA_RESULT_UNKNOWN"
    using find_model_results [where env = s5_env and gslv = "s5_bundle 2 0 ?uv []"
        and skip_exists = False and sm = None and gslv_i = "s5_bundle 2 0 ?uv []",
        THEN conjunct2, THEN conjunct1]
    by (simp add: bzla_check_sat_def s5_defs)
  have c: "map_sum id fst (find_model s5_env (s5_bundle 0 1 [] []) True) = Inr BZLA_RESULT_UNSAT"
    using find_model_results [where env = s5_env and gslv = "s5_bundle 0 1 [] []"
        and skip_exists = True and sm = None and gslv_i = "s5_bundle 0 1 [] []",
        THEN conjunct2, THEN conjunct2]
    by (simp add: find_model_exists_def bzla_check_sat_def bzla_assert_exp_def s5_defs)
  have d: "map_sum id fst (find_model s5_env (s5_bundle 0 1 ?uv []) True) = Inr BZLA_RESULT_SAT"
    using find_model_results [where env = s5_env and gslv = "s5_bundle 0 1 ?uv []"
        and skip_exists = True and sm = None and gslv_i = "s5_bundle 0 1 ?uv []",
        THEN conjunct2, THEN conjunct2]
    by (simp add: find_model_exists_def bzla_check_sat_def bzla_assume_exp_def
          update_formula_def s5_defs)
  have e: "map_sum id fst (find_model s5_env (s5_bundle 0 2 ?uv []) True) = Inr BZLA_RESULT_UNKNOWN"
    using find_model_results [where env = s5_env and gslv = "s5_bundle 0 2 ?uv []"
        and skip_exists = True and sm = None and gslv_i = "s5_bundle 0 2 ?uv []",
        THEN conjunct2, THEN conjunct2]
    by (simp add: find_model_exists_def bzla_check_sat_def bzla_assume_exp_def
          update_formula_def s5_defs)
  from a b c d e show ?thesis by simp
qed










section \<open>Properties of the flat model\<close>

lemma index_map_from_other:
  "k \<notin> node_id ` set xs \<Longrightarrow> index_map_from i xs m k = m k"
  by (induction xs arbitrary: i m) auto

lemma index_map_from_nth:
  "distinct (map node_id xs) \<Longrightarrow> k < length xs \<Longrightarrow>
   index_map_from i xs m (node_id (xs ! k)) = Some (i + k)"
proof (induction xs arbitrary: i m k)
  case Nil
  then show ?case by simp
next
  case (Cons x xs)
  show ?case
  proof (cases k)
    case 0
    with Cons.prems show ?thesis by (simp add: index_map_from_other)
  next
    case (Suc j)
    with Cons.prems Cons.IH [of j "Suc i"] show ?thesis by simp
  qed
qed

lemma tuple_bv_update_same:
  "i < length t \<Longrightarrow> tuple_bv (t[i := Some bv]) i = Inr bv"
  by (simp add: tuple_bv_def)

lemma tuple_bv_update_other:
  "i \<noteq> j \<Longrightarrow> tuple_bv (t[i := x]) j = tuple_bv t j"
  by (simp add: tuple_bv_def)

lemma fill_evar_values_keeps:
  "fill_evar_values env gslv uim ce evs pos t0 = Inr t \<Longrightarrow> j < pos \<Longrightarrow>
   tuple_bv t j = tuple_bv t0 j"
proof (induction evs arbitrary: pos t0)
  case Nil
  then show ?case by simp
next
  case (Cons ev evs)
  obtain f_evar e_evar where ev: "ev = (f_evar, e_evar)" by (cases ev)
  from Cons.prems(1) obtain bv where
    rec: "fill_evar_values env gslv uim ce evs (Suc pos) (t0[pos := Some bv]) = Inr t"
    by (auto simp: ev bzla_bv_add_to_tuple_def split: sum.splits if_splits)
  from Cons.IH [OF rec] Cons.prems(2) show ?case
    by (simp add: tuple_bv_update_other)
qed

lemma fill_evar_values_nth:
  "fill_evar_values env gslv uim ce evs pos t0 = Inr t \<Longrightarrow> k < length evs \<Longrightarrow>
   \<exists>bv. evar_value env gslv uim ce (fst (evs ! k)) (snd (evs ! k)) = Inr bv
        \<and> tuple_bv t (pos + k) = Inr bv"
proof (induction evs arbitrary: pos t0 k)
  case Nil
  then show ?case by simp
next
  case (Cons ev evs)
  obtain f_evar e_evar where ev: "ev = (f_evar, e_evar)" by (cases ev)
  from Cons.prems(1) obtain bv where
    val: "evar_value env gslv uim ce f_evar e_evar = Inr bv" and
    lt: "pos < length t0" and
    rec: "fill_evar_values env gslv uim ce evs (Suc pos) (t0[pos := Some bv]) = Inr t"
    by (auto simp: ev bzla_bv_add_to_tuple_def split: sum.splits if_splits)
  show ?case
  proof (cases k)
    case 0
    from fill_evar_values_keeps [OF rec, of pos] lt
    show ?thesis by (simp add: 0 ev val tuple_bv_update_same)
  next
    case (Suc j)
    with Cons.prems(2) Cons.IH [OF rec, of j] show ?thesis by simp
  qed
qed

lemma generate_rows_rows:
  "generate_rows env gslv uim nevars ces rows0 = Inr rows \<Longrightarrow>
   (ce, t) \<in> set rows \<Longrightarrow>
   (ce, t) \<in> set rows0 \<or>
   fill_evar_values env gslv uim ce (forall_evars gslv) 0 (bzla_bv_new_tuple nevars) = Inr t"
proof (induction ces arbitrary: rows0)
  case Nil
  then show ?case by simp
next
  case (Cons c ces)
  from Cons.prems(1) obtain ev where
    fill: "fill_evar_values env gslv uim c (forall_evars gslv) 0 (bzla_bv_new_tuple nevars) = Inr ev"
    and rec: "generate_rows env gslv uim nevars ces (rows0 @ [(c, ev)]) = Inr rows"
    by (auto split: sum.splits)
  from Cons.IH [OF rec Cons.prems(2)] fill show ?case by auto
qed

lemma evar_value_no_deps:
  "bzla_nodemap_mapped (forall_evar_deps gslv) f_evar = None \<Longrightarrow>
   evar_value env gslv uim ce f_evar e_evar = Inr bv \<Longrightarrow>
   bzla_node_param_is_exists_var f_evar \<and>
   bv = model_get_bv env (exists gslv) (simplify_exp env (exists gslv) e_evar)"
  by (auto simp: evar_value_def split: if_splits)

lemma rows_agree_all:
  "\<forall>t \<in> set ts. tuple_bv t i = Inr res \<Longrightarrow> rows_agree res i ts = Inr ()"
  by (induction ts) auto

text \<open>
  C9. In a flat model that \<open>flat_model_generate\<close> has produced, an existential
  variable \<open>f_evar\<close> without an entry in \<open>forall_evar_deps\<close> has, at its index, the same
  value in every row: the value \<open>v\<close> of its E-solver constant in the E-solver's model.
  So \<open>flat_model_get_value\<close> gives \<open>v\<close> for every counter-example of the table, and, as
  soon as the table has a row, also without a counter-example (it then reads the first
  row, and the check of the source that all rows agree passes).
\<close>

theorem flat_model_outermost_evar_constant:
  assumes gen: "flat_model_generate env gslv = Inr fm"
    and dist: "distinct (map (node_id \<circ> fst) (forall_evars gslv))"
    and ev: "(f_evar, e_evar) \<in> set (forall_evars gslv)"
    and nodeps: "bzla_nodemap_mapped (forall_evar_deps gslv) f_evar = None"
  shows "let v = model_get_bv env (exists gslv) (simplify_exp env (exists gslv) e_evar)
         in (\<exists>i. evar_index_map fm (node_id f_evar) = Some i
                \<and> (\<forall>(ce, t) \<in> set (model fm). tuple_bv t i = Inr v))
          \<and> (\<forall>ce \<in> fst ` set (model fm).
                flat_model_get_value fm f_evar (Some ce) = Inr v
                \<and> flat_model_get_value fm f_evar None = Inr v)"
proof -
  let ?v = "model_get_bv env (exists gslv) (simplify_exp env (exists gslv) e_evar)"
  let ?uim = "index_map_from 0 (map fst (forall_uvars gslv)) Map.empty"
  let ?evs = "forall_evars gslv"
  from gen have
    rows: "generate_rows env gslv ?uim (length (exists_evars gslv))
             (map fst (forall_ces gslv)) [] = Inr (model fm)"
    and eim: "evar_index_map fm = index_map_from 0 (map fst ?evs) Map.empty"
    by (auto simp: flat_model_generate_def Let_def split: if_splits sum.splits)
  from ev obtain k where k: "k < length ?evs" "?evs ! k = (f_evar, e_evar)"
    by (auto simp: in_set_conv_nth)
  from dist have d: "distinct (map node_id (map fst ?evs))" by simp
  have idx: "evar_index_map fm (node_id f_evar) = Some k"
    using index_map_from_nth [OF d, of k 0 Map.empty] k by (simp add: eim)
  have row: "bzla_node_param_is_exists_var f_evar \<and> tuple_bv t k = Inr ?v"
    if "(ce, t) \<in> set (model fm)" for ce t
  proof -
    from generate_rows_rows [OF rows that]
    have fill: "fill_evar_values env gslv ?uim ce ?evs 0
                  (bzla_bv_new_tuple (length (exists_evars gslv))) = Inr t"
      by simp
    from fill_evar_values_nth [OF fill k(1)] k(2) obtain bv where
      val: "evar_value env gslv ?uim ce f_evar e_evar = Inr bv" and
      tup: "tuple_bv t k = Inr bv"
      by auto
    from tup evar_value_no_deps [OF nodeps val] show ?thesis by simp
  qed
  have some: "flat_model_get_value fm f_evar (Some ce) = Inr ?v"
    if "ce \<in> fst ` set (model fm)" for ce
  proof -
    from that obtain t where "map_of (model fm) ce = Some t"
      by (cases "map_of (model fm) ce") (auto simp: map_of_eq_None_iff)
    moreover from this have "(ce, t) \<in> set (model fm)" by (rule map_of_SomeD)
    ultimately show ?thesis
      using row by (simp add: flat_model_get_value_def idx)
  qed
  have none: "flat_model_get_value fm f_evar None = Inr ?v"
    if "ce \<in> fst ` set (model fm)" for ce
  proof -
    from that obtain c t rest where m: "model fm = (c, t) # rest"
      by (cases "model fm") auto
    have "bzla_node_param_is_exists_var f_evar \<and> tuple_bv t k = Inr ?v"
      using row [of c t] m by simp
    moreover have "rows_agree ?v k (map snd (model fm)) = Inr ()"
      by (rule rows_agree_all) (use row in auto)
    ultimately show ?thesis
      by (simp add: flat_model_get_value_def idx m)
  qed
  show ?thesis using idx row some none by (auto simp: Let_def)
qed

theorem flat_model_outermost_evar_constant_witness:
  "let gslv = s5_bundle 0 0 [(s5_y, s5_y_const)]
                [([Some (BzlaBitVector 8 0)], Some [Some (BzlaBitVector 8 0)]),
                 ([Some (BzlaBitVector 8 1)], Some [Some (BzlaBitVector 8 0)])];
       fm = projr (flat_model_generate s5_env gslv)
   in flat_model_generate s5_env gslv = Inr fm
      \<and> map fst (model fm) = [[Some (BzlaBitVector 8 0)], [Some (BzlaBitVector 8 1)]]
      \<and> (\<forall>ce \<in> fst ` set (model fm).
            flat_model_get_value fm s5_x (Some ce) = Inr (BzlaBitVector 8 0)
            \<and> flat_model_get_value fm s5_x None = Inr (BzlaBitVector 8 0))"
proof -
  let ?gslv = "s5_bundle 0 0 [(s5_y, s5_y_const)]
                [([Some (BzlaBitVector 8 0)], Some [Some (BzlaBitVector 8 0)]),
                 ([Some (BzlaBitVector 8 1)], Some [Some (BzlaBitVector 8 0)])]"
  let ?fm = "projr (flat_model_generate s5_env ?gslv)"
  have gen: "flat_model_generate s5_env ?gslv = Inr ?fm"
    by (simp add: flat_model_generate_def evar_value_def bzla_nodemap_mapped_def
          bzla_node_param_is_exists_var_def bzla_bv_new_tuple_def bzla_bv_add_to_tuple_def
          s5_defs)
  have keys: "map fst (model ?fm) = [[Some (BzlaBitVector 8 0)], [Some (BzlaBitVector 8 1)]]"
    by (simp add: flat_model_generate_def evar_value_def bzla_nodemap_mapped_def
          bzla_node_param_is_exists_var_def bzla_bv_new_tuple_def bzla_bv_add_to_tuple_def
          s5_defs)
  have dist: "distinct (map (node_id \<circ> fst) (forall_evars ?gslv))"
    by (simp add: s5_defs)
  have ev: "(s5_x, s5_x_exists) \<in> set (forall_evars ?gslv)"
    by (simp add: s5_bundle_def)
  have nodeps: "bzla_nodemap_mapped (forall_evar_deps ?gslv) s5_x = None"
    by (simp add: bzla_nodemap_mapped_def s5_bundle_def)
  have v: "model_get_bv s5_env (exists ?gslv) (simplify_exp s5_env (exists ?gslv) s5_x_exists)
           = BzlaBitVector 8 0"
    by (simp add: s5_defs bzla_bv_new_def)
  from flat_model_outermost_evar_constant [OF gen dist ev nodeps]
  have "\<forall>ce \<in> fst ` set (model ?fm).
            flat_model_get_value ?fm s5_x (Some ce) = Inr (BzlaBitVector 8 0)
            \<and> flat_model_get_value ?fm s5_x None = Inr (BzlaBitVector 8 0)"
    unfolding Let_def v by (elim conjE)
  with gen keys show ?thesis
    unfolding Let_def by (intro conjI)
qed

section \<open>Properties of the normalization pass\<close>

lemmas ex_defs = ex_a_def ex_b_def ex_aa_def ex_a4_def ex_x_def ex_y_def ex_z_def ex_xx_def
  ex_x4_def ex_yz_def ex_c_def ex_d_def ex_n_def ex_t_def ex_zero_def ex_p_def ex_node_id_def
  ex_rewrite_def ex_norm_env_def ex_pass_def ex_udiv_def ex_mul_def ex_eq_def ex_notx_y_def
  ex_z_c_def ex_x4yz_def ex_2x_def ex_4x_def ex_ult_def ex_zc_x_def

lemmas process_eval = process_def process_loop.simps process_visit.simps process_node_def
  rebuild_node_cache_def is_null_def

lemmas bv_eval = mk_zero_def mk_one_def is_zero_def is_one_def is_ones_def ibvadd_def bvneg_def
  ibvsub_def bvmul_def ibvinc_def ibvdec_def compare_def to_uint64_def

lemmas node_eval = child_def is_null_def is_value_def is_inverted_def type_bv_size_def
  mk_node_def mk_value_def mk_value_bool_def

lemmas coeff_eval = cm_emplace_def cm_assign_def cm_add_def cm_add_one_def cm_add_value_def
  compute_coefficients_def cc_visit.simps mk_summand_def mk_node_mul_loop.simps
  mk_node_coeffs_def remove_zero_coeffs_def normalize_mul_def normalize_add_loop.simps
  normalize_add_def normalize_coefficients_eq_def mul_chain_def normalize_eq_mul'_def
  get_factorized_add_def normalize_eq_add'_def normalize_eq_add_mul_def
  normalize_common_def get_top.simps parents_inc_def is_leaf_def
  count_parents_chain_def count_parents_visit.simps

lemmas comm_assoc_eval = comm_assoc_balance_def normalize_comm_assoc_def rebuild_top_def
  rebuild_top_loop.simps cache_emplace_def rebuild_node_cache_def

lemmas adders_eval = normalize_adders_def collect_adders_def collect_adders_loop.simps
  ex_adders_results_def ex_shared_sum_def

subsection \<open>The pass as a whole\<close>

lemma apply_first_pass_length:
  "apply_first_pass env assertions st = Some st' \<Longrightarrow>
   length (new_assertions st') = length (new_assertions st) + length assertions"
proof (induction assertions arbitrary: st)
  case Nil
  then show ?case by simp
next
  case (Cons a rest)
  from Cons.prems show ?case
    by (auto simp: Let_def split: prod.splits if_splits option.splits dest!: Cons.IH)
qed

lemma replace_all_length:
  "length (replace_all i n processed_assertions assertions) = length assertions"
  by (induction n arbitrary: i assertions) auto

lemma replace_all_result:
  "length processed_assertions = length assertions \<Longrightarrow> i + n = length assertions \<Longrightarrow>
   replace_all i n processed_assertions assertions = take i assertions @ drop i processed_assertions"
proof (induction n arbitrary: i assertions)
  case 0
  then show ?case by simp
next
  case (Suc n)
  let ?a = "if assertions ! i \<noteq> processed_assertions ! i
            then assertions[i := processed_assertions ! i] else assertions"
  have len: "length processed_assertions = length ?a" "Suc i + n = length ?a"
    using Suc.prems by auto
  have i: "i < length assertions" "i < length processed_assertions"
    using Suc.prems by auto
  have "take (Suc i) ?a = take i assertions @ [processed_assertions ! i]"
    using i by (auto simp: take_Suc_conv_app_nth)
  then show ?case
    using Suc.IH [OF len] i by (simp add: Cons_nth_drop_Suc)
qed

lemma normalize_adders_length:
  "normalize_adders env this assertions = Some norm_assertions \<Longrightarrow>
   length norm_assertions = length assertions"
  by (auto simp: normalize_adders_def split: option.splits)

text \<open>
  With \<open>d_share_aware\<close>, adder-chain sharing stops at the first chain it collects: the
  assertion of \<open>compute_coefficients\<close> on the parents map fails, the map being empty.
  Then \<open>apply\<close> has no result either.
\<close>

lemma normalize_adders_share_aware:
  assumes "d_share_aware this" and "kind a = BV_ADD"
  shows "normalize_adders env this (assertions @ [a]) = None"
proof -
  have "compute_coefficients env this a (kind a) Map.empty [] = None"
    using assms by (simp add: compute_coefficients_def cc_visit.simps)
  then have "collect_adders_loop env this (a # rev assertions) [] [] = None"
    using assms by (subst collect_adders_loop.simps) simp
  then show ?thesis
    by (simp add: normalize_adders_def collect_adders_def)
qed

text \<open>
  The two sums of the first loop are the counted AIG sizes of the assertions it has
  read and of the assertions it has pushed.
\<close>

lemma count_all_append:
  "count_all env (xs @ ys) acc = count_all env ys (count_all env xs acc)"
proof (induction xs arbitrary: acc)
  case Nil
  then show ?case by simp
next
  case (Cons a xs)
  obtain size_after cache where acc: "acc = (size_after, cache)" by (cases acc)
  show ?case by (simp add: acc Cons.IH split: prod.splits)
qed

lemma apply_first_pass_counts:
  assumes "apply_first_pass env assertions st = Some st'"
    and "(size_before st, cache_before st) = count_all env seen (0, {})"
    and "(size_after1 st, cache_after1 st) = count_all env (new_assertions st) (0, {})"
  shows "(size_before st', cache_before st') = count_all env (seen @ assertions) (0, {})
         \<and> (size_after1 st', cache_after1 st') = count_all env (new_assertions st') (0, {})"
  using assms
proof (induction assertions arbitrary: st seen)
  case Nil
  then show ?case by simp
next
  case (Cons a rest)
  obtain n cb where cnt: "count_aig_ands env a (cache_before st) = (n, cb)"
    by (cases "count_aig_ands env a (cache_before st)")
  have before: "count_all env (seen @ [a]) (0, {}) = (size_before st + n, cb)"
    using Cons.prems(2) [symmetric] by (simp add: count_all_append cnt)
  show ?case
  proof (cases "base_processed env (d_processed_assertions (pass st)) a")
    case True
    obtain n1 ca where cnt1: "count_aig_ands env a (cache_after1 st) = (n1, ca)"
      by (cases "count_aig_ands env a (cache_after1 st)")
    let ?st = "st\<lparr>size_before := size_before st + n, cache_before := cb,
                   size_after1 := size_after1 st + n1, cache_after1 := ca,
                   new_assertions := new_assertions st @ [a]\<rparr>"
    from Cons.prems(1) True have rec: "apply_first_pass env rest ?st = Some st'"
      by (simp add: cnt cnt1 Let_def)
    have after: "(size_after1 ?st, cache_after1 ?st)
                 = count_all env (new_assertions ?st) (0, {})"
      using Cons.prems(3) [symmetric] by (simp add: count_all_append cnt1)
    from Cons.IH [OF rec, of "seen @ [a]"] before after show ?thesis
      by simp
  next
    case False
    let ?this = "(pass st)\<lparr>d_processed_assertions :=
                    base_cache_assertion env (d_processed_assertions (pass st)) a\<rparr>"
    from Cons.prems(1) False obtain processed this1 where
      proc: "process env ?this a = Some (processed, this1)"
      by (auto simp: cnt Let_def split: option.splits)
    obtain n1 ca where cnt1: "count_aig_ands env processed (cache_after1 st) = (n1, ca)"
      by (cases "count_aig_ands env processed (cache_after1 st)")
    let ?st = "st\<lparr>size_before := size_before st + n, cache_before := cb,
                   size_after1 := size_after1 st + n1, cache_after1 := ca,
                   new_assertions := new_assertions st @ [processed], pass := this1\<rparr>"
    from Cons.prems(1) False have rec: "apply_first_pass env rest ?st = Some st'"
      by (simp add: cnt cnt1 proc Let_def)
    have after: "(size_after1 ?st, cache_after1 ?st)
                 = count_all env (new_assertions ?st) (0, {})"
      using Cons.prems(3) [symmetric] by (simp add: count_all_append cnt1)
    from Cons.IH [OF rec, of "seen @ [a]"] before after show ?thesis
      by simp
  qed
qed

text \<open>What a run of \<open>apply\<close> that returns has computed.\<close>

lemma apply_pass_cases:
  assumes "apply_pass env this0 assertions = Some (assertions', this')"
  obtains st0 st second where
    "apply_init env this0 assertions = Some st0"
    "apply_first_pass env assertions st0 = Some st"
    "normalize_adders env (pass st) (new_assertions st) = Some second"
    "length (new_assertions st) = length assertions"
    "length second = length assertions"
    "size_before st = aig_size env assertions"
    "size_after1 st = aig_size env (new_assertions st)"
    "assertions' =
       (if min (aig_size env second) (aig_size env (new_assertions st)) < aig_size env assertions
        then (if aig_size env second < aig_size env (new_assertions st)
              then second else new_assertions st)
        else assertions)"
proof -
  from assms obtain st0 st second where
    init: "apply_init env this0 assertions = Some st0" and
    fp: "apply_first_pass env assertions st0 = Some st" and
    na: "normalize_adders env (pass st) (new_assertions st) = Some second"
    by (auto simp: apply_pass_def split: Option.bind_splits)
  from init have st0: "new_assertions st0 = []" "size_before st0 = 0" "cache_before st0 = {}"
    "size_after1 st0 = 0" "cache_after1 st0 = {}"
    by (auto simp: apply_init_def Let_def split: if_splits prod.splits)
  from apply_first_pass_length [OF fp] st0
  have len: "length (new_assertions st) = length assertions"
    by simp
  from normalize_adders_length [OF na] len have len2: "length second = length assertions"
    by simp
  from apply_first_pass_counts [OF fp, of "[]"] st0
  have sums: "(size_before st, cache_before st) = count_all env assertions (0, {})"
    "(size_after1 st, cache_after1 st) = count_all env (new_assertions st) (0, {})"
    by simp_all
  have cnt: "size_before st = aig_size env assertions"
    "size_after1 st = aig_size env (new_assertions st)"
    using sums [THEN arg_cong [where f = fst]] by (simp_all add: aig_size_def)
  from assms have "assertions' =
       (if min (aig_size env second) (aig_size env (new_assertions st)) < aig_size env assertions
        then (if aig_size env second < aig_size env (new_assertions st)
              then second else new_assertions st)
        else assertions)"
    using len len2
    by (auto simp: apply_pass_def init fp na Let_def replace_all_result aig_size_def
                   cnt [unfolded aig_size_def]
             split: Option.bind_splits prod.splits if_splits)
  with init fp na len len2 cnt show ?thesis by (rule that)
qed

text \<open>
  C3. When \<open>apply\<close> returns, with \<open>first\<close> the assertions after the first pass and
  \<open>second\<close> those after adder-chain sharing, and with the AIG size of a vector counted
  as \<open>apply\<close> counts it: the two sums of the first loop are the AIG sizes of the input
  and of \<open>first\<close>; the assertions that \<open>apply\<close> leaves are the input, \<open>first\<close> or
  \<open>second\<close>; when they differ from the input, their AIG size is strictly smaller than
  that of the input; they are \<open>second\<close> rather than \<open>first\<close> only if the AIG size of
  \<open>second\<close> is strictly smaller than that of \<open>first\<close>. When the smaller of the two
  sizes is strictly below the size of the input, the assertions are indeed replaced by
  the chosen ones.
\<close>

theorem apply_replaces_only_on_smaller_aig:
  assumes "apply_pass env this0 assertions = Some (assertions', this')"
  shows "\<exists>st0 st first second.
           apply_init env this0 assertions = Some st0
           \<and> apply_first_pass env assertions st0 = Some st
           \<and> first = new_assertions st
           \<and> normalize_adders env (pass st) first = Some second
           \<and> size_before st = aig_size env assertions
           \<and> size_after1 st = aig_size env first
           \<and> (assertions' = assertions \<or> assertions' = first \<or> assertions' = second)
           \<and> (assertions' \<noteq> assertions \<longrightarrow>
                 aig_size env assertions' < aig_size env assertions)
           \<and> (assertions' \<noteq> assertions \<and> assertions' \<noteq> first \<longrightarrow>
                 aig_size env second < aig_size env first)
           \<and> (min (aig_size env second) (aig_size env first) < aig_size env assertions \<longrightarrow>
                 assertions' = (if aig_size env second < aig_size env first
                                then second else first))"
  using assms
proof (rule apply_pass_cases)
  fix st0 st second
  assume init: "apply_init env this0 assertions = Some st0"
    and fp: "apply_first_pass env assertions st0 = Some st"
    and na: "normalize_adders env (pass st) (new_assertions st) = Some second"
    and cnt: "size_before st = aig_size env assertions"
      "size_after1 st = aig_size env (new_assertions st)"
    and res: "assertions' =
       (if min (aig_size env second) (aig_size env (new_assertions st)) < aig_size env assertions
        then (if aig_size env second < aig_size env (new_assertions st)
              then second else new_assertions st)
        else assertions)"
  let ?first = "new_assertions st"
  have 1: "assertions' = assertions \<or> assertions' = ?first \<or> assertions' = second"
    by (simp add: res)
  have 2: "aig_size env assertions' < aig_size env assertions"
    if "assertions' \<noteq> assertions"
    using that by (auto simp: res min_def split: if_splits)
  have 3: "aig_size env second < aig_size env ?first"
    if "assertions' \<noteq> assertions \<and> assertions' \<noteq> ?first"
    using that by (auto simp: res split: if_splits)
  have 4: "assertions' = (if aig_size env second < aig_size env ?first then second else ?first)"
    if "min (aig_size env second) (aig_size env ?first) < aig_size env assertions"
    using that by (simp add: res)
  from init fp na cnt 1 2 3 4 show ?thesis
    by blast
qed

theorem apply_replaces_only_on_smaller_aig_witness:
  "apply_pass ex_norm_env (ex_pass False Map.empty) [ex_ult, Node AND [ex_p, ex_p] []]
     = Some (the (apply_pass ex_norm_env (ex_pass False Map.empty)
                    [ex_ult, Node AND [ex_p, ex_p] []]))
   \<and> fst (the (apply_pass ex_norm_env (ex_pass False Map.empty)
                 [ex_ult, Node AND [ex_p, ex_p] []]))
       = [Node BV_ULT [Node BV_ADD [Node BV_MUL [Node_value (BitVector 8 3), ex_x] [], ex_x] [],
                       ex_y] [], ex_p]
   \<and> aig_size ex_norm_env [ex_ult, Node AND [ex_p, ex_p] []] = 15
   \<and> aig_size ex_norm_env [ex_ult, ex_p] = 12
   \<and> aig_size ex_norm_env
         [Node BV_ULT [Node BV_ADD [Node BV_MUL [Node_value (BitVector 8 3), ex_x] [], ex_x] [],
                       ex_y] [], ex_p] = 9
   \<and> (\<exists>st0 st.
         apply_init ex_norm_env (ex_pass False Map.empty) [ex_ult, Node AND [ex_p, ex_p] []]
           = Some st0
         \<and> apply_first_pass ex_norm_env [ex_ult, Node AND [ex_p, ex_p] []] st0 = Some st
         \<and> new_assertions st = [ex_ult, ex_p]
         \<and> normalize_adders ex_norm_env (pass st) [ex_ult, ex_p]
             = Some [Node BV_ULT [Node BV_ADD [Node BV_MUL [Node_value (BitVector 8 3), ex_x] [],
                                                ex_x] [], ex_y] [], ex_p]
         \<and> size_before st = 15 \<and> size_after1 st = 12)"
proof -
  let ?as = "[ex_ult, Node AND [ex_p, ex_p] []]"
  let ?p0 = "ex_pass False Map.empty"
  let ?r = "the (apply_pass ex_norm_env ?p0 ?as)"
  let ?first = "[ex_ult, ex_p]"
  let ?second = "[Node BV_ULT [Node BV_ADD [Node BV_MUL [Node_value (BitVector 8 3), ex_x] [],
                                            ex_x] [], ex_y] [], ex_p]"
  have run: "apply_pass ex_norm_env ?p0 ?as = Some (fst ?r, snd ?r)"
    by (simp add: apply_pass_def apply_init_def adders_eval process_eval node_eval bv_eval
          coeff_eval comm_assoc_eval Let_def ex_defs)
  have res: "fst ?r = ?second"
    by (simp add: apply_pass_def apply_init_def adders_eval process_eval node_eval bv_eval
          coeff_eval comm_assoc_eval Let_def ex_defs)
  have s0: "aig_size ex_norm_env ?as = 15"
    by (simp add: aig_size_def ex_defs)
  have s1: "aig_size ex_norm_env ?first = 12"
    by (simp add: aig_size_def ex_defs)
  have s2: "aig_size ex_norm_env ?second = 9"
    by (simp add: aig_size_def ex_defs)
  let ?init = "the (apply_init ex_norm_env ?p0 ?as)"
  let ?final = "the (apply_first_pass ex_norm_env ?as ?init)"
  have i: "apply_init ex_norm_env ?p0 ?as = Some ?init"
    by (simp add: apply_init_def ex_defs)
  have f: "apply_first_pass ex_norm_env ?as ?init = Some ?final"
    by (simp add: apply_init_def process_eval node_eval bv_eval coeff_eval comm_assoc_eval
          Let_def ex_defs)
  have first: "new_assertions ?final = ?first"
    by (simp add: apply_init_def process_eval node_eval bv_eval coeff_eval comm_assoc_eval
          Let_def ex_defs)
  have sa: "\<not> d_share_aware (pass ?final)"
    by (simp add: apply_init_def process_eval node_eval bv_eval coeff_eval comm_assoc_eval
          Let_def ex_defs)
  have na: "normalize_adders ex_norm_env (pass ?final) ?first = Some ?second"
    using sa by (simp add: adders_eval node_eval bv_eval coeff_eval Let_def ex_defs)
  from apply_replaces_only_on_smaller_aig [OF run]
  obtain st0 st where
    init: "apply_init ex_norm_env ?p0 ?as = Some st0" and
    fp: "apply_first_pass ex_norm_env ?as st0 = Some st" and
    cnt: "size_before st = aig_size ex_norm_env ?as"
      "size_after1 st = aig_size ex_norm_env (new_assertions st)"
    by blast
  have e0: "st0 = ?init"
    by (rule option.inject [THEN iffD1, OF trans [OF init [symmetric] i]])
  have e1: "st = ?final"
    by (rule option.inject [THEN iffD1, OF trans [OF fp [unfolded e0, symmetric] f]])
  note sizes = cnt [unfolded e1 first s0 s1]
  from i f first na sizes have
    "\<exists>st0 st.
         apply_init ex_norm_env ?p0 ?as = Some st0
         \<and> apply_first_pass ex_norm_env ?as st0 = Some st
         \<and> new_assertions st = ?first
         \<and> normalize_adders ex_norm_env (pass st) ?first = Some ?second
         \<and> size_before st = 15 \<and> size_after1 st = 12"
    by blast
  moreover from run have "apply_pass ex_norm_env ?p0 ?as = Some ?r"
    by simp
  ultimately show ?thesis
    using res s0 s1 s2 by (intro conjI)
qed

text \<open>
  C10. When \<open>apply\<close> returns, it leaves as many assertions as it was given: the only
  writes to the assertion vector are the replacements at the indices
  \<open>0 .. size - 1\<close>, under the AIG-size guard, and the vector of processed assertions has
  one entry for each input assertion.
\<close>

theorem apply_keeps_number_of_assertions:
  assumes "apply_pass env this0 assertions = Some (assertions', this')"
  shows "length assertions' = length assertions"
  using assms
proof (rule apply_pass_cases)
  fix st second
  assume len: "length (new_assertions st) = length assertions"
    and len2: "length second = length assertions"
    and res: "assertions' =
       (if min (aig_size env second) (aig_size env (new_assertions st)) < aig_size env assertions
        then (if aig_size env second < aig_size env (new_assertions st)
              then second else new_assertions st)
        else assertions)"
  show ?thesis
    using len len2 by (simp add: res)
qed

theorem apply_keeps_number_of_assertions_witness:
  "let assertions = [Node AND [ex_p, ex_p] [], ex_p];
       this0 = ex_pass False Map.empty;
       r = the (apply_pass ex_norm_env this0 assertions)
   in apply_pass ex_norm_env this0 assertions = Some r \<and> fst r = [ex_p, ex_p]
      \<and> length (fst r) = length assertions"
proof -
  let ?as = "[Node AND [ex_p, ex_p] [], ex_p]"
  let ?p0 = "ex_pass False Map.empty"
  let ?r = "the (apply_pass ex_norm_env ?p0 ?as)"
  have run: "apply_pass ex_norm_env ?p0 ?as = Some (fst ?r, snd ?r)"
    by (simp add: apply_pass_def apply_init_def adders_eval Let_def process_eval ex_defs)
  have res: "fst ?r = [ex_p, ex_p]"
    by (simp add: apply_pass_def apply_init_def adders_eval Let_def process_eval ex_defs)
  from apply_keeps_number_of_assertions [OF run]
  have "length (fst ?r) = length ?as" .
  moreover from run have "apply_pass ex_norm_env ?p0 ?as = Some ?r"
    by simp
  ultimately show ?thesis
    unfolding Let_def using res by (intro conjI)
qed

subsection \<open>The extra equality identity and the distributive multiplication\<close>

text \<open>
  What \<open>rewrite_term\<close> does rewrite: the product against zero, on either side of the
  equality, when the first operand of the product is the division by the second one,
  or when the first operand is no division and the second one is the division by the
  first one.
\<close>

lemma rewrite_term_udiv_first:
  "is_zero z \<Longrightarrow> kind cur = EQUAL \<Longrightarrow>
   rewrite_term cur [mk_node BV_MUL [mk_node BV_UDIV [n, t], t], mk_value z]
     = mk_node OR [mk_node EQUAL [t, mk_value z], mk_node BV_UGT [t, n]]
   \<and> rewrite_term cur [mk_value z, mk_node BV_MUL [mk_node BV_UDIV [n, t], t]]
     = mk_node OR [mk_node EQUAL [t, mk_value z], mk_node BV_UGT [t, n]]"
  by (simp add: rewrite_term_def mk_node_def mk_value_def child_def is_null_def is_value_def)

lemma rewrite_term_udiv_second:
  "is_zero z \<Longrightarrow> kind cur = EQUAL \<Longrightarrow> kind t \<noteq> BV_UDIV \<Longrightarrow>
   rewrite_term cur [mk_node BV_MUL [t, mk_node BV_UDIV [n, t]], mk_value z]
     = mk_node OR [mk_node EQUAL [t, mk_value z], mk_node BV_UGT [t, n]]
   \<and> rewrite_term cur [mk_value z, mk_node BV_MUL [t, mk_node BV_UDIV [n, t]]]
     = mk_node OR [mk_node EQUAL [t, mk_value z], mk_node BV_UGT [t, n]]"
  by (simp add: rewrite_term_def mk_node_def mk_value_def child_def is_null_def is_value_def)

text \<open>
  C7. The equality \<open>t * (n / t) = 0\<close> with \<open>t = c / d\<close>, a division itself: the first
  operand of the product is a division, so \<open>rewrite_term\<close> takes it for the division of
  the pattern, compares its divisor \<open>d\<close> with the second operand and gives no result;
  \<open>process\<close> leaves the equality as it is, and not the disjunction
  \<open>t = 0 \<or> t >\<^sub>u n\<close>.
\<close>

theorem rewrite_term_misses_udiv_operand:
  "rewrite_term ex_eq [ex_mul, ex_zero] = Node_null
   \<and> map_option fst (process ex_norm_env (ex_pass False Map.empty) ex_eq) = Some ex_eq
   \<and> ex_eq \<noteq> mk_node OR [mk_node EQUAL [ex_t, ex_zero], mk_node BV_UGT [ex_t, ex_n]]"
proof (intro conjI)
  show "rewrite_term ex_eq [ex_mul, ex_zero] = Node_null"
    by (simp add: rewrite_term_def node_eval bv_eval ex_defs)
  show "map_option fst (process ex_norm_env (ex_pass False Map.empty) ex_eq) = Some ex_eq"
    by (simp add: process_eval rewrite_term_def distrib_mul.simps node_eval bv_eval coeff_eval
          comm_assoc_eval Let_def ex_defs)
  show "ex_eq \<noteq> mk_node OR [mk_node EQUAL [ex_t, ex_zero], mk_node BV_UGT [ex_t, ex_n]]"
    by (simp add: mk_node_def ex_defs)
qed

text \<open>
  How deep the calls of \<open>distrib_mul\<close> nest: a run that may nest as many calls as the
  depth says, or more, has a result, and whenever a bounded run has a result, it is the
  term that \<open>distrib_mul\<close> makes.
\<close>

lemma distrib_mul_fuel_enough:
  "unat depth \<le> fuel \<Longrightarrow>
   distrib_mul_fuel fuel left right depth = Some (distrib_mul left right depth)"
proof (induction fuel arbitrary: left right depth)
  case 0
  then have "depth = 0"
    by (simp add: unat_eq_0)
  then show ?case
    by (simp add: distrib_mul_fuel.simps distrib_mul.simps)
next
  case (Suc fuel)
  show ?case
  proof (cases "depth = 0")
    case True
    then show ?thesis
      by (simp add: distrib_mul_fuel.simps distrib_mul.simps)
  next
    case False
    then have "unat (depth - 1) < unat depth"
      by (rule measure_unat)
    with Suc.prems have le: "unat (depth - 1) \<le> fuel"
      by simp
    note IH = Suc.IH [OF le]
    show ?thesis
      by (subst distrib_mul.simps) (simp add: distrib_mul_fuel.simps IH)
  qed
qed

lemma distrib_mul_fuel_result:
  "distrib_mul_fuel fuel left right depth = Some t \<Longrightarrow> t = distrib_mul left right depth"
proof (induction fuel arbitrary: left right depth t)
  case 0
  then show ?case
    by (subst distrib_mul.simps) (auto simp: distrib_mul_fuel.simps split: if_splits)
next
  case (Suc fuel)
  from Suc.prems show ?case
    by (subst distrib_mul.simps)
       (auto simp: distrib_mul_fuel.simps split: if_splits option.splits dest!: Suc.IH)
qed

text \<open>
  C8. \<open>distrib_mul\<close> is a total function whose calls nest no deeper than the depth
  bound: with depth 0 it makes the product and does not recurse, and for every pair of
  operands and every depth a run that may nest at most \<open>depth\<close> calls (or more) ends with
  the term that \<open>distrib_mul\<close> makes, each call passing on the depth minus one. In
  \<open>process\<close>, the result for every node of kind \<open>BV_MUL\<close> is the rewritten \<open>distrib_mul\<close>
  of its two children with depth 5, computed by calls that nest at most 5 deep.
\<close>

theorem distrib_mul_terminates_within_depth:
  "distrib_mul left right 0 = mk_node BV_MUL [left, right]
   \<and> (unat depth \<le> fuel \<longrightarrow>
         distrib_mul_fuel fuel left right depth = Some (distrib_mul left right depth))
   \<and> (kind cur = BV_MUL \<longrightarrow>
         process_node env this cur children normalized
           = Some (rewrite env (distrib_mul (children ! 0) (children ! 1) 5), normalized, this)
         \<and> distrib_mul_fuel 5 (children ! 0) (children ! 1) 5
             = Some (distrib_mul (children ! 0) (children ! 1) 5))"
proof (intro conjI impI)
  show "distrib_mul left right 0 = mk_node BV_MUL [left, right]"
    by (simp add: distrib_mul.simps)
  show "distrib_mul_fuel fuel left right depth = Some (distrib_mul left right depth)"
    if "unat depth \<le> fuel"
    using that by (rule distrib_mul_fuel_enough)
  show "process_node env this cur children normalized
          = Some (rewrite env (distrib_mul (children ! 0) (children ! 1) 5), normalized, this)"
    if "kind cur = BV_MUL"
    using that by (simp add: process_node_def)
  show "distrib_mul_fuel 5 (children ! 0) (children ! 1) 5
          = Some (distrib_mul (children ! 0) (children ! 1) 5)"
    by (rule distrib_mul_fuel_enough) simp
qed

theorem distrib_mul_terminates_within_depth_witness:
  "distrib_mul_fuel 1 ex_zc_x ex_y 1 = Some (distrib_mul ex_zc_x ex_y 1)
   \<and> distrib_mul ex_zc_x ex_y 1
       = Node BV_ADD [Node BV_MUL [ex_z_c, ex_y] [], Node BV_MUL [ex_x, ex_y] []] []
   \<and> distrib_mul_fuel 0 ex_zc_x ex_y 1 = None
   \<and> process_node ex_norm_env (ex_pass False Map.empty) (Node BV_MUL [ex_zc_x, ex_y] [])
        [ex_zc_x, ex_y] False
       = Some (Node BV_ADD [Node BV_ADD [Node BV_MUL [ex_z, ex_y] [], Node BV_MUL [ex_c, ex_y] []] [],
                            Node BV_MUL [ex_x, ex_y] []] [],
               False, ex_pass False Map.empty)
   \<and> distrib_mul_fuel 5 ex_zc_x ex_y 5 = Some (distrib_mul ex_zc_x ex_y 5)
   \<and> distrib_mul_fuel 1 ex_zc_x ex_y 5 = None"
proof -
  note thm1 =
    distrib_mul_terminates_within_depth
      [where left = ex_zc_x and right = ex_y and depth = 1 and fuel = 1
         and cur = "Node BV_MUL [ex_zc_x, ex_y] []" and children = "[ex_zc_x, ex_y]"
         and env = ex_norm_env and this = "ex_pass False Map.empty" and normalized = False]
  have k: "kind (Node BV_MUL [ex_zc_x, ex_y] []) = BV_MUL"
    by simp
  have le: "unat (1 :: 8 word) \<le> 1"
    by simp
  have nth: "[ex_zc_x, ex_y] ! 0 = ex_zc_x" "[ex_zc_x, ex_y] ! 1 = ex_y"
    by simp_all
  have d1: "distrib_mul ex_zc_x ex_y 1
       = Node BV_ADD [Node BV_MUL [ex_z_c, ex_y] [], Node BV_MUL [ex_x, ex_y] []] []"
    by (simp add: distrib_mul.simps node_eval ex_defs)
  have d5: "rewrite ex_norm_env (distrib_mul ex_zc_x ex_y 5)
       = Node BV_ADD [Node BV_ADD [Node BV_MUL [ex_z, ex_y] [], Node BV_MUL [ex_c, ex_y] []] [],
                      Node BV_MUL [ex_x, ex_y] []] []"
    by (simp add: distrib_mul.simps node_eval ex_defs)
  have n0: "distrib_mul_fuel 0 ex_zc_x ex_y 1 = None"
    by (simp add: distrib_mul_fuel.simps ex_defs)
  have n1: "distrib_mul_fuel 1 ex_zc_x ex_y 5 = None"
    unfolding One_nat_def by (simp add: distrib_mul_fuel.simps node_eval ex_defs)
  from thm1 le have a: "distrib_mul_fuel 1 ex_zc_x ex_y 1 = Some (distrib_mul ex_zc_x ex_y 1)"
    by blast
  from thm1 k have
    b: "process_node ex_norm_env (ex_pass False Map.empty) (Node BV_MUL [ex_zc_x, ex_y] [])
          [ex_zc_x, ex_y] False
        = Some (rewrite ex_norm_env (distrib_mul ([ex_zc_x, ex_y] ! 0) ([ex_zc_x, ex_y] ! 1) 5),
                False, ex_pass False Map.empty)" and
    c: "distrib_mul_fuel 5 ([ex_zc_x, ex_y] ! 0) ([ex_zc_x, ex_y] ! 1) 5
        = Some (distrib_mul ([ex_zc_x, ex_y] ! 0) ([ex_zc_x, ex_y] ! 1) 5)"
    by blast+
  from a d1 n0 b [unfolded nth d5] c [unfolded nth] n1 show ?thesis
    by (intro conjI)
qed

subsection \<open>The value of an empty side\<close>

text \<open>
  \<open>_normalize_eq_mul\<close> makes an empty side the value 1, \<open>_normalize_eq_add\<close> makes it the
  value 0. \<open>normalize_common\<close> makes it the value 0 for every kind of chain.
\<close>

lemma normalize_eq_mul'_empty_side:
  assumes "normalize_eq_mul' env coeffs0 coeffs1 = Some (left, right)"
  shows "(expand_mul coeffs0 = Some [] \<longrightarrow>
            left = mk_value (mk_one (type_bv_size (fst (hd coeffs0)))))
         \<and> (expand_mul coeffs1 = Some [] \<longrightarrow>
               right = mk_value (mk_one (type_bv_size (fst (hd coeffs1)))))"
  using assms
  by (auto simp: normalize_eq_mul'_def mul_chain_def Let_def split: if_splits Option.bind_splits)

lemma normalize_eq_add'_empty_side:
  assumes "normalize_eq_add' env coeffs0 coeffs1 w = Some (left, right)"
  shows "(eq_add_lhs coeffs0 (mk_zero w) = Some ([], mk_zero w) \<longrightarrow>
            left = mk_value (mk_zero w))
         \<and> (eq_add_rhs coeffs1 = Some [] \<longrightarrow> right = mk_value (mk_zero w))"
  using assms
  by (auto simp: normalize_eq_add'_def Let_def is_zero_def mk_zero_def
           split: if_splits Option.bind_splits prod.splits)

lemma normalize_common_empty_side:
  assumes "normalize_common env k lhs rhs = Some ((left, right), lhs', rhs')"
  shows "(lhs' = [] \<longrightarrow> left = mk_value (mk_zero (type_bv_size (fst (hd lhs)))))
         \<and> (rhs' = [] \<longrightarrow> right = mk_value (mk_zero (type_bv_size (fst (hd rhs)))))"
  using assms
  by (auto simp: normalize_common_def Let_def split: if_splits Option.bind_splits prod.splits)

text \<open>
  C5. A chain of kind \<open>BV_MUL\<close> whose left map is the entry of \<open>a\<close> with coefficient 0,
  against the map of \<open>b\<close>: \<open>normalize_common\<close> makes the empty left side the value 0 of
  two bits, which is not the value 1. The map arises from the product
  \<open>(a * a) * (a * a)\<close> over two bits, where the coefficient 4 of \<open>a\<close> wraps to 0:
  \<open>process\<close> turns the equality of this product and \<open>b\<close> into \<open>0 = b\<close>.
\<close>

theorem normalize_common_mul_empty_side_is_zero:
  "normalize_common ex_norm_env BV_MUL [(ex_a, BitVector 2 0)] [(ex_b, BitVector 2 1)]
     = Some ((mk_value (mk_zero 2), ex_b), [], [(ex_b, BitVector 2 1)])
   \<and> mk_value (mk_zero 2) \<noteq> mk_value (mk_one 2)
   \<and> compute_coefficients ex_norm_env (ex_pass False Map.empty) ex_a4 BV_MUL Map.empty []
       = Some [(ex_a, BitVector 2 0)]
   \<and> map_option fst (process ex_norm_env (ex_pass False Map.empty) (Node EQUAL [ex_a4, ex_b] []))
       = Some (Node EQUAL [mk_value (mk_zero 2), ex_b] [])"
proof (intro conjI)
  show "normalize_common ex_norm_env BV_MUL [(ex_a, BitVector 2 0)] [(ex_b, BitVector 2 1)]
     = Some ((mk_value (mk_zero 2), ex_b), [], [(ex_b, BitVector 2 1)])"
    by (simp add: node_eval bv_eval coeff_eval Let_def ex_defs)
  show "mk_value (mk_zero 2) \<noteq> mk_value (mk_one 2)"
    by (simp add: mk_value_def mk_zero_def mk_one_def)
  show "compute_coefficients ex_norm_env (ex_pass False Map.empty) ex_a4 BV_MUL Map.empty []
       = Some [(ex_a, BitVector 2 0)]"
    by (simp add: node_eval bv_eval coeff_eval Let_def ex_defs)
  show "map_option fst
          (process ex_norm_env (ex_pass False Map.empty) (Node EQUAL [ex_a4, ex_b] []))
       = Some (Node EQUAL [mk_value (mk_zero 2), ex_b] [])"
    by (simp add: process_eval rewrite_term_def distrib_mul.simps node_eval bv_eval coeff_eval
          comm_assoc_eval Let_def ex_defs)
qed

subsection \<open>When the balanced term replaces the original\<close>

text \<open>The two examples: \<open>~x + y = z + c\<close>, and \<open>x\<^sup>4 * (y * z) <\<^sub>u y * z\<close>.\<close>

lemma ex_normalize_eq_add_mul:
  "normalize_eq_add_mul ex_norm_env (ex_pass False Map.empty) ex_notx_y ex_z_c
     = Some (Node EQUAL [Node BV_ADD [ex_y, Node_value (BitVector 8 255)] [],
                         Node BV_ADD [Node BV_ADD [ex_x, ex_z] [], ex_c] []] [], True)"
  by (simp add: node_eval bv_eval coeff_eval Let_def ex_defs)

lemma ex_comm_assoc_balance:
  "comm_assoc_balance ex_norm_env (ex_pass False Map.empty) ex_x4yz ex_yz BV_MUL
     = Some (3, 2,
             (Node BV_MUL [ex_x, Node BV_MUL [ex_x, Node BV_MUL [ex_x,
                Node BV_MUL [ex_x, ex_yz] []] []] []] [], ex_yz),
             [(ex_x, BitVector 8 4), (ex_yz, BitVector 8 1)], [(ex_yz, BitVector 8 1)])"
  by (simp add: node_eval bv_eval coeff_eval comm_assoc_eval Let_def ex_defs)

lemma ex_normalize_comm_assoc:
  "normalize_comm_assoc ex_norm_env (ex_pass False Map.empty) BV_ULT ex_x4yz ex_yz
     = Some (Node BV_ULT [Node BV_MUL [ex_x, Node BV_MUL [ex_x, Node BV_MUL [ex_x,
                Node BV_MUL [ex_x, ex_yz] []] []] []] [], ex_yz] [], True)"
  by (simp add: node_eval bv_eval coeff_eval comm_assoc_eval Let_def ex_defs)

lemma ex_node_counts:
  "node_count (Node EQUAL [ex_notx_y, ex_z_c] []) = 8"
  "node_count (Node EQUAL [Node BV_ADD [ex_y, Node_value (BitVector 8 255)] [],
                           Node BV_ADD [Node BV_ADD [ex_x, ex_z] [], ex_c] []] []) = 9"
  "node_count (Node BV_ULT [ex_x4yz, ex_yz] []) = 8"
  "node_count (Node BV_ULT [Node BV_MUL [ex_x, Node BV_MUL [ex_x, Node BV_MUL [ex_x,
                Node BV_MUL [ex_x, ex_yz] []] []] []] [], ex_yz] []) = 9"
  by (simp_all add: node_count_def ex_defs)

lemma ex_get_top:
  "get_top ex_x4yz = ex_x4yz" "get_top ex_yz = ex_yz" "get_top ex_mul = ex_mul"
  "get_top ex_zero = ex_zero"
  by (simp_all add: get_top.simps node_eval ex_defs)

lemma ex_comm_assoc_balance_kept:
  "comm_assoc_balance ex_norm_env (ex_pass False Map.empty) ex_mul ex_zero BV_MUL
     = Some (2, 1, (ex_mul, ex_zero),
             [(ex_t, BitVector 8 1), (ex_udiv, BitVector 8 1)], [(ex_zero, BitVector 8 1)])"
  by (simp add: node_eval bv_eval coeff_eval comm_assoc_eval Let_def ex_defs)

lemma ex_normalize_comm_assoc_kept:
  "normalize_comm_assoc ex_norm_env (ex_pass False Map.empty) EQUAL ex_mul ex_zero
     = Some (mk_node EQUAL [ex_mul, ex_zero], False)"
  by (simp add: node_eval bv_eval coeff_eval comm_assoc_eval Let_def ex_defs)

lemma ex_rebuild_top:
  "rebuild_top ex_x4yz ex_x4yz
     (Node BV_MUL [ex_x, Node BV_MUL [ex_x, Node BV_MUL [ex_x, Node BV_MUL [ex_x, ex_yz] []] []] []] [])
   = Some (Node BV_MUL [ex_x, Node BV_MUL [ex_x, Node BV_MUL [ex_x,
             Node BV_MUL [ex_x, ex_yz] []] []] []] [])"
  "rebuild_top ex_yz ex_yz ex_yz = Some ex_yz"
  by (simp_all add: node_eval comm_assoc_eval Let_def ex_defs)

lemma ex_normalize_comm_assoc_no_chain:
  "normalize_comm_assoc ex_norm_env (ex_pass False Map.empty) BV_ULT ex_x ex_y
     = Some (fst (the (normalize_comm_assoc ex_norm_env (ex_pass False Map.empty) BV_ULT
                         ex_x ex_y)),
             snd (the (normalize_comm_assoc ex_norm_env (ex_pass False Map.empty) BV_ULT
                         ex_x ex_y)))"
  by (simp add: normalize_comm_assoc_def get_top.simps node_eval Let_def ex_defs)

lemma ex_normalize_eq_add_mul_sides:
  "normalize_coefficients_eq ex_norm_env (ex_pass False Map.empty) ex_notx_y ex_z_c
     = Some ([(ex_y, BitVector 8 1), (Node_value (BitVector 8 255), BitVector 8 1),
              (Node BV_NOT [ex_x] [], BitVector 8 0)],
             [(ex_x, BitVector 8 1), (ex_z, BitVector 8 1), (ex_c, BitVector 8 1)])"
  by (simp add: node_eval bv_eval coeff_eval Let_def ex_defs)

text \<open>
  C4, as the code has it. \<open>normalize_comm_assoc\<close> takes as chain kind the kind of the
  left top, or the kind of the right top when the left top is neither a sum nor a
  product. When that kind is neither \<^verbatim>\<open>BV_ADD\<close> nor \<^verbatim>\<open>BV_MUL\<close>, the original term is
  kept. Otherwise the sides are balanced, and the original term is kept exactly when
  neither coefficient map has fewer entries after the balancing than it had before;
  when one has, the result is the term rebuilt from the balanced sides, reported as a
  normalization when a rebuilt side differs from the original side.
  \<open>normalize_eq_add_mul\<close> balances the two sides and gives \<open>true\<close> when they are equal,
  the original equality when they are the original sides, and the equality of the
  balanced sides otherwise; it reports a normalization exactly when its result is not
  the original equality. Neither function compares node counts.
\<close>

theorem balancing_replaces_on_smaller_maps:
  "(normalize_comm_assoc env this parent_kind node0 node1 = Some (res, normalized) \<longrightarrow>
      (let top_lhs = get_top node0;
           top_rhs = get_top node1;
           k = (if kind top_lhs \<noteq> BV_ADD \<and> kind top_lhs \<noteq> BV_MUL then kind top_rhs
                else kind top_lhs)
       in if k \<noteq> BV_ADD \<and> k \<noteq> BV_MUL
          then res = mk_node parent_kind [node0, node1] \<and> \<not> normalized
          else \<exists>lhs_coeff_size rhs_coeff_size left right lhs rhs.
                 comm_assoc_balance env this top_lhs top_rhs k
                   = Some (lhs_coeff_size, rhs_coeff_size, (left, right), lhs, rhs)
                 \<and> (if lhs_coeff_size \<le> length lhs \<and> rhs_coeff_size \<le> length rhs
                    then res = mk_node parent_kind [node0, node1] \<and> \<not> normalized
                    else \<exists>rebuilt_left rebuilt_right.
                           rebuild_top node0 top_lhs left = Some rebuilt_left
                           \<and> rebuild_top node1 top_rhs right = Some rebuilt_right
                           \<and> res = mk_node parent_kind [rebuilt_left, rebuilt_right]
                           \<and> normalized
                               = (rebuilt_left \<noteq> node0 \<or> rebuilt_right \<noteq> node1))))
   \<and> (normalize_eq_add_mul env this node0 node1 = Some (res', normalized') \<longrightarrow>
        (\<exists>coeffs0 coeffs1 left right.
            normalize_coefficients_eq env this node0 node1 = Some (coeffs0, coeffs1)
            \<and> (if kind node0 = BV_ADD
                then normalize_eq_add' env coeffs0 coeffs1 (type_bv_size node0)
                else normalize_eq_mul' env coeffs0 coeffs1) = Some (left, right)
            \<and> (res', normalized')
                = (if left = right then (mk_value_bool True, True)
                   else if left = node0 \<and> right = node1
                   then (mk_node EQUAL [node0, node1], False)
                   else (mk_node EQUAL [left, right], True)))
        \<and> (normalized' \<longleftrightarrow> res' \<noteq> mk_node EQUAL [node0, node1]))"
proof (intro conjI impI)
  assume run: "normalize_comm_assoc env this parent_kind node0 node1 = Some (res, normalized)"
  let ?k = "if kind (get_top node0) \<noteq> BV_ADD \<and> kind (get_top node0) \<noteq> BV_MUL
            then kind (get_top node1) else kind (get_top node0)"
  show "let top_lhs = get_top node0;
           top_rhs = get_top node1;
           k = (if kind top_lhs \<noteq> BV_ADD \<and> kind top_lhs \<noteq> BV_MUL then kind top_rhs
                else kind top_lhs)
       in if k \<noteq> BV_ADD \<and> k \<noteq> BV_MUL
          then res = mk_node parent_kind [node0, node1] \<and> \<not> normalized
          else \<exists>lhs_coeff_size rhs_coeff_size left right lhs rhs.
                 comm_assoc_balance env this top_lhs top_rhs k
                   = Some (lhs_coeff_size, rhs_coeff_size, (left, right), lhs, rhs)
                 \<and> (if lhs_coeff_size \<le> length lhs \<and> rhs_coeff_size \<le> length rhs
                    then res = mk_node parent_kind [node0, node1] \<and> \<not> normalized
                    else \<exists>rebuilt_left rebuilt_right.
                           rebuild_top node0 top_lhs left = Some rebuilt_left
                           \<and> rebuild_top node1 top_rhs right = Some rebuilt_right
                           \<and> res = mk_node parent_kind [rebuilt_left, rebuilt_right]
                           \<and> normalized
                               = (rebuilt_left \<noteq> node0 \<or> rebuilt_right \<noteq> node1))"
  proof (cases "?k \<noteq> BV_ADD \<and> ?k \<noteq> BV_MUL")
    case True
    with run show ?thesis
      unfolding normalize_comm_assoc_def Let_def by (simp split: if_splits)
  next
    case False
    with run obtain lhs_coeff_size rhs_coeff_size left right lhs rhs where
      bal: "comm_assoc_balance env this (get_top node0) (get_top node1) ?k
              = Some (lhs_coeff_size, rhs_coeff_size, (left, right), lhs, rhs)"
      unfolding normalize_comm_assoc_def Let_def
      by (auto split: if_splits Option.bind_splits)
    show ?thesis
    proof (cases "lhs_coeff_size \<le> length lhs \<and> rhs_coeff_size \<le> length rhs")
      case guard: True
      with run False bal show ?thesis
        unfolding normalize_comm_assoc_def Let_def by (auto split: if_splits)
    next
      case guard: False
      with run False bal obtain rebuilt_left rebuilt_right where
        "rebuild_top node0 (get_top node0) left = Some rebuilt_left"
        "rebuild_top node1 (get_top node1) right = Some rebuilt_right"
        "res = mk_node parent_kind [rebuilt_left, rebuilt_right]"
        "normalized = (rebuilt_left \<noteq> node0 \<or> rebuilt_right \<noteq> node1)"
        unfolding normalize_comm_assoc_def Let_def
        by (auto split: if_splits Option.bind_splits)
      with False bal guard show ?thesis
        unfolding Let_def by auto
    qed
  qed
next
  assume run: "normalize_eq_add_mul env this node0 node1 = Some (res', normalized')"
  then obtain coeffs0 coeffs1 left right where
    sides: "normalize_coefficients_eq env this node0 node1 = Some (coeffs0, coeffs1)"
      "(if kind node0 = BV_ADD
        then normalize_eq_add' env coeffs0 coeffs1 (type_bv_size node0)
        else normalize_eq_mul' env coeffs0 coeffs1) = Some (left, right)" and
    res: "(res', normalized')
            = (if left = right then (mk_value_bool True, True)
               else if left = node0 \<and> right = node1
               then (mk_node EQUAL [node0, node1], False)
               else (mk_node EQUAL [left, right], True))"
    unfolding normalize_eq_add_mul_def
    by (auto split: if_splits Option.bind_splits)
  from sides res show "\<exists>coeffs0 coeffs1 left right.
            normalize_coefficients_eq env this node0 node1 = Some (coeffs0, coeffs1)
            \<and> (if kind node0 = BV_ADD
                then normalize_eq_add' env coeffs0 coeffs1 (type_bv_size node0)
                else normalize_eq_mul' env coeffs0 coeffs1) = Some (left, right)
            \<and> (res', normalized')
                = (if left = right then (mk_value_bool True, True)
                   else if left = node0 \<and> right = node1
                   then (mk_node EQUAL [node0, node1], False)
                   else (mk_node EQUAL [left, right], True))"
    by blast
  from res show "normalized' \<longleftrightarrow> res' \<noteq> mk_node EQUAL [node0, node1]"
    by (auto simp: mk_node_def mk_value_bool_def split: if_splits)
qed

lemma ex_kinds:
  "get_top ex_x = ex_x" "get_top ex_y = ex_y"
  "kind ex_x4yz = BV_MUL" "kind ex_mul = BV_MUL" "kind ex_x = CONSTANT" "kind ex_y = CONSTANT"
  "kind ex_notx_y = BV_ADD" "type_bv_size ex_notx_y = 8"
  by (simp_all add: get_top.simps node_eval ex_defs)

theorem balancing_replaces_on_smaller_maps_witness:
  "(\<exists>lhs_coeff_size rhs_coeff_size left right lhs rhs.
       comm_assoc_balance ex_norm_env (ex_pass False Map.empty) ex_x4yz ex_yz BV_MUL
         = Some (lhs_coeff_size, rhs_coeff_size, (left, right), lhs, rhs)
       \<and> length lhs < lhs_coeff_size
       \<and> (\<exists>rebuilt_left rebuilt_right.
             rebuild_top ex_x4yz ex_x4yz left = Some rebuilt_left
             \<and> rebuild_top ex_yz ex_yz right = Some rebuilt_right
             \<and> Node BV_ULT [Node BV_MUL [ex_x, Node BV_MUL [ex_x, Node BV_MUL [ex_x,
                  Node BV_MUL [ex_x, ex_yz] []] []] []] [], ex_yz] []
                 = mk_node BV_ULT [rebuilt_left, rebuilt_right]
             \<and> (rebuilt_left \<noteq> ex_x4yz \<or> rebuilt_right \<noteq> ex_yz)))
   \<and> (\<exists>lhs_coeff_size rhs_coeff_size sides lhs rhs.
         comm_assoc_balance ex_norm_env (ex_pass False Map.empty) ex_mul ex_zero BV_MUL
           = Some (lhs_coeff_size, rhs_coeff_size, sides, lhs, rhs)
         \<and> lhs_coeff_size \<le> length lhs \<and> rhs_coeff_size \<le> length rhs)
   \<and> normalize_comm_assoc ex_norm_env (ex_pass False Map.empty) EQUAL ex_mul ex_zero
       = Some (mk_node EQUAL [ex_mul, ex_zero], False)
   \<and> fst (the (normalize_comm_assoc ex_norm_env (ex_pass False Map.empty) BV_ULT ex_x ex_y))
       = mk_node BV_ULT [ex_x, ex_y]
   \<and> \<not> snd (the (normalize_comm_assoc ex_norm_env (ex_pass False Map.empty) BV_ULT ex_x ex_y))
   \<and> (\<exists>coeffs0 coeffs1 left right.
         normalize_coefficients_eq ex_norm_env (ex_pass False Map.empty) ex_notx_y ex_z_c
           = Some (coeffs0, coeffs1)
         \<and> normalize_eq_add' ex_norm_env coeffs0 coeffs1 8 = Some (left, right)
         \<and> left \<noteq> right
         \<and> Node EQUAL [Node BV_ADD [ex_y, Node_value (BitVector 8 255)] [],
                        Node BV_ADD [Node BV_ADD [ex_x, ex_z] [], ex_c] []] []
             = mk_node EQUAL [left, right])"
proof -
  let ?E = ex_norm_env
  let ?P = "ex_pass False Map.empty"
  let ?R1 = "Node EQUAL [Node BV_ADD [ex_y, Node_value (BitVector 8 255)] [],
                         Node BV_ADD [Node BV_ADD [ex_x, ex_z] [], ex_c] []] []"
  let ?R2 = "Node BV_ULT [Node BV_MUL [ex_x, Node BV_MUL [ex_x, Node BV_MUL [ex_x,
                Node BV_MUL [ex_x, ex_yz] []] []] []] [], ex_yz] []"
  note rebuilt =
    balancing_replaces_on_smaller_maps
      [where env = ?E and this = ?P and parent_kind = BV_ULT
         and ?node0.0 = ex_x4yz and ?node1.0 = ex_yz and res = ?R2 and normalized = True,
       THEN conjunct1, THEN mp, OF ex_normalize_comm_assoc]
  note kept =
    balancing_replaces_on_smaller_maps
      [where env = ?E and this = ?P and parent_kind = EQUAL
         and ?node0.0 = ex_mul and ?node1.0 = ex_zero
         and res = "mk_node EQUAL [ex_mul, ex_zero]" and normalized = False,
       THEN conjunct1, THEN mp, OF ex_normalize_comm_assoc_kept]
  note no_chain =
    balancing_replaces_on_smaller_maps
      [where env = ?E and this = ?P and parent_kind = BV_ULT
         and ?node0.0 = ex_x and ?node1.0 = ex_y,
       THEN conjunct1, THEN mp, OF ex_normalize_comm_assoc_no_chain]
  note sides =
    balancing_replaces_on_smaller_maps
      [where env = ?E and this = ?P and ?node0.0 = ex_notx_y and ?node1.0 = ex_z_c
         and res' = ?R1 and normalized' = True,
       THEN conjunct2, THEN mp, OF ex_normalize_eq_add_mul, THEN conjunct1]
  have w1: "\<exists>lhs_coeff_size rhs_coeff_size left right lhs rhs.
       comm_assoc_balance ?E ?P ex_x4yz ex_yz BV_MUL
         = Some (lhs_coeff_size, rhs_coeff_size, (left, right), lhs, rhs)
       \<and> length lhs < lhs_coeff_size
       \<and> (\<exists>rebuilt_left rebuilt_right.
             rebuild_top ex_x4yz ex_x4yz left = Some rebuilt_left
             \<and> rebuild_top ex_yz ex_yz right = Some rebuilt_right
             \<and> ?R2 = mk_node BV_ULT [rebuilt_left, rebuilt_right]
             \<and> (rebuilt_left \<noteq> ex_x4yz \<or> rebuilt_right \<noteq> ex_yz))"
    using rebuilt
    by (simp add: Let_def ex_get_top ex_kinds ex_comm_assoc_balance)
  have w2: "\<exists>lhs_coeff_size rhs_coeff_size sides lhs rhs.
         comm_assoc_balance ?E ?P ex_mul ex_zero BV_MUL
           = Some (lhs_coeff_size, rhs_coeff_size, sides, lhs, rhs)
         \<and> lhs_coeff_size \<le> length lhs \<and> rhs_coeff_size \<le> length rhs"
    using kept
    by (simp add: Let_def ex_get_top ex_kinds ex_comm_assoc_balance_kept)
  have w3: "fst (the (normalize_comm_assoc ?E ?P BV_ULT ex_x ex_y)) = mk_node BV_ULT [ex_x, ex_y]
            \<and> \<not> snd (the (normalize_comm_assoc ?E ?P BV_ULT ex_x ex_y))"
    using no_chain
    by (simp add: Let_def ex_kinds)
  have w4: "\<exists>coeffs0 coeffs1 left right.
         normalize_coefficients_eq ?E ?P ex_notx_y ex_z_c = Some (coeffs0, coeffs1)
         \<and> normalize_eq_add' ?E coeffs0 coeffs1 8 = Some (left, right)
         \<and> left \<noteq> right
         \<and> ?R1 = mk_node EQUAL [left, right]"
    using sides
    by (auto simp: ex_kinds mk_value_bool_def mk_node_def split: if_splits)
  from w1 w2 ex_normalize_comm_assoc_kept w3 w4 show ?thesis
    by (intro conjI) (elim conjE, assumption)+
qed

text \<open>
  C4, as the specification has it, fails. The equality \<open>~x + y = z + c\<close> has 8 nodes;
  \<open>normalize_eq_add_mul\<close> replaces it by \<open>y + 255 = (x + z) + c\<close>, which has 9. The
  comparison \<open>x\<^sup>4 * (y * z) <\<^sub>u y * z\<close>, with the power shared as \<open>(x * x) * (x * x)\<close>,
  has 8 nodes; \<open>normalize_comm_assoc\<close> replaces it by
  \<open>x * (x * (x * (x * (y * z)))) <\<^sub>u y * z\<close>, which has 9: the coefficient map of the
  left side went from 3 entries to 2.
\<close>

theorem balancing_grows_node_count:
  "normalize_eq_add_mul ex_norm_env (ex_pass False Map.empty) ex_notx_y ex_z_c
     = Some (Node EQUAL [Node BV_ADD [ex_y, Node_value (BitVector 8 255)] [],
                         Node BV_ADD [Node BV_ADD [ex_x, ex_z] [], ex_c] []] [], True)
   \<and> node_count (mk_node EQUAL [ex_notx_y, ex_z_c]) = 8
   \<and> node_count (Node EQUAL [Node BV_ADD [ex_y, Node_value (BitVector 8 255)] [],
                               Node BV_ADD [Node BV_ADD [ex_x, ex_z] [], ex_c] []] []) = 9
   \<and> normalize_comm_assoc ex_norm_env (ex_pass False Map.empty) BV_ULT ex_x4yz ex_yz
     = Some (Node BV_ULT [Node BV_MUL [ex_x, Node BV_MUL [ex_x, Node BV_MUL [ex_x,
                Node BV_MUL [ex_x, ex_yz] []] []] []] [], ex_yz] [], True)
   \<and> node_count (mk_node BV_ULT [ex_x4yz, ex_yz]) = 8
   \<and> node_count (Node BV_ULT [Node BV_MUL [ex_x, Node BV_MUL [ex_x, Node BV_MUL [ex_x,
                Node BV_MUL [ex_x, ex_yz] []] []] []] [], ex_yz] []) = 9
   \<and> comm_assoc_balance ex_norm_env (ex_pass False Map.empty) ex_x4yz ex_yz BV_MUL
     = Some (3, 2,
             (Node BV_MUL [ex_x, Node BV_MUL [ex_x, Node BV_MUL [ex_x,
                Node BV_MUL [ex_x, ex_yz] []] []] []] [], ex_yz),
             [(ex_x, BitVector 8 4), (ex_yz, BitVector 8 1)], [(ex_yz, BitVector 8 1)])"
  using ex_normalize_eq_add_mul ex_normalize_comm_assoc ex_node_counts ex_comm_assoc_balance
  unfolding mk_node_def by (intro conjI)

end
